theory Spec2Isabelle
  imports Main "HOL-Library.Word"
begin

unbundle bit_operations_syntax

chapter \<open>LE advertising manager and classic power manager\<close>

text \<open>
  A shallow embedding of \<^verbatim>\<open>system/gd/hci/le_advertising_manager.cc\<close> and of the
  power-manager action functions (\<^verbatim>\<open>bta_dm_pm\<close>).  Every definition names the source
  function it is translated from.  Bytes and 8-bit fields are \<open>8 word\<close>; lengths that
  the source keeps in a \<^verbatim>\<open>uint16_t\<close> are \<open>16 word\<close>; identifiers that are only
  compared and stored are \<open>nat\<close>.
\<close>

type_synonym u8 = "8 word"
type_synonym u16 = "16 word"

text \<open>Failures of the source that end the call: \<^verbatim>\<open>log::fatal\<close>, dereferencing an
  absent object, reading past the end of a container, and a failed \<^verbatim>\<open>ASSERT_LOG\<close>.\<close>

datatype error = Fatal_unreachable | Null_dereference | Out_of_bounds | Assertion_failed

section \<open>Address policy\<close>

datatype AdvertiserAddressType = PUBLIC | RESOLVABLE_RANDOM | NONRESOLVABLE_RANDOM

text \<open>
  Modelled from the spec: the enumeration \<^verbatim>\<open>LeAddressManager::AddressPolicy\<close> is declared in
  \<^verbatim>\<open>hci/le_address_manager.h\<close>, which is not part of the sources at hand.  The four
  policies the switch statements name are the spec's \<open>{PublicOnly, StaticOnly, RPA, NRPA}\<close>;
  \<open>POLICY_OTHER\<close> stands for any further enumerator, which reaches \<^verbatim>\<open>default:\<close>.
\<close>

datatype AddressPolicy =
    USE_PUBLIC_ADDRESS
  | USE_STATIC_ADDRESS
  | USE_RESOLVABLE_ADDRESS
  | USE_NON_RESOLVABLE_ADDRESS
  | POLICY_OTHER

text \<open>\<^verbatim>\<open>GetAdvertiserAddressTypeFromRequestedTypeAndPolicy\<close> (lines 121--137).  The
  \<^verbatim>\<open>default:\<close> branch calls \<^verbatim>\<open>log::fatal\<close>, which aborts.\<close>

fun GetAdvertiserAddressTypeFromRequestedTypeAndPolicy ::
  "AdvertiserAddressType \<Rightarrow> AddressPolicy \<Rightarrow> error + AdvertiserAddressType" where
  "GetAdvertiserAddressTypeFromRequestedTypeAndPolicy requested_address_type USE_PUBLIC_ADDRESS =
     Inr PUBLIC"
| "GetAdvertiserAddressTypeFromRequestedTypeAndPolicy requested_address_type USE_STATIC_ADDRESS =
     Inr PUBLIC"
| "GetAdvertiserAddressTypeFromRequestedTypeAndPolicy requested_address_type USE_RESOLVABLE_ADDRESS =
     Inr requested_address_type"
| "GetAdvertiserAddressTypeFromRequestedTypeAndPolicy requested_address_type USE_NON_RESOLVABLE_ADDRESS =
     Inr (if requested_address_type = RESOLVABLE_RANDOM then NONRESOLVABLE_RANDOM
          else requested_address_type)"
| "GetAdvertiserAddressTypeFromRequestedTypeAndPolicy requested_address_type POLICY_OTHER =
     Inl Fatal_unreachable"

text \<open>\<^verbatim>\<open>GetAdvertiserAddressTypeNonConnectable\<close> (lines 145--157).\<close>

fun GetAdvertiserAddressTypeNonConnectable ::
  "AdvertiserAddressType \<Rightarrow> AddressPolicy \<Rightarrow> error + AdvertiserAddressType" where
  "GetAdvertiserAddressTypeNonConnectable requested_address_type USE_PUBLIC_ADDRESS =
     Inr (if requested_address_type = RESOLVABLE_RANDOM then NONRESOLVABLE_RANDOM
          else requested_address_type)"
| "GetAdvertiserAddressTypeNonConnectable requested_address_type USE_STATIC_ADDRESS =
     Inr (if requested_address_type = RESOLVABLE_RANDOM then NONRESOLVABLE_RANDOM
          else requested_address_type)"
| "GetAdvertiserAddressTypeNonConnectable requested_address_type address_policy =
     GetAdvertiserAddressTypeFromRequestedTypeAndPolicy requested_address_type address_policy"

text \<open>
  The address type chosen when an advertiser is created: the same four lines of
  \<^verbatim>\<open>create_advertiser_with_id\<close> (523--529) and \<^verbatim>\<open>create_extended_advertiser_with_id\<close>
  (678--684).  \<open>nrpa_non_connectable_adv\<close> is the runtime feature flag of that name,
  \<open>connectable\<close> is \<^verbatim>\<open>config.connectable\<close>.
\<close>

definition advertiser_address_type_at_creation ::
  "bool \<Rightarrow> bool \<Rightarrow> AdvertiserAddressType \<Rightarrow> AddressPolicy \<Rightarrow> error + AdvertiserAddressType" where
  "advertiser_address_type_at_creation nrpa_non_connectable_adv connectable
       requested_advertiser_address_type address_policy =
     (if nrpa_non_connectable_adv \<and> \<not> connectable
      then GetAdvertiserAddressTypeNonConnectable requested_advertiser_address_type address_policy
      else GetAdvertiserAddressTypeFromRequestedTypeAndPolicy
             requested_advertiser_address_type address_policy)"

section \<open>Tx power calibration\<close>

definition kLeAdvertisingTxPowerMin :: int where "kLeAdvertisingTxPowerMin = - 127"
definition kLeAdvertisingTxPowerMax :: int where "kLeAdvertisingTxPowerMax = 20"
definition kLeTxPathLossCompMin :: int where "kLeTxPathLossCompMin = - 128"
definition kLeTxPathLossCompMax :: int where "kLeTxPathLossCompMax = 127"

text \<open>
  \<^verbatim>\<open>get_tx_path_loss_compensation\<close> (lines 219--235).  \<open>compensation_prop\<close> is what
  \<^verbatim>\<open>os::GetSystemProperty\<close> returns for the property
  \<^verbatim>\<open>bluetooth.hardware.radio.le_tx_path_loss_comp_db\<close>; the parser
  \<^verbatim>\<open>common::Int64FromString\<close> is a parameter.  The result is an \<^verbatim>\<open>int8_t\<close>.
\<close>

definition get_tx_path_loss_compensation ::
  "(string \<Rightarrow> int option) \<Rightarrow> string option \<Rightarrow> u8" where
  "get_tx_path_loss_compensation Int64FromString compensation_prop =
     (case compensation_prop of
        None \<Rightarrow> 0
      | Some v \<Rightarrow>
          (case Int64FromString v of
             None \<Rightarrow> 0
           | Some number \<Rightarrow>
               if number < kLeTxPathLossCompMin \<or> number > kLeTxPathLossCompMax then 0
               else word_of_int number))"

text \<open>
  \<^verbatim>\<open>get_tx_power_after_calibration\<close> (lines 237--250).  Both operands are \<^verbatim>\<open>int8_t\<close>;
  their sum is computed in \<^verbatim>\<open>int\<close> and kept in an \<^verbatim>\<open>int64_t\<close>, so it does not wrap.
\<close>

definition get_tx_power_after_calibration :: "u8 \<Rightarrow> u8 \<Rightarrow> u8" where
  "get_tx_power_after_calibration le_tx_path_loss_comp tx_power =
     (if le_tx_path_loss_comp = 0 then tx_power
      else
        let number = sint tx_power + sint le_tx_path_loss_comp in
        if number < kLeAdvertisingTxPowerMin \<or> number > kLeAdvertisingTxPowerMax
        then tx_power
        else word_of_int number)"

section \<open>GAP data elements and encrypted advertising data\<close>

text \<open>
  Modelled from the spec: the structure \<^verbatim>\<open>GapData\<close> is generated from the packet
  description (\<^verbatim>\<open>hci/hci_packets.h\<close>) and is not part of the sources at hand.  Following
  the spec's data model it is a data type byte with a byte sequence, a length-prefixed
  triple \<open><len, type, bytes>\<close> on the wire, so its serialized size is the length of the
  bytes plus two, and the length byte counts the type byte and the data bytes.  A
  default-constructed element has type 0 and no bytes.  The members \<^verbatim>\<open>data_type_\<close> and
  \<^verbatim>\<open>data_\<close> are the fields \<open>data_type\<close> and \<open>data_bytes\<close>.
\<close>

record GapData =
  data_type :: u8
  data_bytes :: "u8 list"

definition GapData_default :: GapData where
  "GapData_default = \<lparr>data_type = 0, data_bytes = []\<rparr>"

definition GapData_size :: "GapData \<Rightarrow> nat" where
  "GapData_size g = length (data_bytes g) + 2"

definition GapData_Serialize :: "GapData \<Rightarrow> u8 list" where
  "GapData_Serialize g = of_nat (length (data_bytes g) + 1) # data_type g # data_bytes g"

text \<open>Modelled from the spec: the values of \<^verbatim>\<open>GapDataType\<close> the manager names (the
  flags triple is \<open>{0x02, 0x01, flags}\<close>, the encrypted element has type \<open>0x31\<close>).\<close>

definition FLAGS :: u8 where "FLAGS = 0x01"
definition TX_POWER_LEVEL :: u8 where "TX_POWER_LEVEL = 0x0A"
definition ENCRYPTED_ADVERTISING_DATA :: u8 where "ENCRYPTED_ADVERTISING_DATA = 0x31"

text \<open>
  The AEAD of BoringSSL that \<^verbatim>\<open>EncryptedAdvertising\<close> calls
  (\<^verbatim>\<open>EVP_aead_aes_128_ccm_bluetooth\<close>) is a parameter:
  \<^item> \<open>ctx_new key\<close> says whether \<^verbatim>\<open>EVP_AEAD_CTX_new\<close> returns a context for the key;
  \<^item> \<open>max_overhead\<close> is \<^verbatim>\<open>EVP_AEAD_max_overhead\<close>, the tag length;
  \<^item> \<open>seal_scatter key nonce input ad\<close> is what \<^verbatim>\<open>EVP_AEAD_CTX_seal_scatter\<close> writes
    to its two output buffers.
\<close>

record aead =
  ctx_new :: "u8 list \<Rightarrow> bool"
  max_overhead :: nat
  seal_scatter :: "u8 list \<Rightarrow> u8 list \<Rightarrow> u8 list \<Rightarrow> u8 list \<Rightarrow> u8 list \<times> u8 list"

text \<open>A buffer \<^verbatim>\<open>std::vector<uint8_t> b(n)\<close> starts as \<open>n\<close> zero bytes; a callee that gets
  \<^verbatim>\<open>b.data()\<close> can overwrite the bytes but not change their number.\<close>

definition buffer_after_write :: "nat \<Rightarrow> u8 list \<Rightarrow> u8 list" where
  "buffer_after_write n written = take n written @ replicate (n - length written) 0"

text \<open>The input of the cipher: the loop of lines 1626--1630.\<close>

fun encryption_input :: "GapData list \<Rightarrow> u8 list" where
  "encryption_input [] = []"
| "encryption_input (d # ds) =
     (of_nat (length (data_bytes d) + 1) # data_type d # data_bytes d) @ encryption_input ds"

text \<open>The nonce (lines 1616--1624): the key is the first 16 bytes of the key material,
  the IV is everything after them, and the nonce is the reversed randomizer followed by
  the reversed IV.\<close>

definition encryption_nonce :: "u8 list \<Rightarrow> u8 list \<Rightarrow> u8 list" where
  "encryption_nonce key_iv randomizer =
     (let iv = drop 16 key_iv in rev randomizer @ rev iv)"

text \<open>
  \<^verbatim>\<open>EncryptedAdvertising\<close> (lines 1603--1681).  Of the advertiser it reads
  \<open>enc_key_value\<close> and \<open>randomizer\<close>; \<open>stored_key_iv\<close> is what
  \<^verbatim>\<open>storage_module_->GetBin("Adapter", BTIF_STORAGE_KEY_ENCR_DATA)\<close> returns.
  Dereferencing an absent stored value and reading 16 key bytes from shorter key
  material are undefined in the source and are errors here.
\<close>

definition EncryptedAdvertising ::
  "aead \<Rightarrow> u8 list option \<Rightarrow> u8 list \<Rightarrow> u8 list \<Rightarrow> GapData list \<Rightarrow> error + GapData" where
  "EncryptedAdvertising ccm stored enc_key randomizer_bytes data =
     (case (if enc_key \<noteq> [] then Some enc_key else stored) of
        None \<Rightarrow> Inl Null_dereference
      | Some key_iv \<Rightarrow>
          if length key_iv < 16 then Inl Out_of_bounds
          else
            let key = take 16 key_iv;
                ad = [0xEA];
                nonce = encryption_nonce key_iv randomizer_bytes;
                input = encryption_input data
            in if \<not> ctx_new ccm key then Inr GapData_default
               else
                 let written = seal_scatter ccm key nonce input ad;
                     out = buffer_after_write (length input) (fst written);
                     out_tag = buffer_after_write (max_overhead ccm) (snd written)
                 in Inr \<lparr>data_type = ENCRYPTED_ADVERTISING_DATA,
                         data_bytes = rev randomizer_bytes @ out @ out_tag\<rparr>)"

section \<open>State of the advertising manager\<close>

datatype AdvertisingApiType = LEGACY | ANDROID_HCI | EXTENDED

datatype Enable = DISABLED | ENABLED

datatype Operation =
  INTERMEDIATE_FRAGMENT | FIRST_FRAGMENT | LAST_FRAGMENT | COMPLETE_ADVERTISEMENT

datatype AdvertisingStatus =
  SUCCESS | DATA_TOO_LARGE | TOO_MANY_ADVERTISERS | ALREADY_STARTED | INTERNAL_ERROR
  | FEATURE_UNSUPPORTED

datatype AddressType =
  PUBLIC_DEVICE_ADDRESS | RANDOM_DEVICE_ADDRESS | PUBLIC_IDENTITY_ADDRESS
  | RANDOM_IDENTITY_ADDRESS

text \<open>The status of an HCI event; \<open>ErrorCode_other\<close> carries every code the manager does
  not name.\<close>

datatype ErrorCode =
  ErrorCode_SUCCESS | LIMIT_REACHED | ADVERTISING_TIMEOUT | OPERATION_CANCELLED_BY_HOST
  | ErrorCode_other u8

text \<open>An address with its type; the 48-bit address is a number.\<close>

type_synonym AddressWithType = "nat \<times> AddressType"

text \<open>\<^verbatim>\<open>hci::EnabledSet\<close>: the members \<^verbatim>\<open>advertising_handle_\<close>, \<^verbatim>\<open>duration_\<close> and
  \<^verbatim>\<open>max_extended_advertising_events_\<close>.\<close>

record EnabledSet =
  advertising_handle :: nat
  enabled_duration :: nat
  enabled_max_extended_advertising_events :: nat

definition EnabledSet_default :: EnabledSet where
  "EnabledSet_default =
     \<lparr>advertising_handle = 0, enabled_duration = 0, enabled_max_extended_advertising_events = 0\<rparr>"

text \<open>
  \<^verbatim>\<open>struct Advertiser\<close> (lines 81--111).  A callback member is \<open>True\<close> when it is
  not null.  \<open>address_rotation_alarm\<close> is \<open>None\<close> for \<^verbatim>\<open>nullptr\<close> and \<open>Some ms\<close> for an
  alarm object last scheduled \<open>ms\<close> milliseconds ahead.  The members \<^verbatim>\<open>handler\<close>,
  \<^verbatim>\<open>scan_callback\<close> and \<^verbatim>\<open>set_terminated_callback\<close> are not read by the functions below
  and are left out.
\<close>

record Advertiser =
  current_address :: AddressWithType
  address_type :: AdvertiserAddressType
  status_callback :: bool
  timeout_callback :: bool
  tx_power :: u8
  duration :: nat
  max_extended_advertising_events :: nat
  started :: bool
  is_legacy :: bool
  connectable :: bool
  discoverable :: bool
  directed :: bool
  in_use :: bool
  include_adi :: bool
  is_periodic :: bool
  address_rotation_alarm :: "nat option"
  advertisement :: "GapData list"
  scan_response :: "GapData list"
  periodic_data :: "GapData list"
  randomizer :: "u8 list"
  advertisement_enc :: "GapData list"
  scan_response_enc :: "GapData list"
  periodic_data_enc :: "GapData list"
  enc_key_value :: "u8 list"

text \<open>The value-initialized \<^verbatim>\<open>Advertiser\<close> that \<^verbatim>\<open>std::map::operator[]\<close> inserts for a
  key that is not in the map.\<close>

definition Advertiser_default :: Advertiser where
  "Advertiser_default =
     \<lparr>current_address = (0, PUBLIC_DEVICE_ADDRESS), address_type = PUBLIC,
      status_callback = False, timeout_callback = False, tx_power = 0, duration = 0,
      max_extended_advertising_events = 0, started = False, is_legacy = False,
      connectable = False, discoverable = False, directed = False, in_use = False,
      include_adi = False, is_periodic = False, address_rotation_alarm = None,
      advertisement = [], scan_response = [], periodic_data = [], randomizer = [],
      advertisement_enc = [], scan_response_enc = [], periodic_data_enc = [],
      enc_key_value = []\<rparr>"

text \<open>The HCI commands the functions below build, with the arguments of the builders
  (the constant \<^verbatim>\<open>kFragment_preference\<close> is left out).\<close>

datatype hci_command =
    LeSetAdvertisingEnable Enable
  | LeMultiAdvtSetEnable Enable nat
  | LeSetExtendedAdvertisingEnable Enable "EnabledSet list"
  | LeSetAdvertisingSetRandomAddress nat nat
  | LeSetAdvertisingData "GapData list"
  | LeSetScanResponseData "GapData list"
  | LeMultiAdvtSetData "GapData list" nat
  | LeMultiAdvtSetScanResp "GapData list" nat
  | LeSetExtendedAdvertisingData nat Operation "GapData list"
  | LeSetExtendedScanResponseData nat Operation "GapData list"
  | LeSetExtendedAdvertisingDataRaw nat Operation "u8 list"
  | LeSetExtendedScanResponseDataRaw nat Operation "u8 list"
  | LeSetPeriodicAdvertisingData nat Operation "GapData list"
  | LeSetPeriodicAdvertisingDataRaw nat Operation "u8 list"
  | LeSetPeriodicAdvertisingEnable bool bool nat

text \<open>The completion handler bound to an enqueued command, with its bound arguments.\<close>

datatype completion =
    check_complete
  | check_status_with_id bool nat
  | on_set_advertising_enable_complete bool "EnabledSet list" bool
  | on_set_extended_advertising_enable_complete bool "EnabledSet list" bool
  | on_set_advertising_set_random_address_complete nat AddressWithType
  | on_set_periodic_advertising_enable_complete bool nat

text \<open>Calls that leave the manager: the methods of \<^verbatim>\<open>advertising_callbacks_\<close>, the
  one-shot timeout callback of an advertiser, and the notification of the connection
  layer (\<^verbatim>\<open>acl_manager_->OnAdvertisingSetTerminated\<close>).\<close>

datatype callback =
    OnScanResponseDataSet nat AdvertisingStatus
  | OnAdvertisingDataSet nat AdvertisingStatus
  | OnPeriodicAdvertisingDataSet nat AdvertisingStatus
  | OnAdvertisingEnabled nat bool ErrorCode
  | timeout_callback_Run nat ErrorCode
  | AclManager_OnAdvertisingSetTerminated ErrorCode nat nat AddressWithType bool

text \<open>
  The members of \<^verbatim>\<open>LeAdvertisingManager::impl\<close> (lines 2113--2140) that the functions
  below use.  \<open>advertising_sets\<close> and \<open>id_map\<close> are the two \<^verbatim>\<open>std::map\<close>s;
  \<open>enabled_sets\<close> is the vector \<^verbatim>\<open>enabled_sets_\<close> of \<open>num_instances\<close> entries, a table
  over all indices since the source indexes it without a bounds check;
  \<open>advertising_callbacks\<close> says that the pointer \<^verbatim>\<open>advertising_callbacks_\<close> is not null.
  \<open>hci_queue\<close> is every command passed to \<^verbatim>\<open>EnqueueCommand\<close>, in order, and
  \<open>callbacks_fired\<close> every outgoing call, in order.  \<open>rand_calls\<close> counts the calls of
  \<^verbatim>\<open>RAND_pseudo_bytes\<close>.
\<close>

record impl =
  advertising_api_type :: AdvertisingApiType
  advertising_sets :: "nat \<rightharpoonup> Advertiser"
  enabled_sets :: "nat \<Rightarrow> EnabledSet"
  num_instances :: nat
  id_map :: "nat \<rightharpoonup> int"
  paused :: bool
  address_manager_registered :: bool
  le_maximum_advertising_data_length :: nat
  advertising_callbacks :: bool
  hci_queue :: "(hci_command \<times> completion) list"
  callbacks_fired :: "callback list"
  rand_calls :: nat

text \<open>
  What the manager reads from outside itself.  The constants are declared in
  \<^verbatim>\<open>hci/le_advertising_manager.h\<close>, which is not part of the sources at hand, so they
  are parameters, as are the runtime feature flags, the controller's capabilities, the
  address manager's answers, the random bytes (\<open>RAND_pseudo_bytes k\<close> is what the
  \<open>k\<close>-th call writes), the cipher and the stored key material.
\<close>

record environment =
  kLeMaximumFragmentLength :: nat
  kLeMaximumGapDataLength :: nat
  kLeMaximumLegacyAdvertisingDataLength :: nat
  kLeMaximumPeriodicDataFragmentLength :: nat
  kInvalidHandle :: nat
  divide_long_single_gap_data :: bool
  ble_check_data_length_on_legacy_advertising :: bool
  SupportsBlePeriodicAdvertising :: bool
  SupportsBlePeriodicAdvertisingAdi :: bool
  GetMacAddress :: nat
  GetAddressPolicy :: AddressPolicy
  GetInitiatorAddress :: AddressWithType
  NewResolvableAddress :: AddressWithType
  NewNonResolvableAddress :: AddressWithType
  GetNextPrivateAddressIntervalMs :: nat
  RAND_pseudo_bytes :: "nat \<Rightarrow> u8 list"
  cipher :: aead
  stored_key_iv :: "u8 list option"

definition kIdLocal :: int where "kIdLocal = 0xff"

definition kLenOfFlags :: nat where "kLenOfFlags = 0x03"

definition LE_LIMITED_DISCOVERABLE :: u8 where "LE_LIMITED_DISCOVERABLE = 0x01"
definition LE_GENERAL_DISCOVERABLE :: u8 where "LE_GENERAL_DISCOVERABLE = 0x02"

subsection \<open>Access to the state\<close>

text \<open>\<^verbatim>\<open>advertising_sets_[id]\<close>: the entry, or the default one when the key is
  absent.\<close>

definition Advertiser_at :: "impl \<Rightarrow> nat \<Rightarrow> Advertiser" where
  "Advertiser_at s i =
     (case advertising_sets s i of None \<Rightarrow> Advertiser_default | Some a \<Rightarrow> a)"

text \<open>An assignment through \<^verbatim>\<open>advertising_sets_[id]\<close>; the entry exists afterwards.\<close>

definition update_Advertiser :: "nat \<Rightarrow> (Advertiser \<Rightarrow> Advertiser) \<Rightarrow> impl \<Rightarrow> impl" where
  "update_Advertiser i f s =
     s\<lparr>advertising_sets := (advertising_sets s)(i \<mapsto> f (Advertiser_at s i))\<rparr>"

text \<open>A read through \<^verbatim>\<open>advertising_sets_[id]\<close> inserts the default entry for an absent
  key and changes nothing else.\<close>

definition touch :: "nat \<Rightarrow> impl \<Rightarrow> impl" where
  "touch i s = update_Advertiser i (\<lambda>a. a) s"

text \<open>\<^verbatim>\<open>id_map_[id]\<close> likewise: the value, 0 for an absent key.\<close>

definition id_map_at :: "impl \<Rightarrow> nat \<Rightarrow> int" where
  "id_map_at s i = (case id_map s i of None \<Rightarrow> 0 | Some r \<Rightarrow> r)"

definition touch_id_map :: "nat \<Rightarrow> impl \<Rightarrow> impl" where
  "touch_id_map i s = s\<lparr>id_map := (id_map s)(i \<mapsto> id_map_at s i)\<rparr>"

definition EnqueueCommand :: "hci_command \<Rightarrow> completion \<Rightarrow> impl \<Rightarrow> impl" where
  "EnqueueCommand c h s = s\<lparr>hci_queue := hci_queue s @ [(c, h)]\<rparr>"

definition fire :: "callback \<Rightarrow> impl \<Rightarrow> impl" where
  "fire c s = s\<lparr>callbacks_fired := callbacks_fired s @ [c]\<rparr>"

text \<open>A call through \<^verbatim>\<open>advertising_callbacks_\<close> that the source does not guard against
  a null pointer.\<close>

definition advertising_callbacks_call :: "callback \<Rightarrow> impl \<Rightarrow> error + impl" where
  "advertising_callbacks_call c s =
     (if advertising_callbacks s then Inr (fire c s) else Inl Null_dereference)"

text \<open>A call inside \<^verbatim>\<open>if (advertising_callbacks_ != nullptr)\<close>.\<close>

definition advertising_callbacks_call_if_set :: "callback \<Rightarrow> impl \<Rightarrow> impl" where
  "advertising_callbacks_call_if_set c s = (if advertising_callbacks s then fire c s else s)"

text \<open>The data-set callback of \<^verbatim>\<open>set_data\<close>: scan response or advertising data.\<close>

definition data_set_callback :: "bool \<Rightarrow> nat \<Rightarrow> AdvertisingStatus \<Rightarrow> callback" where
  "data_set_callback set_scan_rsp advertiser_id status =
     (if set_scan_rsp then OnScanResponseDataSet advertiser_id status
      else OnAdvertisingDataSet advertiser_id status)"

section \<open>Writing advertising data\<close>

text \<open>\<^verbatim>\<open>data_has_flags\<close> (lines 1057--1064).\<close>

fun data_has_flags :: "GapData list \<Rightarrow> bool" where
  "data_has_flags [] = False"
| "data_has_flags (gap_data # rest) =
     (if data_type gap_data = FLAGS then True else data_has_flags rest)"

text \<open>The loop \<^verbatim>\<open>data_len += data[i].size()\<close> on a \<^verbatim>\<open>uint16_t\<close>: the sum wraps at
  \<open>2\<^sup>1\<^sup>6\<close>.\<close>

fun add_sizes :: "GapData list \<Rightarrow> nat \<Rightarrow> nat" where
  "add_sizes [] data_len = data_len"
| "add_sizes (d # ds) data_len = add_sizes ds ((data_len + GapData_size d) mod 65536)"

text \<open>\<^verbatim>\<open>check_advertising_data\<close> (lines 1066--1088).\<close>

definition check_advertising_data :: "impl \<Rightarrow> GapData list \<Rightarrow> bool \<Rightarrow> bool" where
  "check_advertising_data s data include_flag =
     (let data_len = add_sizes data 0;
          data_len = (if include_flag \<and> \<not> data_has_flags data
                      then (data_len + kLenOfFlags) mod 65536 else data_len)
      in \<not> data_len > le_maximum_advertising_data_length s)"

text \<open>\<^verbatim>\<open>check_chained_data\<close> (lines 1581--1601); an element above
  \<^verbatim>\<open>kLeMaximumGapDataLength\<close> is only logged.\<close>

definition check_chained_data :: "environment \<Rightarrow> GapData list \<Rightarrow> bool \<Rightarrow> bool" where
  "check_chained_data e data include_flag =
     (let data_len = add_sizes data 0;
          data_len = (if include_flag \<and> \<not> data_has_flags data
                      then (data_len + kLenOfFlags) mod 65536 else data_len)
      in data_len > kLeMaximumFragmentLength e)"

text \<open>The flags element that \<^verbatim>\<open>set_data\<close> and \<^verbatim>\<open>set_enc_data\<close> put in front of
  the data (lines 1126--1133).\<close>

definition flags_element :: "nat \<Rightarrow> GapData" where
  "flags_element set_duration =
     \<lparr>data_type = FLAGS,
      data_bytes = [if set_duration = 0 then LE_GENERAL_DISCOVERABLE
                    else LE_LIMITED_DISCOVERABLE]\<rparr>"

text \<open>
  The loop that fills the tx power (lines 1137--1142): the first byte of the first
  element of type \<^verbatim>\<open>TX_POWER_LEVEL\<close> is overwritten.  Writing \<^verbatim>\<open>data_[0]\<close> of an
  element without bytes is undefined in the source and an error here.
\<close>

fun fill_tx_power :: "u8 \<Rightarrow> GapData list \<Rightarrow> error + GapData list" where
  "fill_tx_power p [] = Inr []"
| "fill_tx_power p (gap_data # rest) =
     (if data_type gap_data = TX_POWER_LEVEL
      then (case data_bytes gap_data of
              [] \<Rightarrow> Inl Out_of_bounds
            | b # bs \<Rightarrow> Inr (gap_data\<lparr>data_bytes := p # bs\<rparr> # rest))
      else (case fill_tx_power p rest of
              Inl err \<Rightarrow> Inl err
            | Inr rest' \<Rightarrow> Inr (gap_data # rest')))"

definition has_tx_power :: "GapData list \<Rightarrow> bool" where
  "has_tx_power data = list_ex (\<lambda>gap_data. data_type gap_data = TX_POWER_LEVEL) data"

text \<open>\<^verbatim>\<open>send_data_fragment\<close> (lines 1273--1334).\<close>

definition send_data_fragment ::
  "environment \<Rightarrow> nat \<Rightarrow> bool \<Rightarrow> GapData list \<Rightarrow> Operation \<Rightarrow> impl \<Rightarrow> impl" where
  "send_data_fragment e advertiser_id set_scan_rsp data operation s =
     (let command = (if set_scan_rsp
                     then LeSetExtendedScanResponseData advertiser_id operation data
                     else LeSetExtendedAdvertisingData advertiser_id operation data)
      in if divide_long_single_gap_data e
         then
           let send_callback =
                 (operation = COMPLETE_ADVERTISEMENT \<or> operation = LAST_FRAGMENT)
           in EnqueueCommand command (check_status_with_id send_callback advertiser_id) s
         else if operation = COMPLETE_ADVERTISEMENT \<or> operation = LAST_FRAGMENT
         then EnqueueCommand command (check_status_with_id True advertiser_id) s
         else EnqueueCommand command check_complete s)"

text \<open>\<^verbatim>\<open>send_data_fragment_with_raw_builder\<close> (lines 1336--1363).\<close>

definition send_data_fragment_with_raw_builder ::
  "nat \<Rightarrow> bool \<Rightarrow> u8 list \<Rightarrow> Operation \<Rightarrow> impl \<Rightarrow> impl" where
  "send_data_fragment_with_raw_builder advertiser_id set_scan_rsp data operation s =
     (let send_callback = (operation = COMPLETE_ADVERTISEMENT \<or> operation = LAST_FRAGMENT)
      in EnqueueCommand
           (if set_scan_rsp
            then LeSetExtendedScanResponseDataRaw advertiser_id operation data
            else LeSetExtendedAdvertisingDataRaw advertiser_id operation data)
           (check_status_with_id send_callback advertiser_id) s)"

text \<open>
  Modelled from the spec: \<^verbatim>\<open>packet::FragmentingInserter\<close>
  (\<^verbatim>\<open>packet/fragmenting_inserter.h\<close>) is not part of the sources at hand.  With the flag
  \<^verbatim>\<open>divide_long_single_gap_data\<close> the codec ``splits across fragments by raw byte count'':
  the inserter is given the fragment length and receives the serialized bytes of all
  elements; every fragment but the last holds exactly that many bytes, and
  \<^verbatim>\<open>finalize\<close> closes the last, non-empty one.
\<close>

function FragmentingInserter :: "nat \<Rightarrow> u8 list \<Rightarrow> u8 list list" where
  "FragmentingInserter mtu bytes =
     (if bytes = [] then []
      else take (max 1 mtu) bytes # FragmentingInserter mtu (drop (max 1 mtu) bytes))"
  by pat_completeness auto
termination
  by (relation "measure (\<lambda>(mtu, bytes). length bytes)") auto

declare FragmentingInserter.simps [simp del]

text \<open>The loop over the raw fragments (lines 1247--1254): the last fragment is sent as
  \<^verbatim>\<open>LAST_FRAGMENT\<close>, the others with \<open>operation\<close>, which is
  \<^verbatim>\<open>INTERMEDIATE_FRAGMENT\<close> after the first.\<close>

fun send_raw_fragments ::
  "nat \<Rightarrow> bool \<Rightarrow> u8 list list \<Rightarrow> Operation \<Rightarrow> impl \<Rightarrow> impl" where
  "send_raw_fragments advertiser_id set_scan_rsp [] operation s = s"
| "send_raw_fragments advertiser_id set_scan_rsp [fragment] operation s =
     send_data_fragment_with_raw_builder advertiser_id set_scan_rsp fragment LAST_FRAGMENT s"
| "send_raw_fragments advertiser_id set_scan_rsp (fragment # fragments) operation s =
     send_raw_fragments advertiser_id set_scan_rsp fragments INTERMEDIATE_FRAGMENT
       (send_data_fragment_with_raw_builder advertiser_id set_scan_rsp fragment operation s)"

text \<open>
  The loop over the elements (lines 1256--1266), with the elements still to visit, and
  \<^verbatim>\<open>sub_data\<close>, \<^verbatim>\<open>sub_data_len\<close> (a \<^verbatim>\<open>uint16_t\<close>) and \<^verbatim>\<open>operation\<close> as they are at
  the head of the loop; after the loop the rest is sent as \<^verbatim>\<open>LAST_FRAGMENT\<close>.  The
  comparison adds a \<^verbatim>\<open>uint16_t\<close> and a \<^verbatim>\<open>size_t\<close> and does not wrap.
\<close>

fun send_element_fragments ::
  "environment \<Rightarrow> nat \<Rightarrow> bool \<Rightarrow> GapData list \<Rightarrow> GapData list \<Rightarrow> nat \<Rightarrow> Operation
     \<Rightarrow> impl \<Rightarrow> impl" where
  "send_element_fragments e advertiser_id set_scan_rsp [] sub_data sub_data_len operation s =
     send_data_fragment e advertiser_id set_scan_rsp sub_data LAST_FRAGMENT s"
| "send_element_fragments e advertiser_id set_scan_rsp (d # ds) sub_data sub_data_len operation s =
     (if sub_data_len + GapData_size d > kLeMaximumFragmentLength e
      then send_element_fragments e advertiser_id set_scan_rsp ds [d]
             ((0 + GapData_size d) mod 65536) INTERMEDIATE_FRAGMENT
             (send_data_fragment e advertiser_id set_scan_rsp sub_data operation s)
      else send_element_fragments e advertiser_id set_scan_rsp ds (sub_data @ [d])
             ((sub_data_len + GapData_size d) mod 65536) operation s)"

text \<open>The size check of the extended API (lines 1192--1209): \<open>None\<close> when an element is
  larger than the limit, else the 16-bit sum of the sizes.\<close>

fun check_element_sizes :: "nat \<Rightarrow> GapData list \<Rightarrow> nat \<Rightarrow> nat option" where
  "check_element_sizes data_limit [] data_len = Some data_len"
| "check_element_sizes data_limit (d # ds) data_len =
     (if GapData_size d > data_limit then None
      else check_element_sizes data_limit ds ((data_len + GapData_size d) mod 65536))"

text \<open>\<^verbatim>\<open>set_data\<close>, the case \<^verbatim>\<open>AdvertisingApiType::EXTENDED\<close> (lines 1188--1269), on the
  data as prepared by the head of the function.\<close>

definition set_data_extended ::
  "environment \<Rightarrow> nat \<Rightarrow> bool \<Rightarrow> GapData list \<Rightarrow> impl \<Rightarrow> impl" where
  "set_data_extended e advertiser_id set_scan_rsp data s =
     (let divide_gap_flag = divide_long_single_gap_data e;
          data_limit = (if divide_gap_flag then kLeMaximumGapDataLength e
                        else kLeMaximumFragmentLength e)
      in case check_element_sizes data_limit data 0 of
           None \<Rightarrow>
             advertising_callbacks_call_if_set
               (data_set_callback set_scan_rsp advertiser_id INTERNAL_ERROR) s
         | Some data_len \<Rightarrow>
             let s1 = (if ble_check_data_length_on_legacy_advertising e
                       then touch advertiser_id s else s);
                 maxDataLength =
                   (if ble_check_data_length_on_legacy_advertising e
                       \<and> is_legacy (Advertiser_at s1 advertiser_id)
                    then kLeMaximumLegacyAdvertisingDataLength e
                    else le_maximum_advertising_data_length s1)
             in if data_len > maxDataLength
                then advertising_callbacks_call_if_set
                       (data_set_callback set_scan_rsp advertiser_id DATA_TOO_LARGE) s1
                else if data_len \<le> kLeMaximumFragmentLength e
                then send_data_fragment e advertiser_id set_scan_rsp data
                       COMPLETE_ADVERTISEMENT s1
                else if divide_gap_flag
                then send_raw_fragments advertiser_id set_scan_rsp
                       (FragmentingInserter (kLeMaximumFragmentLength e)
                          (concat (map GapData_Serialize data)))
                       FIRST_FRAGMENT s1
                else send_element_fragments e advertiser_id set_scan_rsp data [] 0
                       FIRST_FRAGMENT s1)"

text \<open>
  The head of \<^verbatim>\<open>set_data\<close> and of \<^verbatim>\<open>set_enc_data\<close> (lines 1124--1134 and
  1734--1744): the flags element is put in front when the data is advertising data, the
  set is connectable and discoverable, and the data has no flags.  The advertiser is
  read, and so inserted when absent, only when \<^verbatim>\<open>set_scan_rsp\<close> is false.
\<close>

definition with_flags :: "nat \<Rightarrow> bool \<Rightarrow> GapData list \<Rightarrow> impl \<Rightarrow> GapData list \<times> impl" where
  "with_flags advertiser_id set_scan_rsp data s =
     (if set_scan_rsp then (data, s)
      else
        let s1 = touch advertiser_id s;
            a = Advertiser_at s1 advertiser_id
        in if connectable a \<and> discoverable a \<and> \<not> data_has_flags data
           then (flags_element (duration a) # data, s1)
           else (data, s1))"

text \<open>The tx power loop with its read of the advertiser, which happens only when an
  element of type \<^verbatim>\<open>TX_POWER_LEVEL\<close> is found.\<close>

definition with_tx_power ::
  "nat \<Rightarrow> GapData list \<Rightarrow> impl \<Rightarrow> error + GapData list \<times> impl" where
  "with_tx_power advertiser_id data s =
     (let s1 = (if has_tx_power data then touch advertiser_id s else s)
      in case fill_tx_power (tx_power (Advertiser_at s1 advertiser_id)) data of
           Inl err \<Rightarrow> Inl err
         | Inr data' \<Rightarrow> Inr (data', s1))"

text \<open>\<^verbatim>\<open>set_data\<close> (lines 1121--1271).\<close>

definition set_data ::
  "environment \<Rightarrow> nat \<Rightarrow> bool \<Rightarrow> GapData list \<Rightarrow> impl \<Rightarrow> error + impl" where
  "set_data e advertiser_id set_scan_rsp data_in s_in =
     (case with_flags advertiser_id set_scan_rsp data_in s_in of
        (data1, s1) \<Rightarrow>
          (case with_tx_power advertiser_id data1 s1 of
             Inl err \<Rightarrow> Inl err
           | Inr (data, s) \<Rightarrow>
               if advertising_api_type s \<noteq> EXTENDED \<and> \<not> check_advertising_data s data False
               then advertising_callbacks_call
                      (data_set_callback set_scan_rsp advertiser_id DATA_TOO_LARGE) s
               else
                 (case advertising_api_type s of
                    LEGACY \<Rightarrow>
                      Inr (EnqueueCommand
                             (if set_scan_rsp then LeSetScanResponseData data
                              else LeSetAdvertisingData data)
                             (check_status_with_id True advertiser_id) s)
                  | ANDROID_HCI \<Rightarrow>
                      Inr (EnqueueCommand
                             (if set_scan_rsp then LeMultiAdvtSetScanResp data advertiser_id
                              else LeMultiAdvtSetData data advertiser_id)
                             (check_status_with_id True advertiser_id) s)
                  | EXTENDED \<Rightarrow>
                      Inr (set_data_extended e advertiser_id set_scan_rsp data s))))"

section \<open>Enabling a set and the set-terminated event\<close>

text \<open>\<^verbatim>\<open>enable_advertiser\<close> (lines 1365--1430).\<close>

definition enable_advertiser :: "environment \<Rightarrow> nat \<Rightarrow> bool \<Rightarrow> nat \<Rightarrow> nat \<Rightarrow> impl \<Rightarrow> impl" where
  "enable_advertiser e advertiser_id enable new_duration new_max_events s =
     (let curr_set = \<lparr>advertising_handle = advertiser_id, enabled_duration = new_duration,
                      enabled_max_extended_advertising_events = new_max_events\<rparr>;
          enabled_vector = [curr_set];
          enable_value = (if enable then ENABLED else DISABLED)
      in if advertising_sets s advertiser_id = None then s
         else
           let s1 = (case advertising_api_type s of
                       LEGACY \<Rightarrow>
                         EnqueueCommand (LeSetAdvertisingEnable enable_value)
                           (on_set_advertising_enable_complete enable enabled_vector True) s
                     | ANDROID_HCI \<Rightarrow>
                         EnqueueCommand (LeMultiAdvtSetEnable enable_value advertiser_id)
                           (on_set_advertising_enable_complete enable enabled_vector True) s
                     | EXTENDED \<Rightarrow>
                         EnqueueCommand (LeSetExtendedAdvertisingEnable enable_value enabled_vector)
                           (on_set_extended_advertising_enable_complete enable enabled_vector True)
                           s)
           in if enable
              then
                let entry = (enabled_sets s1 advertiser_id)\<lparr>advertising_handle := advertiser_id\<rparr>;
                    entry = (if advertising_api_type s1 = EXTENDED
                             then entry\<lparr>enabled_duration := new_duration,
                                        enabled_max_extended_advertising_events := new_max_events\<rparr>
                             else entry);
                    s2 = s1\<lparr>enabled_sets := (enabled_sets s1)(advertiser_id := entry)\<rparr>
                in update_Advertiser advertiser_id
                     (\<lambda>a. a\<lparr>duration := new_duration,
                             max_extended_advertising_events := new_max_events\<rparr>) s2
              else
                let s2 = s1\<lparr>enabled_sets := (enabled_sets s1)
                            (advertiser_id := (enabled_sets s1 advertiser_id)
                                \<lparr>advertising_handle := kInvalidHandle e\<rparr>)\<rparr>
                in update_Advertiser advertiser_id (\<lambda>a. a\<lparr>address_rotation_alarm := None\<rparr>) s2)"

text \<open>The event \<^verbatim>\<open>LeAdvertisingSetTerminatedView\<close> as \<^verbatim>\<open>handle_set_terminated\<close> reads
  it.\<close>

record LeAdvertisingSetTerminatedView =
  IsValid :: bool
  GetStatus :: ErrorCode
  GetAdvertisingHandle :: nat
  GetConnectionHandle :: nat

text \<open>
  \<^verbatim>\<open>handle_set_terminated\<close> (lines 331--396).  Cancelling and resetting the rotation
  alarm leaves \<^verbatim>\<open>nullptr\<close>; running the one-shot timeout callback leaves it null;
  \<^verbatim>\<open>advertising_callbacks_\<close> is used without a null check.
\<close>

definition handle_set_terminated ::
  "environment \<Rightarrow> LeAdvertisingSetTerminatedView \<Rightarrow> impl \<Rightarrow> error + impl" where
  "handle_set_terminated e event_view s =
     (if \<not> IsValid event_view then Inr s
      else
        let status = GetStatus event_view
        in if status = OPERATION_CANCELLED_BY_HOST then Inr s
           else
             let advertiser_id = GetAdvertisingHandle event_view;
                 was_rotating_address =
                   (address_rotation_alarm (Advertiser_at s advertiser_id) \<noteq> None);
                 s1 = update_Advertiser advertiser_id
                        (\<lambda>a. a\<lparr>address_rotation_alarm := None\<rparr>) s;
                 s2 = s1\<lparr>enabled_sets := (enabled_sets s1)
                            (advertiser_id := (enabled_sets s1 advertiser_id)
                                \<lparr>advertising_handle := kInvalidHandle e\<rparr>)\<rparr>;
                 advertiser_address = current_address (Advertiser_at s2 advertiser_id);
                 is_discoverable = discoverable (Advertiser_at s2 advertiser_id);
                 s3 = fire (AclManager_OnAdvertisingSetTerminated status
                              (GetConnectionHandle event_view) advertiser_id
                              advertiser_address is_discoverable) s2
             in if status = LIMIT_REACHED \<or> status = ADVERTISING_TIMEOUT
                then
                  let s4 = touch_id_map advertiser_id s3
                  in if id_map_at s4 advertiser_id = kIdLocal
                     then
                       if timeout_callback (Advertiser_at s4 advertiser_id)
                       then Inr (update_Advertiser advertiser_id
                                   (\<lambda>a. a\<lparr>timeout_callback := False\<rparr>)
                                   (fire (timeout_callback_Run advertiser_id status) s4))
                       else Inr s4
                     else advertising_callbacks_call
                            (OnAdvertisingEnabled advertiser_id False status) s4
                else if \<not> directed (Advertiser_at s3 advertiser_id)
                then
                  if duration (Advertiser_at s3 advertiser_id) = 0
                     \<and> max_extended_advertising_events (Advertiser_at s3 advertiser_id) = 0
                  then
                    let s4 = (if was_rotating_address
                              then update_Advertiser advertiser_id
                                     (\<lambda>a. a\<lparr>address_rotation_alarm :=
                                             Some (GetNextPrivateAddressIntervalMs e)\<rparr>) s3
                              else s3)
                    in Inr (enable_advertiser e advertiser_id True 0 0 s4)
                  else Inr s3
                else Inr s3)"

section \<open>Periodic advertising data\<close>

text \<open>\<^verbatim>\<open>send_periodic_data_fragment\<close> (lines 1519--1547).\<close>

definition send_periodic_data_fragment ::
  "environment \<Rightarrow> nat \<Rightarrow> GapData list \<Rightarrow> Operation \<Rightarrow> impl \<Rightarrow> impl" where
  "send_periodic_data_fragment e advertiser_id data operation s =
     (let command = LeSetPeriodicAdvertisingData advertiser_id operation data
      in if divide_long_single_gap_data e
         then
           let send_callback =
                 (operation = COMPLETE_ADVERTISEMENT \<or> operation = LAST_FRAGMENT)
           in EnqueueCommand command (check_status_with_id send_callback advertiser_id) s
         else if operation = COMPLETE_ADVERTISEMENT \<or> operation = LAST_FRAGMENT
         then EnqueueCommand command (check_status_with_id True advertiser_id) s
         else EnqueueCommand command check_complete s)"

text \<open>\<^verbatim>\<open>send_periodic_data_fragment_with_raw_builder\<close> (lines 1549--1562).\<close>

definition send_periodic_data_fragment_with_raw_builder ::
  "nat \<Rightarrow> u8 list \<Rightarrow> Operation \<Rightarrow> impl \<Rightarrow> impl" where
  "send_periodic_data_fragment_with_raw_builder advertiser_id data operation s =
     (let send_callback = (operation = COMPLETE_ADVERTISEMENT \<or> operation = LAST_FRAGMENT)
      in EnqueueCommand (LeSetPeriodicAdvertisingDataRaw advertiser_id operation data)
           (check_status_with_id send_callback advertiser_id) s)"

text \<open>\<^verbatim>\<open>enable_periodic_advertising\<close> (lines 1564--1579).\<close>

definition enable_periodic_advertising ::
  "environment \<Rightarrow> nat \<Rightarrow> bool \<Rightarrow> bool \<Rightarrow> impl \<Rightarrow> impl" where
  "enable_periodic_advertising e advertiser_id enable adi s =
     (if \<not> SupportsBlePeriodicAdvertising e then s
      else
        let adi' = (if adi \<and> \<not> SupportsBlePeriodicAdvertisingAdi e then False else adi)
        in EnqueueCommand (LeSetPeriodicAdvertisingEnable enable adi' advertiser_id)
             (on_set_periodic_advertising_enable_complete enable advertiser_id) s)"

text \<open>The two fragment loops of the periodic data (lines 1496--1502 and 1504--1514),
  as for the advertising data.\<close>

fun send_periodic_raw_fragments ::
  "nat \<Rightarrow> u8 list list \<Rightarrow> Operation \<Rightarrow> impl \<Rightarrow> impl" where
  "send_periodic_raw_fragments advertiser_id [] operation s = s"
| "send_periodic_raw_fragments advertiser_id [fragment] operation s =
     send_periodic_data_fragment_with_raw_builder advertiser_id fragment LAST_FRAGMENT s"
| "send_periodic_raw_fragments advertiser_id (fragment # fragments) operation s =
     send_periodic_raw_fragments advertiser_id fragments INTERMEDIATE_FRAGMENT
       (send_periodic_data_fragment_with_raw_builder advertiser_id fragment operation s)"

fun send_periodic_element_fragments ::
  "environment \<Rightarrow> nat \<Rightarrow> GapData list \<Rightarrow> GapData list \<Rightarrow> nat \<Rightarrow> Operation \<Rightarrow> impl \<Rightarrow> impl"
  where
  "send_periodic_element_fragments e advertiser_id [] sub_data sub_data_len operation s =
     send_periodic_data_fragment e advertiser_id sub_data LAST_FRAGMENT s"
| "send_periodic_element_fragments e advertiser_id (d # ds) sub_data sub_data_len operation s =
     (if sub_data_len + GapData_size d > kLeMaximumFragmentLength e
      then send_periodic_element_fragments e advertiser_id ds [d]
             ((0 + GapData_size d) mod 65536) INTERMEDIATE_FRAGMENT
             (send_periodic_data_fragment e advertiser_id sub_data operation s)
      else send_periodic_element_fragments e advertiser_id ds (sub_data @ [d])
             ((sub_data_len + GapData_size d) mod 65536) operation s)"

section \<open>Encrypted data of a set\<close>

text \<open>The five bytes of \<^verbatim>\<open>RAND_pseudo_bytes(finalresult, 5)\<close>, stored as the
  randomizer of the set (lines 2280--2287 and 2198--2205).\<close>

definition new_randomizer :: "environment \<Rightarrow> nat \<Rightarrow> impl \<Rightarrow> impl" where
  "new_randomizer e advertiser_id s =
     (let temp_rand = buffer_after_write 5 (RAND_pseudo_bytes e (rand_calls s))
      in update_Advertiser advertiser_id (\<lambda>a. a\<lparr>randomizer := temp_rand\<rparr>)
           (s\<lparr>rand_calls := Suc (rand_calls s)\<rparr>))"

text \<open>The call \<^verbatim>\<open>EncryptedAdvertising(adv_inst, data_encrypt)\<close> on the advertiser of the
  state.\<close>

definition seal :: "environment \<Rightarrow> nat \<Rightarrow> GapData list \<Rightarrow> impl \<Rightarrow> error + GapData" where
  "seal e advertiser_id data_encrypt s =
     EncryptedAdvertising (cipher e) (stored_key_iv e)
       (enc_key_value (Advertiser_at s advertiser_id))
       (randomizer (Advertiser_at s advertiser_id)) data_encrypt"

text \<open>The \<^verbatim>\<open>EnabledSet\<close> built from the handle, the duration and the maximum number of
  events of an advertiser (\<^verbatim>\<open>curr_set\<close>, for example lines 874--877).\<close>

definition current_enabled_set :: "impl \<Rightarrow> nat \<Rightarrow> EnabledSet" where
  "current_enabled_set s advertiser_id =
     \<lparr>advertising_handle = advertiser_id,
      enabled_duration = duration (Advertiser_at s advertiser_id),
      enabled_max_extended_advertising_events =
        max_extended_advertising_events (Advertiser_at s advertiser_id)\<rparr>"

text \<open>What the encrypted paths do for a set that is not started (lines 2424--2436): enable
  it, or, while paused, record it as enabled.\<close>

definition enable_if_not_started :: "environment \<Rightarrow> nat \<Rightarrow> impl \<Rightarrow> impl" where
  "enable_if_not_started e advertiser_id s =
     (let a = Advertiser_at s advertiser_id
      in if \<not> started a
         then
           if \<not> paused s
           then enable_advertiser e advertiser_id True (duration a)
                  (max_extended_advertising_events a) s
           else s\<lparr>enabled_sets := (enabled_sets s)
                     (advertiser_id := current_enabled_set s advertiser_id)\<rparr>
         else s)"

text \<open>The commands that disable and re-enable the set around chained data (lines
  1862--1868 and 1890--1895).\<close>

definition chained_enable :: "Enable \<Rightarrow> nat \<Rightarrow> impl \<Rightarrow> impl" where
  "chained_enable enable_value advertiser_id s =
     (let curr_set = current_enabled_set s advertiser_id
      in EnqueueCommand (LeSetExtendedAdvertisingEnable enable_value [curr_set])
           check_complete s)"

text \<open>\<^verbatim>\<open>encrypted_advertising_complete\<close>, the case \<^verbatim>\<open>AdvertisingApiType::EXTENDED\<close>
  (lines 2347--2422); \<open>None\<close> when the case returns from the function.\<close>

definition encrypted_advertising_complete_extended ::
  "environment \<Rightarrow> nat \<Rightarrow> bool \<Rightarrow> GapData list \<Rightarrow> impl \<Rightarrow> impl \<times> bool" where
  "encrypted_advertising_complete_extended e advertiser_id set_scan_rsp data s =
     (case check_element_sizes (kLeMaximumGapDataLength e) data 0 of
        None \<Rightarrow>
          (advertising_callbacks_call_if_set
             (data_set_callback set_scan_rsp advertiser_id INTERNAL_ERROR) s, True)
      | Some data_len \<Rightarrow>
          if data_len > le_maximum_advertising_data_length s
          then (advertising_callbacks_call_if_set
                  (data_set_callback set_scan_rsp advertiser_id DATA_TOO_LARGE) s, True)
          else if data_len \<le> kLeMaximumFragmentLength e
          then (send_data_fragment e advertiser_id set_scan_rsp data COMPLETE_ADVERTISEMENT s,
                False)
          else
            let a = Advertiser_at s advertiser_id;
                chained = check_chained_data e data (connectable a \<and> discoverable a);
                s1 = (if chained \<and> started a then chained_enable DISABLED advertiser_id s
                      else s);
                s2 = send_element_fragments e advertiser_id set_scan_rsp data [] 0
                       FIRST_FRAGMENT s1;
                s3 = (if chained \<and> started a then chained_enable ENABLED advertiser_id s2
                      else s2)
            in (s3, False))"

text \<open>
  \<^verbatim>\<open>encrypted_advertising_complete\<close> (lines 2274--2437); \<open>adv_inst\<close> is the entry of
  \<open>advertiser_id\<close>, which the caller has read.
\<close>

definition encrypted_advertising_complete ::
  "environment \<Rightarrow> nat \<Rightarrow> bool \<Rightarrow> GapData list \<Rightarrow> GapData list \<Rightarrow> impl \<Rightarrow> error + impl" where
  "encrypted_advertising_complete e advertiser_id set_scan_rsp data_in data_encrypt s_in =
     (let s = new_randomizer e advertiser_id s_in
      in case seal e advertiser_id data_encrypt s of
           Inl err \<Rightarrow> Inl err
         | Inr Encr_Data \<Rightarrow>
             let data = data_in @ [Encr_Data]
             in if advertising_api_type s \<noteq> EXTENDED \<and> \<not> check_advertising_data s data False
                then advertising_callbacks_call
                       (data_set_callback set_scan_rsp advertiser_id DATA_TOO_LARGE) s
                else
                  (case advertising_api_type s of
                     LEGACY \<Rightarrow>
                       Inr (enable_if_not_started e advertiser_id
                              (EnqueueCommand
                                 (if set_scan_rsp then LeSetScanResponseData data
                                  else LeSetAdvertisingData data)
                                 (check_status_with_id True advertiser_id) s))
                   | ANDROID_HCI \<Rightarrow>
                       Inr (enable_if_not_started e advertiser_id
                              (EnqueueCommand
                                 (if set_scan_rsp then LeMultiAdvtSetScanResp data advertiser_id
                                  else LeMultiAdvtSetData data advertiser_id)
                                 (check_status_with_id True advertiser_id) s))
                   | EXTENDED \<Rightarrow>
                       (case encrypted_advertising_complete_extended e advertiser_id
                               set_scan_rsp data s of
                          (s1, returned) \<Rightarrow>
                            Inr (if returned then s1
                                 else enable_if_not_started e advertiser_id s1))))"

text \<open>\<^verbatim>\<open>set_enc_data\<close>, the case \<^verbatim>\<open>AdvertisingApiType::EXTENDED\<close> without encrypted
  data (lines 1813--1897).\<close>

definition set_enc_data_extended ::
  "environment \<Rightarrow> nat \<Rightarrow> bool \<Rightarrow> GapData list \<Rightarrow> impl \<Rightarrow> impl" where
  "set_enc_data_extended e advertiser_id set_scan_rsp data s =
     (case check_element_sizes (kLeMaximumGapDataLength e) data 0 of
        None \<Rightarrow>
          advertising_callbacks_call_if_set
            (data_set_callback set_scan_rsp advertiser_id INTERNAL_ERROR) s
      | Some data_len \<Rightarrow>
          if data_len > le_maximum_advertising_data_length s
          then advertising_callbacks_call_if_set
                 (data_set_callback set_scan_rsp advertiser_id DATA_TOO_LARGE) s
          else if data_len \<le> kLeMaximumFragmentLength e
          then send_data_fragment e advertiser_id set_scan_rsp data COMPLETE_ADVERTISEMENT s
          else
            let a = Advertiser_at s advertiser_id;
                chained = check_chained_data e data (connectable a \<and> discoverable a);
                s1 = (if chained \<and> started a then chained_enable DISABLED advertiser_id s
                      else s);
                s2 = send_raw_fragments advertiser_id set_scan_rsp
                       (FragmentingInserter (kLeMaximumFragmentLength e)
                          (concat (map GapData_Serialize data)))
                       FIRST_FRAGMENT s1
            in if chained \<and> started a then chained_enable ENABLED advertiser_id s2 else s2)"

text \<open>
  \<^verbatim>\<open>set_enc_data\<close> (lines 1683--1900).  The data is stored in the advertiser first; the
  tx power is filled into the plain and into the encrypted data.
\<close>

definition set_enc_data ::
  "environment \<Rightarrow> nat \<Rightarrow> bool \<Rightarrow> GapData list \<Rightarrow> GapData list \<Rightarrow> impl \<Rightarrow> error + impl" where
  "set_enc_data e advertiser_id set_scan_rsp data_in data_encrypt_in s_in =
     (let s0 = update_Advertiser advertiser_id
                 (\<lambda>a. if \<not> set_scan_rsp
                       then a\<lparr>advertisement := data_in, advertisement_enc := data_encrypt_in\<rparr>
                       else a\<lparr>scan_response := data_in, scan_response_enc := data_encrypt_in\<rparr>)
                 s_in
      in case with_flags advertiser_id set_scan_rsp data_in s0 of
           (data1, s1) \<Rightarrow>
             (case with_tx_power advertiser_id data1 s1 of
                Inl err \<Rightarrow> Inl err
              | Inr (data, s2) \<Rightarrow>
                  (case with_tx_power advertiser_id data_encrypt_in s2 of
                     Inl err \<Rightarrow> Inl err
                   | Inr (data_encrypt, s) \<Rightarrow>
                       if data_encrypt \<noteq> []
                       then encrypted_advertising_complete e advertiser_id set_scan_rsp data
                              data_encrypt s
                       else if advertising_api_type s \<noteq> EXTENDED
                               \<and> \<not> check_advertising_data s data False
                       then advertising_callbacks_call
                              (data_set_callback set_scan_rsp advertiser_id DATA_TOO_LARGE) s
                       else
                         (case advertising_api_type s of
                            LEGACY \<Rightarrow>
                              Inr (EnqueueCommand
                                     (if set_scan_rsp then LeSetScanResponseData data
                                      else LeSetAdvertisingData data)
                                     (check_status_with_id True advertiser_id) s)
                          | ANDROID_HCI \<Rightarrow>
                              Inr (EnqueueCommand
                                     (if set_scan_rsp
                                      then LeMultiAdvtSetScanResp data advertiser_id
                                      else LeMultiAdvtSetData data advertiser_id)
                                     (check_status_with_id True advertiser_id) s)
                          | EXTENDED \<Rightarrow>
                              Inr (set_enc_data_extended e advertiser_id set_scan_rsp data s)))))"

text \<open>\<^verbatim>\<open>encrypted_periodic_advertising_complete\<close> (lines 2193--2272).\<close>

definition encrypted_periodic_advertising_complete ::
  "environment \<Rightarrow> nat \<Rightarrow> GapData list \<Rightarrow> GapData list \<Rightarrow> impl \<Rightarrow> error + impl" where
  "encrypted_periodic_advertising_complete e advertiser_id data_in data_encrypt s_in =
     (let s = new_randomizer e advertiser_id s_in
      in case seal e advertiser_id data_encrypt s of
           Inl err \<Rightarrow> Inl err
         | Inr Encr_Data \<Rightarrow>
             let data = data_in @ [Encr_Data]
             in case check_element_sizes (kLeMaximumGapDataLength e) data 0 of
                  None \<Rightarrow>
                    Inr (advertising_callbacks_call_if_set
                           (OnPeriodicAdvertisingDataSet advertiser_id INTERNAL_ERROR) s)
                | Some data_len \<Rightarrow>
                    if data_len > le_maximum_advertising_data_length s
                    then Inr (advertising_callbacks_call_if_set
                                (OnPeriodicAdvertisingDataSet advertiser_id DATA_TOO_LARGE) s)
                    else
                      let a = Advertiser_at s advertiser_id;
                          s1 = (if data_len \<le> kLeMaximumFragmentLength e
                                then send_periodic_data_fragment e advertiser_id data
                                       COMPLETE_ADVERTISEMENT s
                                else
                                  let s2 = (if started a
                                            then enable_periodic_advertising e advertiser_id
                                                   False (include_adi a) s
                                            else s);
                                      s3 = send_periodic_element_fragments e advertiser_id data
                                             [] 0 FIRST_FRAGMENT s2
                                  in if started a
                                     then enable_periodic_advertising e advertiser_id True
                                            (include_adi a) s3
                                     else s3)
                      in Inr (if \<not> started a
                              then enable_periodic_advertising e advertiser_id True
                                     (include_adi a) s1
                              else s1))"

text \<open>\<^verbatim>\<open>set_periodic_enc_data\<close> (lines 1902--1992).\<close>

definition set_periodic_enc_data ::
  "environment \<Rightarrow> nat \<Rightarrow> GapData list \<Rightarrow> GapData list \<Rightarrow> impl \<Rightarrow> error + impl" where
  "set_periodic_enc_data e advertiser_id data data_encrypt s_in =
     (let s = update_Advertiser advertiser_id
                (\<lambda>a. a\<lparr>periodic_data := data, periodic_data_enc := data_encrypt\<rparr>) s_in
      in if data_encrypt \<noteq> []
         then encrypted_periodic_advertising_complete e advertiser_id data data_encrypt s
         else
           let divide_gap_flag = divide_long_single_gap_data e;
               element_limit = (if divide_gap_flag then kLeMaximumGapDataLength e
                                else kLeMaximumFragmentLength e)
           in case check_element_sizes element_limit data 0 of
                None \<Rightarrow>
                  Inr (advertising_callbacks_call_if_set
                         (OnPeriodicAdvertisingDataSet advertiser_id INTERNAL_ERROR) s)
              | Some data_len \<Rightarrow>
                  if data_len > le_maximum_advertising_data_length s
                  then Inr (advertising_callbacks_call_if_set
                              (OnPeriodicAdvertisingDataSet advertiser_id DATA_TOO_LARGE) s)
                  else
                    let data_fragment_limit =
                          (if divide_gap_flag then kLeMaximumPeriodicDataFragmentLength e
                           else kLeMaximumFragmentLength e)
                    in if data_len \<le> data_fragment_limit
                       then Inr (send_periodic_data_fragment e advertiser_id data
                                   COMPLETE_ADVERTISEMENT s)
                       else if divide_gap_flag
                       then Inr (send_periodic_raw_fragments advertiser_id
                                   (FragmentingInserter (kLeMaximumPeriodicDataFragmentLength e)
                                      (concat (map GapData_Serialize data)))
                                   FIRST_FRAGMENT s)
                       else Inr (send_periodic_element_fragments e advertiser_id data [] 0
                                   FIRST_FRAGMENT s))"

text \<open>\<^verbatim>\<open>set_encrypted_advertiser_data\<close> (lines 827--848); each call reads the stored
  data of the advertiser as the calls before it have left it.\<close>

definition set_encrypted_advertiser_data :: "environment \<Rightarrow> nat \<Rightarrow> impl \<Rightarrow> error + impl" where
  "set_encrypted_advertiser_data e advertiser_id s_in =
     (let s = touch advertiser_id s_in;
          adv_inst = Advertiser_at s advertiser_id
      in if advertisement_enc adv_inst \<noteq> []
         then
           (case set_enc_data e advertiser_id False (advertisement adv_inst)
                   (advertisement_enc adv_inst) s of
              Inl err \<Rightarrow> Inl err
            | Inr s1 \<Rightarrow>
                (case set_enc_data e advertiser_id True
                        (scan_response (Advertiser_at s1 advertiser_id))
                        (scan_response_enc (Advertiser_at s1 advertiser_id)) s1 of
                   Inl err \<Rightarrow> Inl err
                 | Inr s2 \<Rightarrow>
                     if periodic_data_enc (Advertiser_at s2 advertiser_id) \<noteq> []
                     then set_periodic_enc_data e advertiser_id
                            (periodic_data (Advertiser_at s2 advertiser_id))
                            (periodic_data_enc (Advertiser_at s2 advertiser_id)) s2
                     else Inr s2))
         else if scan_response_enc adv_inst \<noteq> []
         then set_enc_data e advertiser_id True (scan_response adv_inst)
                (scan_response_enc adv_inst) s
         else if periodic_data_enc adv_inst \<noteq> []
         then set_periodic_enc_data e advertiser_id (periodic_data adv_inst)
                (periodic_data_enc adv_inst) s
         else Inr s)"

section \<open>Address rotation\<close>

text \<open>\<^verbatim>\<open>new_advertiser_address\<close> (lines 459--480); the three address types are all the
  enumerators, so \<^verbatim>\<open>default:\<close> is not reached.\<close>

definition new_advertiser_address :: "environment \<Rightarrow> nat \<Rightarrow> impl \<Rightarrow> AddressWithType" where
  "new_advertiser_address e advertiser_id s =
     (case address_type (Advertiser_at s advertiser_id) of
        PUBLIC \<Rightarrow>
          if GetAddressPolicy e = USE_STATIC_ADDRESS then GetInitiatorAddress e
          else (GetMacAddress e, PUBLIC_DEVICE_ADDRESS)
      | RESOLVABLE_RANDOM \<Rightarrow>
          if advertising_api_type s = LEGACY then GetInitiatorAddress e
          else NewResolvableAddress e
      | NONRESOLVABLE_RANDOM \<Rightarrow> NewNonResolvableAddress e)"

text \<open>\<^verbatim>\<open>rotate_advertiser_address\<close> (lines 850--861).\<close>

definition rotate_advertiser_address :: "environment \<Rightarrow> nat \<Rightarrow> impl \<Rightarrow> impl" where
  "rotate_advertiser_address e advertiser_id s =
     (if advertising_api_type s = EXTENDED
      then
        let s1 = touch advertiser_id s;
            address_with_type = new_advertiser_address e advertiser_id s1
        in EnqueueCommand
             (LeSetAdvertisingSetRandomAddress advertiser_id (fst address_with_type))
             (on_set_advertising_set_random_address_complete advertiser_id address_with_type)
             s1
      else s)"

text \<open>
  \<^verbatim>\<open>set_advertising_set_random_address_on_timer\<close> (lines 863--906).  The constant
  \<^verbatim>\<open>kEncryptedAdvertisingDataSupported\<close> is true.  Scheduling through a null
  \<^verbatim>\<open>address_rotation_alarm\<close> is an error.
\<close>

definition set_advertising_set_random_address_on_timer ::
  "environment \<Rightarrow> nat \<Rightarrow> impl \<Rightarrow> error + impl" where
  "set_advertising_set_random_address_on_timer e advertiser_id s_in =
     (if advertising_handle (enabled_sets s_in advertiser_id) = kInvalidHandle e
      then Inr (update_Advertiser advertiser_id (\<lambda>a. a\<lparr>address_rotation_alarm := None\<rparr>) s_in)
      else
        let s = touch advertiser_id s_in;
            curr_set = current_enabled_set s advertiser_id;
            enabled_vector = [curr_set];
            s1 = (if connectable (Advertiser_at s advertiser_id)
                  then EnqueueCommand (LeSetExtendedAdvertisingEnable DISABLED enabled_vector)
                         check_complete s
                  else s);
            s2 = rotate_advertiser_address e advertiser_id s1
        in case set_encrypted_advertiser_data e advertiser_id s2 of
             Inl err \<Rightarrow> Inl err
           | Inr s3 \<Rightarrow>
               let s4 = (if connectable (Advertiser_at s3 advertiser_id) \<and> \<not> paused s3
                         then EnqueueCommand
                                (LeSetExtendedAdvertisingEnable ENABLED enabled_vector)
                                check_complete s3
                         else s3)
               in case address_rotation_alarm (Advertiser_at s4 advertiser_id) of
                    None \<Rightarrow> Inl Null_dereference
                  | Some scheduled \<Rightarrow>
                      Inr (update_Advertiser advertiser_id
                             (\<lambda>a. a\<lparr>address_rotation_alarm :=
                                     Some (GetNextPrivateAddressIntervalMs e)\<rparr>) s4))"

section \<open>Reading the command queue\<close>

text \<open>The fragment operation a data command carries, and the bytes it carries: the
  serialized elements, or the raw bytes of a fragment.\<close>

fun operation_of :: "hci_command \<Rightarrow> Operation option" where
  "operation_of (LeSetExtendedAdvertisingData i operation data) = Some operation"
| "operation_of (LeSetExtendedScanResponseData i operation data) = Some operation"
| "operation_of (LeSetExtendedAdvertisingDataRaw i operation bytes) = Some operation"
| "operation_of (LeSetExtendedScanResponseDataRaw i operation bytes) = Some operation"
| "operation_of (LeSetPeriodicAdvertisingData i operation data) = Some operation"
| "operation_of (LeSetPeriodicAdvertisingDataRaw i operation bytes) = Some operation"
| "operation_of c = None"

definition serialize_elements :: "GapData list \<Rightarrow> u8 list" where
  "serialize_elements data = concat (map GapData_Serialize data)"

text \<open>Whether a command sets the random address of an advertising set.\<close>

fun is_set_random_address :: "hci_command \<Rightarrow> bool" where
  "is_set_random_address (LeSetAdvertisingSetRandomAddress i a) = True"
| "is_set_random_address c = False"

fun payload :: "hci_command \<Rightarrow> u8 list" where
  "payload (LeSetExtendedAdvertisingData i operation data) = serialize_elements data"
| "payload (LeSetExtendedScanResponseData i operation data) = serialize_elements data"
| "payload (LeSetExtendedAdvertisingDataRaw i operation bytes) = bytes"
| "payload (LeSetExtendedScanResponseDataRaw i operation bytes) = bytes"
| "payload (LeSetPeriodicAdvertisingData i operation data) = serialize_elements data"
| "payload (LeSetPeriodicAdvertisingDataRaw i operation bytes) = bytes"
| "payload (LeSetAdvertisingData data) = serialize_elements data"
| "payload (LeSetScanResponseData data) = serialize_elements data"
| "payload (LeMultiAdvtSetData data i) = serialize_elements data"
| "payload (LeMultiAdvtSetScanResp data i) = serialize_elements data"
| "payload c = []"

text \<open>
  A step of the manager that is quiet for the set \<open>i\<close>: it only appends commands to the
  queue, none of which sets a random address, and it keeps the API type, the pause
  state, and the set's connectable flag and rotation alarm.
\<close>

definition quiet_step :: "nat \<Rightarrow> impl \<Rightarrow> impl \<Rightarrow> bool" where
  "quiet_step i s s' \<longleftrightarrow>
     (\<exists>cmds. hci_queue s' = hci_queue s @ cmds
         \<and> (\<forall>c\<in>set cmds. \<not> is_set_random_address (fst c)))
     \<and> paused s' = paused s
     \<and> advertising_api_type s' = advertising_api_type s
     \<and> connectable (Advertiser_at s' i) = connectable (Advertiser_at s i)
     \<and> address_rotation_alarm (Advertiser_at s' i) = address_rotation_alarm (Advertiser_at s i)"

text \<open>The serialized length of an element list, without wrap-around.\<close>

definition total_size :: "GapData list \<Rightarrow> nat" where
  "total_size data = sum_list (map GapData_size data)"

text \<open>The limit \<^verbatim>\<open>set_data\<close> applies to a single element.\<close>

definition data_limit :: "environment \<Rightarrow> nat" where
  "data_limit e =
     (if divide_long_single_gap_data e then kLeMaximumGapDataLength e
      else kLeMaximumFragmentLength e)"

text \<open>The element list \<^verbatim>\<open>set_data\<close> goes on with after its head: the flags element
  put in front where the head does so, and the tx power filled in.\<close>

definition prepared_data :: "nat \<Rightarrow> bool \<Rightarrow> GapData list \<Rightarrow> impl \<Rightarrow> error + GapData list" where
  "prepared_data advertiser_id set_scan_rsp data_in s =
     (case with_flags advertiser_id set_scan_rsp data_in s of
        (data1, s1) \<Rightarrow>
          (case with_tx_power advertiser_id data1 s1 of
             Inl err \<Rightarrow> Inl err
           | Inr (data, s2) \<Rightarrow> Inr data))"

text \<open>The limit \<^verbatim>\<open>set_data\<close> applies to the total length under the extended API
  (\<^verbatim>\<open>maxDataLength\<close>, lines 1211--1215).\<close>

definition max_data_length :: "environment \<Rightarrow> impl \<Rightarrow> nat \<Rightarrow> nat" where
  "max_data_length e s advertiser_id =
     (if ble_check_data_length_on_legacy_advertising e \<and> is_legacy (Advertiser_at s advertiser_id)
      then kLeMaximumLegacyAdvertisingDataLength e
      else le_maximum_advertising_data_length s)"

section \<open>Example inputs\<close>

text \<open>An environment with the constants of the spec (fragments of 252 bytes, elements
  of at most 254 bytes, 31 bytes of legacy data), all feature flags off, and a cipher
  with a 4-byte tag that copies its input.\<close>

definition example_cipher :: aead where
  "example_cipher =
     \<lparr>ctx_new = (\<lambda>key. length key = 16), max_overhead = 4,
      seal_scatter = (\<lambda>key nonce input ad. (input, [1, 2, 3, 4]))\<rparr>"

definition example_environment :: environment where
  "example_environment =
     \<lparr>kLeMaximumFragmentLength = 252, kLeMaximumGapDataLength = 254,
      kLeMaximumLegacyAdvertisingDataLength = 31, kLeMaximumPeriodicDataFragmentLength = 252,
      kInvalidHandle = 0xFF,
      divide_long_single_gap_data = False, ble_check_data_length_on_legacy_advertising = False,
      SupportsBlePeriodicAdvertising = True, SupportsBlePeriodicAdvertisingAdi = True,
      GetMacAddress = 0x112233445566, GetAddressPolicy = USE_RESOLVABLE_ADDRESS,
      GetInitiatorAddress = (0x4000000000A1, RANDOM_DEVICE_ADDRESS),
      NewResolvableAddress = (0x4000000000B2, RANDOM_DEVICE_ADDRESS),
      NewNonResolvableAddress = (0x0000000000C3, RANDOM_DEVICE_ADDRESS),
      GetNextPrivateAddressIntervalMs = 900000,
      RAND_pseudo_bytes = (\<lambda>k. [0xA0, 0xA1, 0xA2, 0xA3, 0xA4]),
      cipher = example_cipher, stored_key_iv = None\<rparr>"

text \<open>A started, enabled, connectable and discoverable extended advertising set 0 that
  rotates a resolvable address, on a controller that takes 1650 bytes of data.\<close>

definition example_advertiser :: Advertiser where
  "example_advertiser =
     Advertiser_default
       \<lparr>current_address := (0x4000000000A1, RANDOM_DEVICE_ADDRESS),
        address_type := RESOLVABLE_RANDOM, started := True, connectable := True,
        discoverable := True, in_use := True, address_rotation_alarm := Some 900000\<rparr>"

definition example_impl :: impl where
  "example_impl =
     \<lparr>advertising_api_type = EXTENDED,
      advertising_sets = [0 \<mapsto> example_advertiser],
      enabled_sets = (\<lambda>i. if i = 0 then EnabledSet_default
                            else EnabledSet_default\<lparr>advertising_handle := 0xFF\<rparr>),
      num_instances = 8, id_map = [0 \<mapsto> 7], paused = False,
      address_manager_registered = True, le_maximum_advertising_data_length = 1650,
      advertising_callbacks = True, hci_queue = [], callbacks_fired = [], rand_calls = 0\<rparr>"


definition example_key_iv_24 :: "u8 list" where
  "example_key_iv_24 = map of_nat [0 ..< 24]"


definition element_of_200 :: GapData where
  "element_of_200 = \<lparr>data_type = 0xFF, data_bytes = replicate 200 0\<rparr>"

definition element_of_251 :: GapData where
  "element_of_251 = \<lparr>data_type = 0xFF, data_bytes = replicate 251 0\<rparr>"

section \<open>Power manager: data\<close>

text \<open>
  Modelled from the spec: the types of the power manager are declared in headers
  (\<^verbatim>\<open>bta/dm/bta_dm_int.h\<close>, \<^verbatim>\<open>bta/sys/bta_sys.h\<close>, \<^verbatim>\<open>bta/include/bta_api.h\<close>) that are
  not part of the sources at hand.  The records below have the members the functions of
  the power manager read and write; the spec's data model lists the same members.  A
  device address is a number.  Members called \<^verbatim>\<open>id\<close>, \<^verbatim>\<open>app_id\<close>, \<^verbatim>\<open>state\<close>,
  \<^verbatim>\<open>peer_bdaddr\<close> and \<^verbatim>\<open>in_use\<close> carry the name of their structure in front.
\<close>

datatype tBTA_SYS_CONN_STATUS =
    BTA_SYS_CONN_OPEN | BTA_SYS_CONN_CLOSE | BTA_SYS_APP_OPEN | BTA_SYS_APP_CLOSE
  | BTA_SYS_SCO_OPEN | BTA_SYS_SCO_CLOSE | BTA_SYS_CONN_IDLE | BTA_SYS_CONN_BUSY
  | BTA_SYS_ROLE_CHANGE

text \<open>An entry of the action table of a PM spec: \<^verbatim>\<open>tBTA_DM_PM_ACTN\<close>.\<close>

record tBTA_DM_PM_ACTN =
  power_mode :: u8
  timeout :: nat

text \<open>\<^verbatim>\<open>tBTA_DM_PM_SPEC\<close>; the action table is indexed by the connection status.\<close>

record tBTA_DM_PM_SPEC =
  allow_mask :: u8
  ssr :: nat
  actn_tbl :: "tBTA_SYS_CONN_STATUS \<Rightarrow> tBTA_DM_PM_ACTN"

text \<open>\<^verbatim>\<open>tBTA_DM_PM_CFG\<close>; entry 0 of the table holds the number of entries in
  \<^verbatim>\<open>app_id\<close>.\<close>

record tBTA_DM_PM_CFG =
  cfg_id :: nat
  cfg_app_id :: nat
  spec_idx :: nat

record tBTA_DM_SSR_SPEC =
  max_lat :: nat
  min_rmt_to :: nat
  min_loc_to :: nat

text \<open>\<^verbatim>\<open>tBTA_DM_SRVCS\<close>, an entry of the connected-services table.\<close>

record tBTA_DM_SRVCS =
  srvcs_id :: nat
  srvcs_app_id :: nat
  new_request :: bool
  srvcs_state :: tBTA_SYS_CONN_STATUS
  srvcs_peer_bdaddr :: nat

text \<open>\<^verbatim>\<open>tBTA_DM_PEER_DEVICE\<close>, the members the power manager uses; \<^verbatim>\<open>Info()\<close> returns
  \<^verbatim>\<open>info\<close>.\<close>

record tBTA_DM_PEER_DEVICE =
  device_peer_bdaddr :: nat
  info :: u8
  pm_mode_attempted :: u8
  pm_mode_failed :: u8

text \<open>
  \<^verbatim>\<open>tBTA_PM_TIMER\<close>, a timer slot.  The three arrays are indexed by the timer index.
  \<open>timer j\<close> is the alarm of index \<open>j\<close>: \<open>None\<close> while it is not scheduled, \<open>Some ms\<close>
  when it is scheduled \<open>ms\<close> milliseconds ahead.  \<open>active\<close> is a \<^verbatim>\<open>uint8_t\<close>.
\<close>

record tBTA_PM_TIMER =
  timer_in_use :: bool
  timer_peer_bdaddr :: nat
  active :: nat
  srvc_id :: "nat \<Rightarrow> nat"
  pm_action :: "nat \<Rightarrow> u8"
  timer :: "nat \<Rightarrow> nat option"

text \<open>\<^verbatim>\<open>tBTM_PM_PWR_MD\<close>, the argument of \<^verbatim>\<open>BTM_SetPowerMode\<close>.\<close>

record tBTM_PM_PWR_MD =
  pwr_max :: nat
  pwr_min :: nat
  pwr_attempt :: nat
  pwr_timeout :: nat
  pwr_mode :: u8

datatype tBTM_STATUS = BTM_SUCCESS | BTM_CMD_STARTED | BTM_CMD_STORED | BTM_FAILED

datatype tBTA_DM_PM_REQ = BTA_DM_PM_NEW_REQ | BTA_DM_PM_RESTART | BTA_DM_PM_EXECUTE

text \<open>The calls into the lower layer that change the link, in the order they are
  made.\<close>

datatype btm_call =
    BTM_SetSsrParams nat nat nat nat
  | BTM_SetPowerMode nat tBTM_PM_PWR_MD

text \<open>
  The state of the power manager: the connected-services table
  \<^verbatim>\<open>bta_dm_conn_srvcs\<close> (its first \<^verbatim>\<open>count\<close> entries), the device list and the timer
  bank of \<^verbatim>\<open>bta_dm_cb\<close>, the table \<^verbatim>\<open>p_bta_dm_ssr_spec\<close> (which
  \<^verbatim>\<open>bta_dm_pm_ssr\<close> writes), the calls made into the lower layer, and the calls of
  \<^verbatim>\<open>bta_dm_pm_timer\<close> posted to the main thread.
\<close>

record bta_dm =
  conn_srvc :: "tBTA_DM_SRVCS list"
  peer_device :: "tBTA_DM_PEER_DEVICE list"
  pm_timer :: "tBTA_PM_TIMER list"
  p_bta_dm_ssr_spec :: "nat \<Rightarrow> tBTA_DM_SSR_SPEC"
  btm_calls :: "btm_call list"
  posted_pm_timer :: "(nat \<times> u8) list"

text \<open>
  What the power manager reads from outside itself: the constants of the missing
  headers, the configuration tables \<^verbatim>\<open>p_bta_dm_pm_cfg\<close>, \<^verbatim>\<open>get_bta_dm_pm_spec()\<close> and
  \<^verbatim>\<open>p_bta_dm_pm_md\<close>, and the answers of the controller, the lower layer, the HID host
  and the alarm service.  \<open>remote_sniff_subrating p\<close> says that
  \<^verbatim>\<open>BTM_ReadRemoteFeatures(p)\<close> is not null and has the sniff-subrating bit;
  \<open>bta_hh_read_ssr_param p\<close> is \<open>None\<close> for \<^verbatim>\<open>BTA_HH_ERR\<close> and else the two values
  written; \<open>BTM_ReadPowerMode p\<close> is \<open>None\<close> when the call fails, and the mode it
  writes otherwise; \<open>alarm_get_remaining_ms i j\<close> is the answer for the alarm of slot
  \<open>i\<close> and index \<open>j\<close>; \<open>sniff_entries\<close> is the table that \<^verbatim>\<open>get_sniff_entry\<close> builds
  on its first call, from the system properties or from \<^verbatim>\<open>p_bta_dm_pm_md\<close>.  The
  configuration table has fewer than 255 entries.
\<close>

record pm_environment =
  BTA_ID_MAX :: nat
  BTA_ID_AV :: nat
  BTA_ID_AG :: nat
  BTA_ALL_APP_ID :: nat
  BTA_DM_NUM_CONN_SRVS :: nat
  BTA_DM_PM_NO_ACTION :: u8
  BTA_DM_PM_NO_PREF :: u8
  BTA_DM_PM_PARK :: u8
  BTA_DM_PM_SNIFF :: u8
  BTA_DM_PM_ACTIVE :: u8
  BTA_DM_PM_SUSPEND :: u8
  BTA_DM_PM_SSR0 :: nat
  BTA_DM_PM_SSR_HH :: nat
  BTA_DM_PM_SSR4 :: nat
  BTA_DM_PM_SUSPEND_TIMER_IDX :: nat
  BTA_DM_PM_PARK_TIMER_IDX :: nat
  BTA_DM_PM_SNIFF_TIMER_IDX :: nat
  BTA_DM_PM_PARK_IDX :: nat
  BTA_DM_DI_USE_SSR :: u8
  BTA_DM_DI_INT_SNIFF :: u8
  BTA_DM_DI_ACP_SNIFF :: u8
  BTA_DM_DI_SET_SNIFF :: u8
  BTM_PM_STS_ACTIVE :: u8
  BTM_PM_MD_ACTIVE :: u8
  BTM_PM_MD_SNIFF :: u8
  BTM_PM_MD_PARK :: u8
  BTM_PM_MD_FORCE :: u8
  p_bta_dm_pm_cfg :: "nat \<Rightarrow> tBTA_DM_PM_CFG"
  get_bta_dm_pm_spec :: "nat \<Rightarrow> tBTA_DM_PM_SPEC"
  p_bta_dm_pm_md :: "nat \<Rightarrow> tBTM_PM_PWR_MD"
  sniff_entries :: "nat \<Rightarrow> tBTM_PM_PWR_MD"
  supports_sniff_subrating :: bool
  remote_sniff_subrating :: "nat \<Rightarrow> bool"
  bta_hh_read_ssr_param :: "nat \<Rightarrow> (nat \<times> nat) option"
  alarm_get_remaining_ms :: "nat \<Rightarrow> nat \<Rightarrow> nat"
  BTM_is_sniff_allowed_for :: "nat \<Rightarrow> bool"
  BTM_ReadPowerMode :: "nat \<Rightarrow> u8 option"
  BTM_SetPowerMode_status :: "nat \<Rightarrow> tBTM_PM_PWR_MD \<Rightarrow> tBTM_STATUS"

text \<open>Modelled from the spec: a timer slot has three indices, one per power mode
  (\<^verbatim>\<open>BTA_DM_PM_MODE_TIMER_MAX\<close>).\<close>

definition BTA_DM_PM_MODE_TIMER_MAX :: nat where
  "BTA_DM_PM_MODE_TIMER_MAX = 3"

section \<open>Power manager: timers\<close>

text \<open>\<^verbatim>\<open>bta_pm_action_to_timer_idx\<close> (lines 199--209).\<close>

definition bta_pm_action_to_timer_idx :: "pm_environment \<Rightarrow> u8 \<Rightarrow> nat" where
  "bta_pm_action_to_timer_idx e action =
     (if action = BTA_DM_PM_SUSPEND e then BTA_DM_PM_SUSPEND_TIMER_IDX e
      else if action = BTA_DM_PM_PARK e then BTA_DM_PM_PARK_TIMER_IDX e
      else if action AND BTA_DM_PM_SNIFF e = BTA_DM_PM_SNIFF e
      then BTA_DM_PM_SNIFF_TIMER_IDX e
      else BTA_DM_PM_MODE_TIMER_MAX)"

text \<open>\<^verbatim>\<open>bta_dm_pm_start_timer\<close> (lines 280--297) on the slot \<^verbatim>\<open>*p_timer\<close>;
  \<^verbatim>\<open>alarm_set_on_mloop\<close> schedules the alarm of the index.\<close>

definition bta_dm_pm_start_timer ::
  "pm_environment \<Rightarrow> nat \<Rightarrow> nat \<Rightarrow> nat \<Rightarrow> u8 \<Rightarrow> tBTA_PM_TIMER \<Rightarrow> tBTA_PM_TIMER" where
  "bta_dm_pm_start_timer e timer_idx timeout_ms service action p_timer =
     p_timer
       \<lparr>timer_in_use := True,
        active := (if srvc_id p_timer timer_idx = BTA_ID_MAX e
                   then (active p_timer + 1) mod 256 else active p_timer),
        srvc_id := (srvc_id p_timer)(timer_idx := service),
        pm_action := (pm_action p_timer)
          (timer_idx := (if pm_action p_timer timer_idx < action then action
                         else pm_action p_timer timer_idx)),
        timer := (timer p_timer)(timer_idx := Some timeout_ms)\<rparr>"

text \<open>\<^verbatim>\<open>bta_dm_pm_stop_timer_by_index\<close> (lines 309--332); a failed \<^verbatim>\<open>ASSERT_LOG\<close> ends
  the program.  \<^verbatim>\<open>alarm_cancel\<close> leaves the alarm of the index unscheduled.\<close>

definition bta_dm_pm_stop_timer_by_index ::
  "pm_environment \<Rightarrow> nat \<Rightarrow> tBTA_PM_TIMER \<Rightarrow> error + tBTA_PM_TIMER" where
  "bta_dm_pm_stop_timer_by_index e timer_idx p_timer =
     (if timer_idx \<ge> BTA_DM_PM_MODE_TIMER_MAX then Inr p_timer
      else if srvc_id p_timer timer_idx = BTA_ID_MAX e then Inr p_timer
      else if \<not> timer_in_use p_timer then Inl Assertion_failed
      else if \<not> active p_timer > 0 then Inl Assertion_failed
      else
        let new_active = active p_timer - 1
        in Inr (p_timer
                  \<lparr>timer_in_use := (if new_active = 0 then False else timer_in_use p_timer),
                   active := new_active,
                   srvc_id := (srvc_id p_timer)(timer_idx := BTA_ID_MAX e),
                   timer := (timer p_timer)(timer_idx := None)\<rparr>))"

text \<open>The loop \<^verbatim>\<open>for (j = 0; j < BTA_DM_PM_MODE_TIMER_MAX; j++)\<close> of
  \<^verbatim>\<open>bta_dm_pm_stop_timer\<close> over the indices still to visit.\<close>

fun stop_timer_indices ::
  "pm_environment \<Rightarrow> nat list \<Rightarrow> tBTA_PM_TIMER \<Rightarrow> error + tBTA_PM_TIMER" where
  "stop_timer_indices e [] p_timer = Inr p_timer"
| "stop_timer_indices e (j # js) p_timer =
     (case bta_dm_pm_stop_timer_by_index e j p_timer of
        Inl err \<Rightarrow> Inl err
      | Inr p_timer' \<Rightarrow> stop_timer_indices e js p_timer')"

text \<open>\<^verbatim>\<open>bta_dm_pm_stop_timer\<close> (lines 164--186) on the slots still to visit: the first
  slot in use for the peer is stopped, and the loop over the slots ends there.\<close>

fun bta_dm_pm_stop_timer ::
  "pm_environment \<Rightarrow> nat \<Rightarrow> tBTA_PM_TIMER list \<Rightarrow> error + tBTA_PM_TIMER list" where
  "bta_dm_pm_stop_timer e peer_addr [] = Inr []"
| "bta_dm_pm_stop_timer e peer_addr (t # ts) =
     (if timer_in_use t \<and> timer_peer_bdaddr t = peer_addr
      then (case stop_timer_indices e [0 ..< BTA_DM_PM_MODE_TIMER_MAX] t of
              Inl err \<Rightarrow> Inl err
            | Inr t' \<Rightarrow> Inr (t' # ts))
      else (case bta_dm_pm_stop_timer e peer_addr ts of
              Inl err \<Rightarrow> Inl err
            | Inr ts' \<Rightarrow> Inr (t # ts')))"

text \<open>\<^verbatim>\<open>bta_dm_pm_stop_timer_by_mode\<close> (lines 221--242), the loop over the slots.\<close>

fun stop_timer_by_mode_slots ::
  "pm_environment \<Rightarrow> nat \<Rightarrow> u8 \<Rightarrow> nat \<Rightarrow> tBTA_PM_TIMER list \<Rightarrow> error + tBTA_PM_TIMER list"
  where
  "stop_timer_by_mode_slots e peer_addr mode timer_idx [] = Inr []"
| "stop_timer_by_mode_slots e peer_addr mode timer_idx (t # ts) =
     (if timer_in_use t \<and> timer_peer_bdaddr t = peer_addr
      then
        if srvc_id t timer_idx \<noteq> BTA_ID_MAX e
        then (case bta_dm_pm_stop_timer_by_index e timer_idx t of
                Inl err \<Rightarrow> Inl err
              | Inr t' \<Rightarrow>
                  Inr (t'\<lparr>pm_action := (pm_action t')(timer_idx := mode)\<rparr> # ts))
        else Inr (t # ts)
      else (case stop_timer_by_mode_slots e peer_addr mode timer_idx ts of
              Inl err \<Rightarrow> Inl err
            | Inr ts' \<Rightarrow> Inr (t # ts')))"

definition bta_dm_pm_stop_timer_by_mode ::
  "pm_environment \<Rightarrow> nat \<Rightarrow> u8 \<Rightarrow> tBTA_PM_TIMER list \<Rightarrow> error + tBTA_PM_TIMER list" where
  "bta_dm_pm_stop_timer_by_mode e peer_addr mode ts =
     (let timer_idx = bta_pm_action_to_timer_idx e mode
      in if timer_idx = BTA_DM_PM_MODE_TIMER_MAX then Inr ts
         else stop_timer_by_mode_slots e peer_addr mode timer_idx ts)"

text \<open>\<^verbatim>\<open>bta_dm_pm_stop_timer_by_srvc_id\<close> (lines 254--268): in every slot in use for the
  peer, the first index started by the service is stopped and its action reset.\<close>

fun stop_first_index_of_service ::
  "pm_environment \<Rightarrow> nat \<Rightarrow> nat list \<Rightarrow> tBTA_PM_TIMER \<Rightarrow> error + tBTA_PM_TIMER" where
  "stop_first_index_of_service e service [] t = Inr t"
| "stop_first_index_of_service e service (j # js) t =
     (if srvc_id t j = service
      then (case bta_dm_pm_stop_timer_by_index e j t of
              Inl err \<Rightarrow> Inl err
            | Inr t' \<Rightarrow>
                Inr (t'\<lparr>pm_action := (pm_action t')(j := BTA_DM_PM_NO_ACTION e)\<rparr>))
      else stop_first_index_of_service e service js t)"

fun bta_dm_pm_stop_timer_by_srvc_id ::
  "pm_environment \<Rightarrow> nat \<Rightarrow> nat \<Rightarrow> tBTA_PM_TIMER list \<Rightarrow> error + tBTA_PM_TIMER list" where
  "bta_dm_pm_stop_timer_by_srvc_id e peer_addr service [] = Inr []"
| "bta_dm_pm_stop_timer_by_srvc_id e peer_addr service (t # ts) =
     (case (if timer_in_use t \<and> timer_peer_bdaddr t = peer_addr
            then stop_first_index_of_service e service [0 ..< BTA_DM_PM_MODE_TIMER_MAX] t
            else Inr t) of
        Inl err \<Rightarrow> Inl err
      | Inr t' \<Rightarrow>
          (case bta_dm_pm_stop_timer_by_srvc_id e peer_addr service ts of
             Inl err \<Rightarrow> Inl err
           | Inr ts' \<Rightarrow> Inr (t' # ts')))"

text \<open>
  \<^verbatim>\<open>bta_dm_pm_timer_cback\<close> (lines 952--982).  The alarm that fired is the one of slot
  \<open>alarm_slot\<close> and index \<open>alarm_idx\<close>; \<open>i\<close> is the number of the first slot still to
  visit.  A slot in use whose alarms are all different from the fired one only has
  \<^verbatim>\<open>in_use\<close> cleared when its \<^verbatim>\<open>active\<close> is 0.  The result is the bank and, when the
  alarm was found, the peer and the action passed on to \<^verbatim>\<open>bta_dm_pm_timer\<close>.
\<close>

fun timer_cback_slots ::
  "pm_environment \<Rightarrow> nat \<Rightarrow> nat \<Rightarrow> nat \<Rightarrow> tBTA_PM_TIMER list
     \<Rightarrow> tBTA_PM_TIMER list \<times> (nat \<times> u8) option" where
  "timer_cback_slots e alarm_slot alarm_idx i [] = ([], None)"
| "timer_cback_slots e alarm_slot alarm_idx i (t # ts) =
     (if timer_in_use t
      then
        if i = alarm_slot \<and> alarm_idx < BTA_DM_PM_MODE_TIMER_MAX
        then
          let new_active = (active t + 255) mod 256;
              t' = t\<lparr>active := new_active,
                     srvc_id := (srvc_id t)(alarm_idx := BTA_ID_MAX e),
                     timer_in_use := (if new_active = 0 then False else timer_in_use t)\<rparr>
          in (t' # ts, Some (timer_peer_bdaddr t', pm_action t' alarm_idx))
        else
          let t' = (if active t = 0 then t\<lparr>timer_in_use := False\<rparr> else t)
          in (case timer_cback_slots e alarm_slot alarm_idx (Suc i) ts of
                (ts', found) \<Rightarrow> (t' # ts', found))
      else (case timer_cback_slots e alarm_slot alarm_idx (Suc i) ts of
              (ts', found) \<Rightarrow> (t # ts', found)))"

text \<open>The alarm of a slot and index fires: it is no longer scheduled, and the callback
  runs.\<close>

definition alarm_expired :: "nat \<Rightarrow> nat \<Rightarrow> tBTA_PM_TIMER list \<Rightarrow> tBTA_PM_TIMER list" where
  "alarm_expired alarm_slot alarm_idx ts =
     ts[alarm_slot := (ts ! alarm_slot)
          \<lparr>timer := (timer (ts ! alarm_slot))(alarm_idx := None)\<rparr>]"

definition bta_dm_pm_timer_cback :: "pm_environment \<Rightarrow> nat \<Rightarrow> nat \<Rightarrow> bta_dm \<Rightarrow> bta_dm" where
  "bta_dm_pm_timer_cback e alarm_slot alarm_idx cb =
     (case timer_cback_slots e alarm_slot alarm_idx 0 (pm_timer cb) of
        (ts', found) \<Rightarrow>
          (case found of
             None \<Rightarrow> cb\<lparr>pm_timer := ts'\<rparr>
           | Some request \<Rightarrow>
               cb\<lparr>pm_timer := ts', posted_pm_timer := posted_pm_timer cb @ [request]\<rparr>))"

text \<open>The slot as \<^verbatim>\<open>bta_dm_init_pm\<close> leaves it (lines 101--105), the control block being
  zero before.\<close>

definition initial_timer :: "pm_environment \<Rightarrow> tBTA_PM_TIMER" where
  "initial_timer e =
     \<lparr>timer_in_use = False, timer_peer_bdaddr = 0, active = 0,
      srvc_id = (\<lambda>j. BTA_ID_MAX e), pm_action = (\<lambda>j. 0), timer = (\<lambda>j. None)\<rparr>"

text \<open>The number of timer indices of a slot whose service id is assigned.\<close>

definition assigned_indices :: "pm_environment \<Rightarrow> tBTA_PM_TIMER \<Rightarrow> nat" where
  "assigned_indices e t =
     length (filter (\<lambda>j. srvc_id t j \<noteq> BTA_ID_MAX e) [0 ..< BTA_DM_PM_MODE_TIMER_MAX])"

text \<open>
  The accounting of a slot: the count of active indices is the number of assigned
  indices, the slot is in use exactly when the count is positive, and an alarm is
  scheduled only at one of the three indices and only while its service id is assigned.
\<close>

definition slot_accounted :: "pm_environment \<Rightarrow> tBTA_PM_TIMER \<Rightarrow> bool" where
  "slot_accounted e t \<longleftrightarrow>
     active t = assigned_indices e t \<and> (timer_in_use t \<longleftrightarrow> active t > 0) \<and>
     (\<forall>j. timer t j \<noteq> None \<longrightarrow> j < BTA_DM_PM_MODE_TIMER_MAX \<and> srvc_id t j \<noteq> BTA_ID_MAX e)"

text \<open>
  The operations on a bank of timer slots, as the functions of the power manager make
  them on \<^verbatim>\<open>bta_dm_cb.pm_timer\<close>: a timer of a slot is started, the peer of a slot is
  written (line 625), a timer is stopped by index, for a peer, by mode or by service id,
  and an alarm calls back.  \<open>Alarm_callback i j\<close> is the delivery of the callback of the
  alarm of slot \<open>i\<close> and index \<open>j\<close>: an alarm that is scheduled expires; the callback
  of an alarm that is not scheduled was queued before the alarm was cancelled,
  \<^verbatim>\<open>bta_dm_pm_stop_timer_by_index\<close> giving up the lock on the state (line 329) before it
  cancels the alarm (line 331).
\<close>

datatype timer_op =
    Start_timer nat nat nat nat u8
  | Assign_peer nat nat
  | Stop_timer_by_index nat nat
  | Stop_timer nat
  | Stop_timer_by_mode nat u8
  | Stop_timer_by_srvc_id nat nat
  | Alarm_callback nat nat

fun timer_step ::
  "pm_environment \<Rightarrow> timer_op \<Rightarrow> tBTA_PM_TIMER list \<Rightarrow> error + tBTA_PM_TIMER list" where
  "timer_step e (Start_timer i timer_idx timeout_ms service action) ts =
     (if i < length ts \<and> timer_idx < BTA_DM_PM_MODE_TIMER_MAX
      then Inr (ts[i := bta_dm_pm_start_timer e timer_idx timeout_ms service action (ts ! i)])
      else Inl Out_of_bounds)"
| "timer_step e (Assign_peer i peer_addr) ts =
     (if i < length ts then Inr (ts[i := (ts ! i)\<lparr>timer_peer_bdaddr := peer_addr\<rparr>])
      else Inl Out_of_bounds)"
| "timer_step e (Stop_timer_by_index i timer_idx) ts =
     (if i < length ts
      then (case bta_dm_pm_stop_timer_by_index e timer_idx (ts ! i) of
              Inl err \<Rightarrow> Inl err
            | Inr t' \<Rightarrow> Inr (ts[i := t']))
      else Inl Out_of_bounds)"
| "timer_step e (Stop_timer peer_addr) ts = bta_dm_pm_stop_timer e peer_addr ts"
| "timer_step e (Stop_timer_by_mode peer_addr mode) ts =
     bta_dm_pm_stop_timer_by_mode e peer_addr mode ts"
| "timer_step e (Stop_timer_by_srvc_id peer_addr service) ts =
     bta_dm_pm_stop_timer_by_srvc_id e peer_addr service ts"
| "timer_step e (Alarm_callback i j) ts =
     (if i < length ts then Inr (fst (timer_cback_slots e i j 0 (alarm_expired i j ts)))
      else Inl Out_of_bounds)"

text \<open>The operations one after the other; a failed assertion ends the run.\<close>

fun run_timer_ops ::
  "pm_environment \<Rightarrow> timer_op list \<Rightarrow> tBTA_PM_TIMER list \<Rightarrow> error + tBTA_PM_TIMER list" where
  "run_timer_ops e [] ts = Inr ts"
| "run_timer_ops e (operation # rest) ts =
     (case timer_step e operation ts of
        Inl err \<Rightarrow> Inl err
      | Inr ts' \<Rightarrow> run_timer_ops e rest ts')"

text \<open>
  An operation comes in order when a timer is started for a service id other than
  \<^verbatim>\<open>BTA_ID_MAX\<close> (\<^verbatim>\<open>bta_dm_pm_set_mode\<close> passes the id of a connected service), and when
  an alarm calls back while it is scheduled, that is, not after it was cancelled.
\<close>

fun op_in_order :: "pm_environment \<Rightarrow> timer_op \<Rightarrow> tBTA_PM_TIMER list \<Rightarrow> bool" where
  "op_in_order e (Start_timer i timer_idx timeout_ms service action) ts =
     (service \<noteq> BTA_ID_MAX e)"
| "op_in_order e (Alarm_callback i j) ts = (i < length ts \<and> timer (ts ! i) j \<noteq> None)"
| "op_in_order e (Assign_peer i peer_addr) ts = True"
| "op_in_order e (Stop_timer_by_index i timer_idx) ts = True"
| "op_in_order e (Stop_timer peer_addr) ts = True"
| "op_in_order e (Stop_timer_by_mode peer_addr mode) ts = True"
| "op_in_order e (Stop_timer_by_srvc_id peer_addr service) ts = True"

fun ops_in_order :: "pm_environment \<Rightarrow> timer_op list \<Rightarrow> tBTA_PM_TIMER list \<Rightarrow> bool" where
  "ops_in_order e [] ts = True"
| "ops_in_order e (operation # rest) ts =
     (op_in_order e operation ts \<and>
      (case timer_step e operation ts of
         Inl err \<Rightarrow> True
       | Inr ts' \<Rightarrow> ops_in_order e rest ts'))"

section \<open>Power manager: services and modes\<close>

text \<open>The index of the first element of a list that satisfies a predicate: the loops
  of the source that leave at the first match.\<close>

fun first_index :: "('a \<Rightarrow> bool) \<Rightarrow> 'a list \<Rightarrow> nat option" where
  "first_index P [] = None"
| "first_index P (x # xs) = (if P x then Some 0 else map_option Suc (first_index P xs))"

text \<open>\<^verbatim>\<open>bta_dm_find_peer_device\<close> (lines 1096--1106); the result is the index of the
  device, \<open>None\<close> for the null pointer.\<close>

definition bta_dm_find_peer_device :: "nat \<Rightarrow> bta_dm \<Rightarrow> nat option" where
  "bta_dm_find_peer_device peer_addr cb =
     first_index (\<lambda>d. device_peer_bdaddr d = peer_addr) (peer_device cb)"

text \<open>\<^verbatim>\<open>bta_dm_get_sco_index\<close> (lines 1117--1126); \<open>None\<close> is the result -1.\<close>

definition bta_dm_get_sco_index :: "pm_environment \<Rightarrow> bta_dm \<Rightarrow> nat option" where
  "bta_dm_get_sco_index e cb =
     first_index (\<lambda>s. srvcs_id s = BTA_ID_AG e \<and> srvcs_state s = BTA_SYS_SCO_OPEN)
       (conn_srvc cb)"

text \<open>The search of the configuration table for a service and application id (lines
  355--360 and 542--547): the first entry from 1 to the number of entries that is for
  the service and for all applications or this one; \<open>None\<close> when the loop ends without
  a match, the index then being one more than the number of entries.\<close>

definition cfg_matches :: "pm_environment \<Rightarrow> nat \<Rightarrow> nat \<Rightarrow> nat \<Rightarrow> bool" where
  "cfg_matches e service app j \<longleftrightarrow>
     cfg_id (p_bta_dm_pm_cfg e j) = service \<and>
     (cfg_app_id (p_bta_dm_pm_cfg e j) = BTA_ALL_APP_ID e \<or>
      cfg_app_id (p_bta_dm_pm_cfg e j) = app)"

definition find_cfg :: "pm_environment \<Rightarrow> nat \<Rightarrow> nat \<Rightarrow> nat option" where
  "find_cfg e service app =
     List.find (cfg_matches e service app) [1 ..< Suc (cfg_app_id (p_bta_dm_pm_cfg e 0))]"

text \<open>\<^verbatim>\<open>bta_dm_pm_park\<close> (lines 678--696).\<close>

definition bta_dm_pm_park :: "pm_environment \<Rightarrow> nat \<Rightarrow> bta_dm \<Rightarrow> bta_dm" where
  "bta_dm_pm_park e peer_addr cb =
     (let mode = (case BTM_ReadPowerMode e peer_addr of
                    None \<Rightarrow> BTM_PM_STS_ACTIVE e | Some m \<Rightarrow> m)
      in if mode \<noteq> BTM_PM_MD_PARK e
         then cb\<lparr>btm_calls := btm_calls cb @
                   [BTM_SetPowerMode peer_addr (p_bta_dm_pm_md e (BTA_DM_PM_PARK_IDX e))]\<rparr>
         else cb)"

text \<open>\<^verbatim>\<open>get_sniff_entry\<close> (lines 708--750), the table being built.\<close>

definition get_sniff_entry :: "pm_environment \<Rightarrow> u8 \<Rightarrow> tBTM_PM_PWR_MD" where
  "get_sniff_entry e index =
     (if unat index \<ge> BTA_DM_PM_PARK_IDX e then sniff_entries e 0
      else sniff_entries e (unat index))"

text \<open>\<^verbatim>\<open>bta_dm_pm_sniff\<close> (lines 761--816) for the device of index \<open>d\<close>.\<close>

definition bta_dm_pm_sniff :: "pm_environment \<Rightarrow> nat \<Rightarrow> u8 \<Rightarrow> bta_dm \<Rightarrow> bta_dm" where
  "bta_dm_pm_sniff e d index cb =
     (let p_peer_dev = peer_device cb ! d;
          peer_addr = device_peer_bdaddr p_peer_dev;
          mode = (case BTM_ReadPowerMode e peer_addr of
                    None \<Rightarrow> BTM_PM_MD_ACTIVE e | Some m \<Rightarrow> m)
      in if (mode \<noteq> BTM_PM_MD_SNIFF e \<or>
             (supports_sniff_subrating e \<and> remote_sniff_subrating e peer_addr \<and>
              info p_peer_dev AND BTA_DM_DI_USE_SSR e = 0)) \<and>
            mode = BTM_PM_MD_SNIFF e \<and> info p_peer_dev AND BTA_DM_DI_ACP_SNIFF e \<noteq> 0
         then cb
         else
           let sniff_entry = get_sniff_entry e index;
               pwr_md = (if info p_peer_dev AND BTA_DM_DI_INT_SNIFF e \<noteq> 0
                         then sniff_entry\<lparr>pwr_mode := pwr_mode sniff_entry OR BTM_PM_MD_FORCE e\<rparr>
                         else sniff_entry);
               status = BTM_SetPowerMode_status e peer_addr pwr_md;
               new_info =
                 (if status = BTM_CMD_STORED \<or> status = BTM_CMD_STARTED
                  then (info p_peer_dev
                          AND NOT (BTA_DM_DI_INT_SNIFF e OR BTA_DM_DI_ACP_SNIFF e))
                       OR BTA_DM_DI_SET_SNIFF e
                  else info p_peer_dev
                         AND NOT (BTA_DM_DI_INT_SNIFF e OR BTA_DM_DI_ACP_SNIFF e
                                  OR BTA_DM_DI_SET_SNIFF e))
           in cb\<lparr>btm_calls := btm_calls cb @ [BTM_SetPowerMode peer_addr pwr_md],
                 peer_device := (peer_device cb)[d := p_peer_dev\<lparr>info := new_info\<rparr>]\<rparr>)"

text \<open>\<^verbatim>\<open>bta_dm_pm_active\<close> (lines 907--932).\<close>

definition bta_dm_pm_active :: "pm_environment \<Rightarrow> nat \<Rightarrow> bta_dm \<Rightarrow> bta_dm" where
  "bta_dm_pm_active e peer_addr cb =
     cb\<lparr>btm_calls := btm_calls cb @
          [BTM_SetPowerMode peer_addr
             \<lparr>pwr_max = 0, pwr_min = 0, pwr_attempt = 0, pwr_timeout = 0,
              pwr_mode = BTM_PM_MD_ACTIVE e\<rparr>]\<rparr>"

text \<open>
  The local variables of \<^verbatim>\<open>bta_dm_pm_set_mode\<close> that its loop over the connected
  services writes: \<^verbatim>\<open>pm_action\<close>, \<^verbatim>\<open>timeout_ms\<close>, \<^verbatim>\<open>allowed_modes\<close> and
  \<^verbatim>\<open>pref_modes\<close>.
\<close>

record pm_selection =
  sel_pm_action :: u8
  sel_timeout_ms :: nat
  sel_allowed_modes :: u8
  sel_pref_modes :: u8

text \<open>
  The loop over the connected services (lines 538--577) on the services still to visit.
  The result is the services, with \<^verbatim>\<open>new_request\<close> cleared where the loop does so, and
  the local variables.  A service of the peer with no entry in the configuration table
  makes the loop read the table one entry past its end.
\<close>

fun set_mode_services ::
  "pm_environment \<Rightarrow> nat \<Rightarrow> u8 \<Rightarrow> tBTA_DM_PM_REQ \<Rightarrow> tBTA_DM_SRVCS list \<Rightarrow> pm_selection
     \<Rightarrow> error + (tBTA_DM_SRVCS list \<times> pm_selection)" where
  "set_mode_services e peer_addr failed_pm pm_req [] sel = Inr ([], sel)"
| "set_mode_services e peer_addr failed_pm pm_req (p_srvcs # rest) sel =
     (if srvcs_peer_bdaddr p_srvcs = peer_addr
      then
        (case find_cfg e (srvcs_id p_srvcs) (srvcs_app_id p_srvcs) of
           None \<Rightarrow> Inl Out_of_bounds
         | Some j \<Rightarrow>
             let p_pm_spec = get_bta_dm_pm_spec e (spec_idx (p_bta_dm_pm_cfg e j));
                 p_act0 = actn_tbl p_pm_spec (srvcs_state p_srvcs);
                 sel1 = sel\<lparr>sel_allowed_modes := sel_allowed_modes sel OR allow_mask p_pm_spec\<rparr>;
                 first_ok = (failed_pm AND power_mode p_act0 = 0);
                 stricter = (first_ok \<and> power_mode p_act0 \<ge> sel_pm_action sel1);
                 takes_timeout =
                   (stricter \<and> (pm_req \<noteq> BTA_DM_PM_NEW_REQ \<or> new_request p_srvcs));
                 sel2 = (if first_ok
                         then sel1\<lparr>sel_pref_modes := sel_pref_modes sel1 OR power_mode p_act0\<rparr>
                         else sel1);
                 sel3 = (if stricter then sel2\<lparr>sel_pm_action := power_mode p_act0\<rparr> else sel2);
                 sel4 = (if takes_timeout then sel3\<lparr>sel_timeout_ms := timeout p_act0\<rparr>
                         else sel3);
                 p_srvcs' = (if takes_timeout then p_srvcs\<lparr>new_request := False\<rparr>
                             else p_srvcs)
             in (case set_mode_services e peer_addr failed_pm pm_req rest sel4 of
                   Inl err \<Rightarrow> Inl err
                 | Inr (rest', sel') \<Rightarrow> Inr (p_srvcs' # rest', sel')))
      else
        (case set_mode_services e peer_addr failed_pm pm_req rest sel of
           Inl err \<Rightarrow> Inl err
         | Inr (rest', sel') \<Rightarrow> Inr (p_srvcs # rest', sel')))"

text \<open>The mode is adjusted to what the services allow (lines 579--592).\<close>

definition set_mode_allowed :: "pm_environment \<Rightarrow> pm_selection \<Rightarrow> pm_selection" where
  "set_mode_allowed e sel =
     (if sel_pm_action sel AND (BTA_DM_PM_PARK e OR BTA_DM_PM_SNIFF e) \<noteq> 0
      then
        if sel_allowed_modes sel AND sel_pm_action sel = 0
        then
          let new_action = sel_allowed_modes sel AND (BTA_DM_PM_PARK e OR BTA_DM_PM_SNIFF e)
                             AND sel_pref_modes sel
          in sel\<lparr>sel_pm_action := new_action,
                 sel_timeout_ms := (if new_action = BTA_DM_PM_NO_ACTION e then 0
                                    else sel_timeout_ms sel)\<rparr>
        else sel
      else sel)"

text \<open>The local variables when the loop starts (lines 508--514).\<close>

definition initial_selection :: "pm_environment \<Rightarrow> pm_selection" where
  "initial_selection e =
     \<lparr>sel_pm_action = BTA_DM_PM_NO_ACTION e, sel_timeout_ms = 0,
      sel_allowed_modes = 0, sel_pref_modes = 0\<rparr>"

text \<open>
  The loop over the timer slots (lines 595--621) on the slots still to visit, \<open>i\<close> being
  the number of the first of them.  The result is the slots, \<^verbatim>\<open>timer_started\<close> and
  \<^verbatim>\<open>available_timer\<close>.
\<close>

fun set_mode_timer_slots ::
  "pm_environment \<Rightarrow> nat \<Rightarrow> u8 \<Rightarrow> nat \<Rightarrow> nat \<Rightarrow> nat \<Rightarrow> nat \<Rightarrow> tBTA_PM_TIMER list
     \<Rightarrow> error + (tBTA_PM_TIMER list \<times> bool \<times> nat)" where
  "set_mode_timer_slots e peer_addr action timeout_ms service i available_timer [] =
     Inr ([], False, available_timer)"
| "set_mode_timer_slots e peer_addr action timeout_ms service i available_timer (t # ts) =
     (if timer_in_use t \<and> timer_peer_bdaddr t = peer_addr
      then
        let timer_idx = bta_pm_action_to_timer_idx e action
        in if timer_idx \<noteq> BTA_DM_PM_MODE_TIMER_MAX
           then
             if alarm_get_remaining_ms e i timer_idx < timeout_ms
             then (case bta_dm_pm_stop_timer_by_index e timer_idx t of
                     Inl err \<Rightarrow> Inl err
                   | Inr t' \<Rightarrow>
                       Inr (bta_dm_pm_start_timer e timer_idx timeout_ms service action t'
                              # ts, True, available_timer))
             else Inr (t # ts, True, available_timer)
           else Inr (t # ts, False, available_timer)
      else
        let available_timer' =
              (if \<not> timer_in_use t \<and> available_timer = BTA_DM_PM_MODE_TIMER_MAX then i
               else available_timer)
        in (case set_mode_timer_slots e peer_addr action timeout_ms service (Suc i)
                   available_timer' ts of
              Inl err \<Rightarrow> Inl err
            | Inr (ts', timer_started, available) \<Rightarrow>
                Inr (t # ts', timer_started, available)))"

text \<open>The timer of the mode is started (lines 594--637); \<^verbatim>\<open>p_srvcs\<close> points to the last
  connected service, and is null when there is none.\<close>

definition set_mode_start_timer ::
  "pm_environment \<Rightarrow> nat \<Rightarrow> pm_selection \<Rightarrow> bta_dm \<Rightarrow> error + bta_dm" where
  "set_mode_start_timer e peer_addr sel cb =
     (if conn_srvc cb = [] then Inl Null_dereference
      else
        let service = srvcs_id (last (conn_srvc cb))
        in case set_mode_timer_slots e peer_addr (sel_pm_action sel) (sel_timeout_ms sel)
                  service 0 BTA_DM_PM_MODE_TIMER_MAX (pm_timer cb) of
             Inl err \<Rightarrow> Inl err
           | Inr (ts, timer_started, available_timer) \<Rightarrow>
               if timer_started then Inr (cb\<lparr>pm_timer := ts\<rparr>)
               else if available_timer \<noteq> BTA_DM_PM_MODE_TIMER_MAX
               then
                 let t = (ts ! available_timer)\<lparr>timer_peer_bdaddr := peer_addr\<rparr>;
                     timer_idx = bta_pm_action_to_timer_idx e (sel_pm_action sel)
                 in if timer_idx \<noteq> BTA_DM_PM_MODE_TIMER_MAX
                    then Inr (cb\<lparr>pm_timer := ts[available_timer :=
                                 bta_dm_pm_start_timer e timer_idx (sel_timeout_ms sel) service
                                   (sel_pm_action sel) t]\<rparr>)
                    else Inr (cb\<lparr>pm_timer := ts[available_timer := t]\<rparr>)
               else Inr (cb\<lparr>pm_timer := ts\<rparr>))"

text \<open>The mode is requested from the lower layer (lines 644--666), \<open>d\<close> being the index
  of the device.\<close>

definition set_mode_execute ::
  "pm_environment \<Rightarrow> nat \<Rightarrow> nat \<Rightarrow> u8 \<Rightarrow> bta_dm \<Rightarrow> bta_dm" where
  "set_mode_execute e peer_addr d action cb =
     (if action = BTA_DM_PM_PARK e
      then bta_dm_pm_park e peer_addr
             (cb\<lparr>peer_device := (peer_device cb)
                    [d := (peer_device cb ! d)\<lparr>pm_mode_attempted := BTA_DM_PM_PARK e\<rparr>]\<rparr>)
      else if action AND BTA_DM_PM_SNIFF e \<noteq> 0
      then
        if BTM_is_sniff_allowed_for e peer_addr
        then bta_dm_pm_sniff e d (action AND 0x0F)
               (cb\<lparr>peer_device := (peer_device cb)
                      [d := (peer_device cb ! d)\<lparr>pm_mode_attempted := BTA_DM_PM_SNIFF e\<rparr>]\<rparr>)
        else cb
      else if action = BTA_DM_PM_ACTIVE e then bta_dm_pm_active e peer_addr cb
      else cb)"

text \<open>\<^verbatim>\<open>bta_dm_pm_set_mode\<close> (lines 505--667).  The device list holds its first
  \<^verbatim>\<open>count\<close> devices.\<close>

definition bta_dm_pm_set_mode ::
  "pm_environment \<Rightarrow> nat \<Rightarrow> u8 \<Rightarrow> tBTA_DM_PM_REQ \<Rightarrow> bta_dm \<Rightarrow> error + bta_dm" where
  "bta_dm_pm_set_mode e peer_addr pm_request pm_req cb =
     (if peer_device cb = [] then Inr cb
      else
        case bta_dm_find_peer_device peer_addr cb of
          None \<Rightarrow> Inr cb
        | Some d \<Rightarrow>
            (case set_mode_services e peer_addr (pm_mode_failed (peer_device cb ! d)) pm_req
                    (conn_srvc cb) (initial_selection e) of
               Inl err \<Rightarrow> Inl err
             | Inr (srvcs, sel0) \<Rightarrow>
                 let sel = set_mode_allowed e sel0;
                     cb1 = cb\<lparr>conn_srvc := srvcs\<rparr>
                 in if pm_req \<noteq> BTA_DM_PM_EXECUTE \<and> sel_timeout_ms sel > 0
                    then set_mode_start_timer e peer_addr sel cb1
                    else if pm_req = BTA_DM_PM_EXECUTE \<and> pm_request < sel_pm_action sel
                    then Inr cb1
                    else Inr (set_mode_execute e peer_addr d (sel_pm_action sel) cb1)))"

text \<open>\<^verbatim>\<open>bta_dm_pm_timer\<close> (lines 1082--1085).\<close>

definition bta_dm_pm_timer :: "pm_environment \<Rightarrow> nat \<Rightarrow> u8 \<Rightarrow> bta_dm \<Rightarrow> error + bta_dm" where
  "bta_dm_pm_timer e bd_addr pm_request cb =
     bta_dm_pm_set_mode e bd_addr pm_request BTA_DM_PM_EXECUTE cb"

section \<open>Power manager: sniff subrating\<close>

text \<open>The search of the configuration table in \<^verbatim>\<open>bta_dm_pm_ssr\<close> (lines 839--852) over
  the entries still to visit: the index of the last entry visited is kept.\<close>

fun current_ssr_index_from ::
  "pm_environment \<Rightarrow> tBTA_DM_SRVCS \<Rightarrow> nat list \<Rightarrow> nat \<Rightarrow> nat" where
  "current_ssr_index_from e service [] current = current"
| "current_ssr_index_from e service (j # js) current =
     (let current' = ssr (get_bta_dm_pm_spec e (spec_idx (p_bta_dm_pm_cfg e j)))
      in if cfg_matches e (srvcs_id service) (srvcs_app_id service) j then current'
         else current_ssr_index_from e service js current')"

definition current_ssr_index :: "pm_environment \<Rightarrow> tBTA_DM_SRVCS \<Rightarrow> nat" where
  "current_ssr_index e service =
     current_ssr_index_from e service [1 ..< Suc (cfg_app_id (p_bta_dm_pm_cfg e 0))]
       (BTA_DM_PM_SSR0 e)"

text \<open>
  The loop over the connected services of \<^verbatim>\<open>bta_dm_pm_ssr\<close> (lines 833--874) on the
  services still to visit.  \<^verbatim>\<open>p_spec\<close> points to the entry \<open>ssr_index\<close> of the table,
  which the loop writes for the HID host, so the table is passed along.
\<close>

fun ssr_services ::
  "pm_environment \<Rightarrow> nat \<Rightarrow> tBTA_DM_SRVCS list \<Rightarrow> nat \<Rightarrow> (nat \<Rightarrow> tBTA_DM_SSR_SPEC)
     \<Rightarrow> nat \<times> (nat \<Rightarrow> tBTA_DM_SSR_SPEC)" where
  "ssr_services e peer_addr [] ssr_index spec = (ssr_index, spec)"
| "ssr_services e peer_addr (service # rest) ssr_index spec =
     (if srvcs_peer_bdaddr service \<noteq> peer_addr
      then ssr_services e peer_addr rest ssr_index spec
      else
        let current = current_ssr_index e service
        in if current = BTA_DM_PM_SSR_HH e \<and> bta_hh_read_ssr_param e peer_addr = None
           then ssr_services e peer_addr rest ssr_index spec
           else
             let spec' =
                   (if current = BTA_DM_PM_SSR_HH e
                    then (case bta_hh_read_ssr_param e peer_addr of
                            None \<Rightarrow> spec
                          | Some (lat, rmt_to) \<Rightarrow>
                              spec(current := (spec current)
                                     \<lparr>max_lat := lat, min_rmt_to := rmt_to\<rparr>))
                    else spec);
                 ssr_index' =
                   (if max_lat (spec' current) < max_lat (spec' ssr_index) \<or>
                       (ssr_index = BTA_DM_PM_SSR0 e \<and> current \<noteq> BTA_DM_PM_SSR0 e)
                    then current else ssr_index)
             in ssr_services e peer_addr rest ssr_index' spec')"

text \<open>\<^verbatim>\<open>bta_dm_pm_ssr\<close> (lines 826--896).\<close>

definition bta_dm_pm_ssr :: "pm_environment \<Rightarrow> nat \<Rightarrow> nat \<Rightarrow> bta_dm \<Rightarrow> bta_dm" where
  "bta_dm_pm_ssr e peer_addr ssr_arg cb =
     (case ssr_services e peer_addr (conn_srvc cb) ssr_arg (p_bta_dm_ssr_spec cb) of
        (ssr_index, spec) \<Rightarrow>
          let cb1 = cb\<lparr>p_bta_dm_ssr_spec := spec\<rparr>;
              p_spec = spec ssr_index
          in if max_lat p_spec \<noteq> 0
             then
               (case bta_dm_get_sco_index e cb1 of
                  None \<Rightarrow>
                    cb1\<lparr>btm_calls := btm_calls cb1 @
                          [BTM_SetSsrParams peer_addr (max_lat p_spec) (min_rmt_to p_spec)
                             (min_loc_to p_spec)]\<rparr>
                | Some idx \<Rightarrow>
                    if srvcs_peer_bdaddr (conn_srvc cb1 ! idx) = peer_addr then cb1
                    else cb1\<lparr>btm_calls := btm_calls cb1 @
                          [BTM_SetSsrParams peer_addr (max_lat p_spec) (min_rmt_to p_spec)
                             (min_loc_to p_spec)]\<rparr>)
             else cb1)"

section \<open>Power manager: the connection callback\<close>

text \<open>The sniff subrating index that \<^verbatim>\<open>bta_dm_pm_cback\<close> chooses (lines 381--392),
  \<open>i\<close> being the entry of the configuration table and \<open>p_dev\<close> the device found.\<close>

definition cback_ssr_index ::
  "pm_environment \<Rightarrow> tBTA_SYS_CONN_STATUS \<Rightarrow> nat \<Rightarrow> nat \<Rightarrow> tBTA_DM_PEER_DEVICE option \<Rightarrow> nat"
  where
  "cback_ssr_index e status service i p_dev =
     (if status = BTA_SYS_CONN_OPEN \<and>
         (case p_dev of None \<Rightarrow> False | Some dev \<Rightarrow> info dev AND BTA_DM_DI_USE_SSR e \<noteq> 0)
      then ssr (get_bta_dm_pm_spec e (spec_idx (p_bta_dm_pm_cfg e i)))
      else if service = BTA_ID_AV e
      then
        if status = BTA_SYS_CONN_BUSY then BTA_DM_PM_SSR4 e
        else if status = BTA_SYS_CONN_IDLE
        then ssr (get_bta_dm_pm_spec e (spec_idx (p_bta_dm_pm_cfg e i)))
        else BTA_DM_PM_SSR0 e
      else BTA_DM_PM_SSR0 e)"

text \<open>The table of connected services is updated (lines 402--450); \<open>None\<close> where the
  function returns, which it does only when no entry was found, the table then being
  as it was.\<close>

definition cback_update_services ::
  "pm_environment \<Rightarrow> tBTA_SYS_CONN_STATUS \<Rightarrow> nat \<Rightarrow> nat \<Rightarrow> nat \<Rightarrow> u8
     \<Rightarrow> tBTA_DM_SRVCS list \<Rightarrow> tBTA_DM_SRVCS list option" where
  "cback_update_services e status service app peer_addr mode srvcs =
     (case first_index (\<lambda>s. srvcs_id s = service \<and> srvcs_app_id s = app \<and>
                             srvcs_peer_bdaddr s = peer_addr) srvcs of
        Some j \<Rightarrow>
          if mode = BTA_DM_PM_NO_PREF e then Some (take j srvcs @ drop (Suc j) srvcs)
          else Some (srvcs[j := (srvcs ! j)\<lparr>new_request := True, srvcs_state := status\<rparr>])
      | None \<Rightarrow>
          if mode = BTA_DM_PM_NO_PREF e then None
          else if length srvcs = BTA_DM_NUM_CONN_SRVS e then None
          else Some (srvcs @ [\<lparr>srvcs_id = service, srvcs_app_id = app, new_request = True,
                               srvcs_state = status, srvcs_peer_bdaddr = peer_addr\<rparr>]))"

text \<open>The sniff subrating parameters are set (lines 467--489).\<close>

definition cback_ssr ::
  "pm_environment \<Rightarrow> tBTA_SYS_CONN_STATUS \<Rightarrow> nat \<Rightarrow> nat \<Rightarrow> nat \<Rightarrow> bta_dm \<Rightarrow> bta_dm" where
  "cback_ssr e status service peer_addr index cb =
     (if max_lat (p_bta_dm_ssr_spec cb index) \<noteq> 0 \<or> index = BTA_DM_PM_SSR_HH e
      then
        if service \<noteq> BTA_ID_AV e \<or> status \<noteq> BTA_SYS_CONN_BUSY
        then bta_dm_pm_ssr e peer_addr index cb
        else cb
      else
        if supports_sniff_subrating e \<and> remote_sniff_subrating e peer_addr \<and>
           index = BTA_DM_PM_SSR0 e
        then
          if status = BTA_SYS_SCO_OPEN
          then cb\<lparr>btm_calls := btm_calls cb @ [BTM_SetSsrParams peer_addr 0 0 0]\<rparr>
          else if status = BTA_SYS_SCO_CLOSE
          then bta_dm_pm_ssr e peer_addr (BTA_DM_PM_SSR0 e) cb
          else cb
        else cb)"

text \<open>\<^verbatim>\<open>bta_dm_pm_cback\<close> (lines 344--492).\<close>

definition bta_dm_pm_cback ::
  "pm_environment \<Rightarrow> tBTA_SYS_CONN_STATUS \<Rightarrow> nat \<Rightarrow> nat \<Rightarrow> nat \<Rightarrow> bta_dm \<Rightarrow> error + bta_dm"
  where
  "bta_dm_pm_cback e status service app peer_addr cb =
     (case find_cfg e service app of
        None \<Rightarrow> Inr cb
      | Some i \<Rightarrow>
          (case bta_dm_pm_stop_timer_by_srvc_id e peer_addr service (pm_timer cb) of
             Inl err \<Rightarrow> Inl err
           | Inr ts1 \<Rightarrow>
               let cb1 = cb\<lparr>pm_timer := ts1\<rparr>;
                   p_dev = bta_dm_find_peer_device peer_addr cb1;
                   index = cback_ssr_index e status service i
                             (map_option (\<lambda>d. peer_device cb1 ! d) p_dev);
                   mode = power_mode
                            (actn_tbl (get_bta_dm_pm_spec e (spec_idx (p_bta_dm_pm_cfg e i)))
                               status)
               in if mode = BTA_DM_PM_NO_ACTION e \<and> index = BTA_DM_PM_SSR0 e then Inr cb1
                  else
                    (case cback_update_services e status service app peer_addr mode
                            (conn_srvc cb1) of
                       None \<Rightarrow> Inr cb1
                     | Some srvcs \<Rightarrow>
                         (case bta_dm_pm_stop_timer e peer_addr (pm_timer cb1) of
                            Inl err \<Rightarrow> Inl err
                          | Inr ts2 \<Rightarrow>
                              let pm_req = (if srvcs \<noteq> [] then BTA_DM_PM_RESTART
                                            else BTA_DM_PM_NEW_REQ);
                                  devices =
                                    (case p_dev of
                                       None \<Rightarrow> peer_device cb1
                                     | Some d \<Rightarrow> (peer_device cb1)
                                         [d := (peer_device cb1 ! d)
                                            \<lparr>pm_mode_attempted := 0, pm_mode_failed := 0\<rparr>]);
                                  cb2 = cb1\<lparr>conn_srvc := srvcs, pm_timer := ts2,
                                            peer_device := devices\<rparr>;
                                  cb3 = cback_ssr e status service peer_addr index cb2
                              in bta_dm_pm_set_mode e peer_addr (BTA_DM_PM_NO_ACTION e) pm_req
                                   cb3))))"

section \<open>Power manager: reading the selection and the calls\<close>



definition peer_services :: "nat \<Rightarrow> tBTA_DM_SRVCS list \<Rightarrow> tBTA_DM_SRVCS list" where
  "peer_services peer_addr srvcs = filter (\<lambda>s. srvcs_peer_bdaddr s = peer_addr) srvcs"





text \<open>What identifies a connected service and its state: everything but
  \<^verbatim>\<open>new_request\<close>.\<close>

definition srvcs_key :: "tBTA_DM_SRVCS \<Rightarrow> nat \<times> nat \<times> tBTA_SYS_CONN_STATUS \<times> nat" where
  "srvcs_key s = (srvcs_id s, srvcs_app_id s, srvcs_state s, srvcs_peer_bdaddr s)"

text \<open>A call of \<^verbatim>\<open>BTM_SetSsrParams\<close>.\<close>

fun is_set_ssr_params :: "btm_call \<Rightarrow> bool" where
  "is_set_ssr_params (BTM_SetSsrParams p lat rmt_to loc_to) = True"
| "is_set_ssr_params (BTM_SetPowerMode p md) = False"

text \<open>The calls into the lower layer made between a state and a later one.\<close>

definition new_calls :: "bta_dm \<Rightarrow> bta_dm \<Rightarrow> btm_call list" where
  "new_calls cb cb' = drop (length (btm_calls cb)) (btm_calls cb')"

section \<open>Power manager: example inputs\<close>

text \<open>
  A configuration with three services: the audio gateway (id 5) and the advanced audio
  service (id 18), which allow sniff, and a service (id 10) that asks for sniff but allows
  park only.  The constants have the values of the headers of the stack.
\<close>

definition example_pm_cfg :: "nat \<Rightarrow> tBTA_DM_PM_CFG" where
  "example_pm_cfg j =
     (if j = 0 then \<lparr>cfg_id = 0, cfg_app_id = 3, spec_idx = 0\<rparr>
      else if j = 1 then \<lparr>cfg_id = 5, cfg_app_id = 255, spec_idx = 0\<rparr>
      else if j = 2 then \<lparr>cfg_id = 18, cfg_app_id = 255, spec_idx = 1\<rparr>
      else if j = 3 then \<lparr>cfg_id = 10, cfg_app_id = 255, spec_idx = 2\<rparr>
      else \<lparr>cfg_id = 0, cfg_app_id = 0, spec_idx = 0\<rparr>)"

fun example_ag_actions :: "tBTA_SYS_CONN_STATUS \<Rightarrow> tBTA_DM_PM_ACTN" where
  "example_ag_actions BTA_SYS_CONN_OPEN = \<lparr>power_mode = 0x20, timeout = 7000\<rparr>"
| "example_ag_actions BTA_SYS_CONN_CLOSE = \<lparr>power_mode = 0x01, timeout = 0\<rparr>"
| "example_ag_actions BTA_SYS_APP_OPEN = \<lparr>power_mode = 0x00, timeout = 0\<rparr>"
| "example_ag_actions BTA_SYS_APP_CLOSE = \<lparr>power_mode = 0x00, timeout = 0\<rparr>"
| "example_ag_actions BTA_SYS_SCO_OPEN = \<lparr>power_mode = 0x23, timeout = 7000\<rparr>"
| "example_ag_actions BTA_SYS_SCO_CLOSE = \<lparr>power_mode = 0x20, timeout = 7000\<rparr>"
| "example_ag_actions BTA_SYS_CONN_IDLE = \<lparr>power_mode = 0x20, timeout = 7000\<rparr>"
| "example_ag_actions BTA_SYS_CONN_BUSY = \<lparr>power_mode = 0x20, timeout = 7000\<rparr>"
| "example_ag_actions BTA_SYS_ROLE_CHANGE = \<lparr>power_mode = 0x00, timeout = 0\<rparr>"

fun example_av_actions :: "tBTA_SYS_CONN_STATUS \<Rightarrow> tBTA_DM_PM_ACTN" where
  "example_av_actions BTA_SYS_CONN_OPEN = \<lparr>power_mode = 0x22, timeout = 5000\<rparr>"
| "example_av_actions BTA_SYS_CONN_CLOSE = \<lparr>power_mode = 0x01, timeout = 0\<rparr>"
| "example_av_actions BTA_SYS_APP_OPEN = \<lparr>power_mode = 0x00, timeout = 0\<rparr>"
| "example_av_actions BTA_SYS_APP_CLOSE = \<lparr>power_mode = 0x00, timeout = 0\<rparr>"
| "example_av_actions BTA_SYS_SCO_OPEN = \<lparr>power_mode = 0x00, timeout = 0\<rparr>"
| "example_av_actions BTA_SYS_SCO_CLOSE = \<lparr>power_mode = 0x00, timeout = 0\<rparr>"
| "example_av_actions BTA_SYS_CONN_IDLE = \<lparr>power_mode = 0x22, timeout = 5000\<rparr>"
| "example_av_actions BTA_SYS_CONN_BUSY = \<lparr>power_mode = 0x00, timeout = 0\<rparr>"
| "example_av_actions BTA_SYS_ROLE_CHANGE = \<lparr>power_mode = 0x00, timeout = 0\<rparr>"

definition example_pm_spec :: "nat \<Rightarrow> tBTA_DM_PM_SPEC" where
  "example_pm_spec k =
     (if k = 0 then \<lparr>allow_mask = 0x20, ssr = 2, actn_tbl = example_ag_actions\<rparr>
      else if k = 1 then \<lparr>allow_mask = 0x20, ssr = 2, actn_tbl = example_av_actions\<rparr>
      else \<lparr>allow_mask = 0x10, ssr = 0, actn_tbl = example_ag_actions\<rparr>)"

definition example_pwr_md :: tBTM_PM_PWR_MD where
  "example_pwr_md =
     \<lparr>pwr_max = 800, pwr_min = 400, pwr_attempt = 4, pwr_timeout = 1, pwr_mode = 2\<rparr>"

definition example_pm_environment :: pm_environment where
  "example_pm_environment =
     \<lparr>BTA_ID_MAX = 44, BTA_ID_AV = 18, BTA_ID_AG = 5, BTA_ALL_APP_ID = 255,
      BTA_DM_NUM_CONN_SRVS = 30,
      BTA_DM_PM_NO_ACTION = 0x00, BTA_DM_PM_NO_PREF = 0x01, BTA_DM_PM_PARK = 0x10,
      BTA_DM_PM_SNIFF = 0x20, BTA_DM_PM_ACTIVE = 0x40, BTA_DM_PM_SUSPEND = 0x04,
      BTA_DM_PM_SSR0 = 0, BTA_DM_PM_SSR_HH = 1, BTA_DM_PM_SSR4 = 4,
      BTA_DM_PM_SUSPEND_TIMER_IDX = 2, BTA_DM_PM_PARK_TIMER_IDX = 1,
      BTA_DM_PM_SNIFF_TIMER_IDX = 0, BTA_DM_PM_PARK_IDX = 7,
      BTA_DM_DI_USE_SSR = 0x10, BTA_DM_DI_INT_SNIFF = 0x02, BTA_DM_DI_ACP_SNIFF = 0x04,
      BTA_DM_DI_SET_SNIFF = 0x01,
      BTM_PM_STS_ACTIVE = 0, BTM_PM_MD_ACTIVE = 0, BTM_PM_MD_SNIFF = 2, BTM_PM_MD_PARK = 3,
      BTM_PM_MD_FORCE = 0x10,
      p_bta_dm_pm_cfg = example_pm_cfg, get_bta_dm_pm_spec = example_pm_spec,
      p_bta_dm_pm_md = (\<lambda>k. example_pwr_md), sniff_entries = (\<lambda>k. example_pwr_md),
      supports_sniff_subrating = True, remote_sniff_subrating = (\<lambda>p. True),
      bta_hh_read_ssr_param = (\<lambda>p. None), alarm_get_remaining_ms = (\<lambda>i j. 0),
      BTM_is_sniff_allowed_for = (\<lambda>p. True), BTM_ReadPowerMode = (\<lambda>p. Some 0),
      BTM_SetPowerMode_status = (\<lambda>p md. BTM_CMD_STARTED)\<rparr>"

text \<open>The sniff subrating table: entry 0 asks for nothing.\<close>

definition example_ssr_spec :: "nat \<Rightarrow> tBTA_DM_SSR_SPEC" where
  "example_ssr_spec k =
     (if k = 0 then \<lparr>max_lat = 0, min_rmt_to = 0, min_loc_to = 0\<rparr>
      else if k = 1 then \<lparr>max_lat = 0, min_rmt_to = 0, min_loc_to = 2\<rparr>
      else \<lparr>max_lat = 1200, min_rmt_to = 2, min_loc_to = 2\<rparr>)"

text \<open>
  Two timers of the first of two slots are started, the sniff timer for the audio gateway
  and the park timer for the advanced audio service; the sniff timer is stopped; then
  the callback of its alarm, queued before the alarm was cancelled, is delivered.
\<close>

definition example_timer_bank :: "tBTA_PM_TIMER list" where
  "example_timer_bank =
     [initial_timer example_pm_environment, initial_timer example_pm_environment]"

definition example_timer_ops :: "timer_op list" where
  "example_timer_ops =
     [Start_timer 0 0 7000 5 0x20, Start_timer 0 1 5000 18 0x10, Stop_timer_by_index 0 0]"

text \<open>The first slot after the three operations, and after the late callback.\<close>

definition example_slot_stopped :: tBTA_PM_TIMER where
  "example_slot_stopped =
     \<lparr>timer_in_use = True, timer_peer_bdaddr = 0, active = 1,
      srvc_id = (\<lambda>j. 44)(1 := 18), pm_action = (\<lambda>j. 0)(0 := 0x20, 1 := 0x10),
      timer = (\<lambda>j. None)(1 := Some 5000)\<rparr>"

definition example_slot_late_callback :: tBTA_PM_TIMER where
  "example_slot_late_callback =
     \<lparr>timer_in_use = False, timer_peer_bdaddr = 0, active = 0,
      srvc_id = (\<lambda>j. 44)(1 := 18), pm_action = (\<lambda>j. 0)(0 := 0x20, 1 := 0x10),
      timer = (\<lambda>j. None)(1 := Some 5000)\<rparr>"


text \<open>The power manager with the audio gateway connected to peer 1, no timer
  running.\<close>

definition example_bta_dm :: bta_dm where
  "example_bta_dm =
     \<lparr>conn_srvc = [\<lparr>srvcs_id = 5, srvcs_app_id = 0, new_request = False,
                    srvcs_state = BTA_SYS_CONN_OPEN, srvcs_peer_bdaddr = 1\<rparr>],
      peer_device = [\<lparr>device_peer_bdaddr = 1, info = 0, pm_mode_attempted = 0,
                      pm_mode_failed = 0\<rparr>],
      pm_timer = [initial_timer example_pm_environment,
                  initial_timer example_pm_environment],
      p_bta_dm_ssr_spec = example_ssr_spec,
      btm_calls = [], posted_pm_timer = []\<rparr>"

text \<open>The same after the peer has opened a voice connection: the audio gateway is in
  state \<^verbatim>\<open>SCO_OPEN\<close>, the sniff timer of the first slot runs, and the sniff subrating
  parameters have been reset.\<close>

definition example_bta_dm_sco_open :: bta_dm where
  "example_bta_dm_sco_open =
     \<lparr>conn_srvc = [\<lparr>srvcs_id = 5, srvcs_app_id = 0, new_request = False,
                    srvcs_state = BTA_SYS_SCO_OPEN, srvcs_peer_bdaddr = 1\<rparr>],
      peer_device = [\<lparr>device_peer_bdaddr = 1, info = 0, pm_mode_attempted = 0,
                      pm_mode_failed = 0\<rparr>],
      pm_timer = [\<lparr>timer_in_use = True, timer_peer_bdaddr = 1, active = 1,
                   srvc_id = (\<lambda>j. 44)(0 := 5), pm_action = (\<lambda>j. 0)(0 := 0x23),
                   timer = (\<lambda>j. None)(0 := Some 7000)\<rparr>,
                  initial_timer example_pm_environment],
      p_bta_dm_ssr_spec = example_ssr_spec,
      btm_calls = [BTM_SetSsrParams 1 0 0 0], posted_pm_timer = []\<rparr>"

text \<open>The peer in a call on a link that uses sniff subrating.\<close>

definition example_bta_dm_in_call :: bta_dm where
  "example_bta_dm_in_call =
     example_bta_dm_sco_open
       \<lparr>peer_device := [\<lparr>device_peer_bdaddr = 1, info = 0x10, pm_mode_attempted = 0,
                          pm_mode_failed = 0\<rparr>]\<rparr>"
text \<open>The same after the advanced audio service has connected during the call.\<close>

definition example_bta_dm_av_open :: bta_dm where
  "example_bta_dm_av_open =
     example_bta_dm_in_call
       \<lparr>conn_srvc := [\<lparr>srvcs_id = 5, srvcs_app_id = 0, new_request = False,
                        srvcs_state = BTA_SYS_SCO_OPEN, srvcs_peer_bdaddr = 1\<rparr>,
                       \<lparr>srvcs_id = 18, srvcs_app_id = 0, new_request = True,
                        srvcs_state = BTA_SYS_CONN_OPEN, srvcs_peer_bdaddr = 1\<rparr>],
        pm_timer := [\<lparr>timer_in_use = True, timer_peer_bdaddr = 1, active = 1,
                      srvc_id = (\<lambda>j. 44)(0 := 18), pm_action = (\<lambda>j. 0)(0 := 0x23),
                      timer = (\<lambda>j. None)(0 := Some 7000)\<rparr>,
                     initial_timer example_pm_environment]\<rparr>"

text \<open>A service that asks for sniff on a link where only park is allowed.\<close>

definition example_parked_service :: "tBTA_DM_SRVCS list" where
  "example_parked_service =
     [\<lparr>srvcs_id = 10, srvcs_app_id = 0, new_request = True,
       srvcs_state = BTA_SYS_CONN_OPEN, srvcs_peer_bdaddr = 1\<rparr>]"

section \<open>Properties of the address policy\<close>

text \<open>
  C6 (as amended).  \<^verbatim>\<open>GetAdvertiserAddressTypeFromRequestedTypeAndPolicy\<close> follows the
  table for every requested type: Public or Static policy gives Public, the RPA policy
  honours the request, the NRPA policy narrows RPA to NRPA and keeps Public and NRPA.
  At advertiser creation this function is used for connectable advertisers and whenever
  the flag \<open>nrpa_non_connectable_adv\<close> is off; for a non-connectable advertiser with the
  flag on, the Public and Static policies keep a requested Public or NRPA and turn a
  requested RPA into NRPA, and the other two policies follow the table.
\<close>

theorem address_type_table:
  "GetAdvertiserAddressTypeFromRequestedTypeAndPolicy req USE_PUBLIC_ADDRESS = Inr PUBLIC
   \<and> GetAdvertiserAddressTypeFromRequestedTypeAndPolicy req USE_STATIC_ADDRESS = Inr PUBLIC
   \<and> GetAdvertiserAddressTypeFromRequestedTypeAndPolicy req USE_RESOLVABLE_ADDRESS = Inr req
   \<and> GetAdvertiserAddressTypeFromRequestedTypeAndPolicy PUBLIC USE_NON_RESOLVABLE_ADDRESS = Inr PUBLIC
   \<and> GetAdvertiserAddressTypeFromRequestedTypeAndPolicy RESOLVABLE_RANDOM USE_NON_RESOLVABLE_ADDRESS
       = Inr NONRESOLVABLE_RANDOM
   \<and> GetAdvertiserAddressTypeFromRequestedTypeAndPolicy NONRESOLVABLE_RANDOM USE_NON_RESOLVABLE_ADDRESS
       = Inr NONRESOLVABLE_RANDOM
   \<and> advertiser_address_type_at_creation flag True req pol
       = GetAdvertiserAddressTypeFromRequestedTypeAndPolicy req pol
   \<and> advertiser_address_type_at_creation False conn req pol
       = GetAdvertiserAddressTypeFromRequestedTypeAndPolicy req pol
   \<and> advertiser_address_type_at_creation True False req USE_PUBLIC_ADDRESS
       = Inr (if req = RESOLVABLE_RANDOM then NONRESOLVABLE_RANDOM else req)
   \<and> advertiser_address_type_at_creation True False req USE_STATIC_ADDRESS
       = Inr (if req = RESOLVABLE_RANDOM then NONRESOLVABLE_RANDOM else req)
   \<and> advertiser_address_type_at_creation True False req USE_RESOLVABLE_ADDRESS
       = GetAdvertiserAddressTypeFromRequestedTypeAndPolicy req USE_RESOLVABLE_ADDRESS
   \<and> advertiser_address_type_at_creation True False req USE_NON_RESOLVABLE_ADDRESS
       = GetAdvertiserAddressTypeFromRequestedTypeAndPolicy req USE_NON_RESOLVABLE_ADDRESS"
  by (simp add: advertiser_address_type_at_creation_def)

text \<open>
  The claim as first stated (under the Public policy every request yields Public at
  advertiser creation) fails for a non-connectable advertiser that asks for a
  non-resolvable address while the flag \<open>nrpa_non_connectable_adv\<close> is on.
\<close>

theorem address_type_creation_counterexample:
  "advertiser_address_type_at_creation True False NONRESOLVABLE_RANDOM USE_PUBLIC_ADDRESS
     \<noteq> Inr PUBLIC"
  by (simp add: advertiser_address_type_at_creation_def)

section \<open>Properties of the tx power calibration\<close>

lemma sint_word_of_int_u8:
  assumes "- 128 \<le> n" and "n \<le> 127"
  shows "sint (word_of_int n :: u8) = n"
  using assms by (simp add: sint_sbintrunc' signed_take_bit_int_eq_self)

lemma sint_add_u8_no_wrap:
  fixes x y :: u8
  assumes "- 128 \<le> sint x + sint y" and "sint x + sint y \<le> 127"
  shows "sint (x + y) = sint x + sint y"
proof -
  have "x + y = word_of_int (sint x + sint y)"
    by simp
  then have "sint (x + y) = sint (word_of_int (sint x + sint y) :: u8)"
    by (rule arg_cong)
  also have "\<dots> = sint x + sint y"
    using assms by (rule sint_word_of_int_u8)
  finally show ?thesis .
qed

text \<open>
  C9 (as amended).  A configured compensation is accepted only when it lies in
  \<open>[-128, 127]\<close> (otherwise it counts as 0).  The sum of the requested tx power and a
  non-zero compensation becomes the calibrated tx power only when it lies in
  \<open>[-127, 20]\<close>; in every other case the requested tx power is used as it is.
\<close>

theorem tx_power_calibration:
  "sint (get_tx_path_loss_compensation parse (Some v))
     = (case parse v of
          None \<Rightarrow> 0
        | Some number \<Rightarrow> if - 128 \<le> number \<and> number \<le> 127 then number else 0)
   \<and> sint (get_tx_power_after_calibration loss requested)
     = (if loss \<noteq> 0 \<and> - 127 \<le> sint requested + sint loss \<and> sint requested + sint loss \<le> 20
        then sint requested + sint loss
        else sint requested)"
proof
  show "sint (get_tx_path_loss_compensation parse (Some v))
     = (case parse v of
          None \<Rightarrow> 0
        | Some number \<Rightarrow> if - 128 \<le> number \<and> number \<le> 127 then number else 0)"
    by (auto simp: get_tx_path_loss_compensation_def kLeTxPathLossCompMin_def
        kLeTxPathLossCompMax_def sint_word_of_int_u8 split: option.splits)
next
  show "sint (get_tx_power_after_calibration loss requested)
     = (if loss \<noteq> 0 \<and> - 127 \<le> sint requested + sint loss \<and> sint requested + sint loss \<le> 20
        then sint requested + sint loss
        else sint requested)"
    by (auto simp: get_tx_power_after_calibration_def Let_def kLeAdvertisingTxPowerMin_def
        kLeAdvertisingTxPowerMax_def sint_add_u8_no_wrap)
qed

text \<open>
  The claim as first stated says the sum is clipped into \<open>[-127, 20]\<close>.  With a requested
  tx power of 10 and a compensation of 20 the sum is 30; the calibrated power is neither
  the clipped sum 20 nor anything else than the requested 10.
\<close>

theorem tx_power_clip_counterexample:
  "sint (get_tx_power_after_calibration 20 10) \<noteq> max (- 127) (min 20 (sint (10 :: u8) + sint (20 :: u8)))"
  by (simp add: get_tx_power_after_calibration_def kLeAdvertisingTxPowerMin_def
      kLeAdvertisingTxPowerMax_def)

section \<open>Properties of writing advertising data\<close>

subsection \<open>Sizes, serialization and the loops over fragments\<close>

lemma length_serialize_elements: "length (serialize_elements data) = total_size data"
  by (induction data) (simp_all add: serialize_elements_def total_size_def GapData_Serialize_def GapData_size_def)

lemma add_sizes_no_wrap:
  "n + total_size data < 65536 \<Longrightarrow> add_sizes data n = n + total_size data"
  by (induction data arbitrary: n) (simp_all add: total_size_def)

lemma check_element_sizes_Some:
  "\<forall>g\<in>set data. GapData_size g \<le> L \<Longrightarrow> n + total_size data < 65536
    \<Longrightarrow> check_element_sizes L data n = Some (n + total_size data)"
  by (induction data arbitrary: n) (simp_all add: total_size_def)

lemma check_element_sizes_None:
  "\<exists>g\<in>set data. GapData_size g > L \<Longrightarrow> check_element_sizes L data n = None"
  by (induction data arbitrary: n) auto

lemma fill_tx_power_sizes:
  "fill_tx_power p data = Inr data' \<Longrightarrow> map GapData_size data' = map GapData_size data"
  by (induction data arbitrary: data') (auto simp: GapData_size_def split: if_splits list.splits sum.splits)

lemma fill_tx_power_ok:
  "\<forall>g\<in>set data. data_type g = TX_POWER_LEVEL \<longrightarrow> data_bytes g \<noteq> [] \<Longrightarrow> \<exists>data'. fill_tx_power p data = Inr data'"
  by (induction data) (auto split: list.splits sum.splits)

lemma FragmentingInserter_concat: "concat (FragmentingInserter mtu bytes) = bytes"
  by (induction mtu bytes rule: FragmentingInserter.induct) (subst FragmentingInserter.simps, simp)

lemma FragmentingInserter_length:
  "0 < mtu \<Longrightarrow> f \<in> set (FragmentingInserter mtu bytes) \<Longrightarrow> length f \<le> mtu"
proof (induction mtu bytes rule: FragmentingInserter.induct)
  case (1 mtu bytes)
  then show ?case
    by (subst (asm) (2) FragmentingInserter.simps) (auto split: if_splits)
qed


lemma FragmentingInserter_count:
  assumes "0 < mtu" and "mtu < length bytes"
  shows "2 \<le> length (FragmentingInserter mtu bytes)"
proof -
  from assms have ne: "bytes \<noteq> []" and ne': "drop mtu bytes \<noteq> []"
    by auto
  have "FragmentingInserter mtu bytes
          = take mtu bytes # FragmentingInserter mtu (drop mtu bytes)"
    using ne assms by (subst FragmentingInserter.simps) (simp add: max_def)
  moreover have "FragmentingInserter mtu (drop mtu bytes) \<noteq> []"
    using ne' by (subst FragmentingInserter.simps) simp
  ultimately show ?thesis
    by (cases "FragmentingInserter mtu (drop mtu bytes)") simp_all
qed

lemma send_raw_fragments_spec:
  "fragments \<noteq> [] \<Longrightarrow>
   \<exists>cmds. send_raw_fragments i rsp fragments operation s = s\<lparr>hci_queue := hci_queue s @ cmds\<rparr>
     \<and> map (\<lambda>c. operation_of (fst c)) cmds
         = (if length fragments = 1 then [Some LAST_FRAGMENT]
            else Some operation # replicate (length fragments - 2) (Some INTERMEDIATE_FRAGMENT)
                   @ [Some LAST_FRAGMENT])
     \<and> map (\<lambda>c. payload (fst c)) cmds = fragments"
proof (induction i rsp fragments operation s rule: send_raw_fragments.induct)
  case (1 advertiser_id set_scan_rsp operation s)
  then show ?case by simp
next
  case (2 advertiser_id set_scan_rsp fragment operation s)
  show ?case
    by (rule exI [of _ "[(if set_scan_rsp
            then LeSetExtendedScanResponseDataRaw advertiser_id LAST_FRAGMENT fragment
            else LeSetExtendedAdvertisingDataRaw advertiser_id LAST_FRAGMENT fragment,
            check_status_with_id True advertiser_id)]"])
       (simp add: send_data_fragment_with_raw_builder_def EnqueueCommand_def)
next
  case (3 advertiser_id set_scan_rsp fragment v va operation s)
  let ?s1 = "send_data_fragment_with_raw_builder advertiser_id set_scan_rsp fragment operation s"
  have "\<exists>cmds. send_raw_fragments advertiser_id set_scan_rsp (v # va) INTERMEDIATE_FRAGMENT ?s1
          = ?s1\<lparr>hci_queue := hci_queue ?s1 @ cmds\<rparr>
      \<and> map (\<lambda>c. operation_of (fst c)) cmds
         = (if length (v # va) = 1 then [Some LAST_FRAGMENT]
            else Some INTERMEDIATE_FRAGMENT # replicate (length (v # va) - 2) (Some INTERMEDIATE_FRAGMENT)
                   @ [Some LAST_FRAGMENT])
      \<and> map (\<lambda>c. payload (fst c)) cmds = v # va"
    by (rule "3.IH") simp
  then obtain cmds where
    c0: "send_raw_fragments advertiser_id set_scan_rsp (v # va) INTERMEDIATE_FRAGMENT ?s1
          = ?s1\<lparr>hci_queue := hci_queue ?s1 @ cmds\<rparr>
      \<and> map (\<lambda>c. operation_of (fst c)) cmds
         = (if length (v # va) = 1 then [Some LAST_FRAGMENT]
            else Some INTERMEDIATE_FRAGMENT # replicate (length (v # va) - 2) (Some INTERMEDIATE_FRAGMENT)
                   @ [Some LAST_FRAGMENT])
      \<and> map (\<lambda>c. payload (fst c)) cmds = v # va" ..
  note c = conjunct1 [OF c0] conjunct1 [OF conjunct2 [OF c0]] conjunct2 [OF conjunct2 [OF c0]]
  let ?c0 = "(if set_scan_rsp
            then LeSetExtendedScanResponseDataRaw advertiser_id operation fragment
            else LeSetExtendedAdvertisingDataRaw advertiser_id operation fragment,
            check_status_with_id (operation = COMPLETE_ADVERTISEMENT \<or> operation = LAST_FRAGMENT) advertiser_id)"
  have s1: "?s1 = s\<lparr>hci_queue := hci_queue s @ [?c0]\<rparr>"
    by (simp add: send_data_fragment_with_raw_builder_def EnqueueCommand_def)
  show ?case
  proof (rule exI [of _ "?c0 # cmds"], intro conjI)
    show "send_raw_fragments advertiser_id set_scan_rsp (fragment # v # va) operation s
            = s\<lparr>hci_queue := hci_queue s @ ?c0 # cmds\<rparr>"
      using c(1) s1 by simp
    show "map (\<lambda>c. operation_of (fst c)) (?c0 # cmds) =
      (if length (fragment # v # va) = 1 then [Some LAST_FRAGMENT]
       else Some operation # replicate (length (fragment # v # va) - 2) (Some INTERMEDIATE_FRAGMENT)
              @ [Some LAST_FRAGMENT])"
      using c(2) by (cases va) simp_all
    show "map (\<lambda>c. payload (fst c)) (?c0 # cmds) = fragment # v # va"
      using c(3) by simp
  qed
qed


lemma send_data_fragment_eq:
  "send_data_fragment e i rsp data operation s
     = s\<lparr>hci_queue := hci_queue s @
          [(if rsp then LeSetExtendedScanResponseData i operation data
            else LeSetExtendedAdvertisingData i operation data,
            if divide_long_single_gap_data e
            then check_status_with_id
                   (operation = COMPLETE_ADVERTISEMENT \<or> operation = LAST_FRAGMENT) i
            else if operation = COMPLETE_ADVERTISEMENT \<or> operation = LAST_FRAGMENT
            then check_status_with_id True i
            else check_complete)]\<rparr>"
  by (simp add: send_data_fragment_def EnqueueCommand_def Let_def)

lemma send_data_fragment_spec:
  "\<exists>c. send_data_fragment e i rsp data operation s = s\<lparr>hci_queue := hci_queue s @ [c]\<rparr>
     \<and> operation_of (fst c) = Some operation \<and> payload (fst c) = serialize_elements data"
  by (rule exI, rule conjI, rule send_data_fragment_eq) simp

lemma total_size_simps [simp]:
  "total_size [] = 0"
  "total_size (d # ds) = GapData_size d + total_size ds"
  "total_size (xs @ ys) = total_size xs + total_size ys"
  by (simp_all add: total_size_def)

lemma serialize_elements_simps [simp]:
  "serialize_elements [] = []"
  "serialize_elements (d # ds) = GapData_Serialize d @ serialize_elements ds"
  "serialize_elements (xs @ ys) = serialize_elements xs @ serialize_elements ys"
  by (simp_all add: serialize_elements_def)

lemma send_element_fragments_spec:
  assumes "sub_data_len = total_size sub_data"
    and "total_size sub_data + total_size ds < 65536"
    and "\<forall>g\<in>set ds. GapData_size g \<le> kLeMaximumFragmentLength e"
    and "total_size sub_data \<le> kLeMaximumFragmentLength e"
  shows "\<exists>cmds n.
      send_element_fragments e i rsp ds sub_data sub_data_len operation s
        = s\<lparr>hci_queue := hci_queue s @ cmds\<rparr>
    \<and> map (\<lambda>c. operation_of (fst c)) cmds
        = (if total_size sub_data + total_size ds > kLeMaximumFragmentLength e
           then Some operation # replicate n (Some INTERMEDIATE_FRAGMENT) @ [Some LAST_FRAGMENT]
           else [Some LAST_FRAGMENT])
    \<and> concat (map (\<lambda>c. payload (fst c)) cmds) = serialize_elements (sub_data @ ds)
    \<and> (\<forall>c\<in>set cmds. length (payload (fst c)) \<le> kLeMaximumFragmentLength e)"
  using assms
proof (induction ds arbitrary: sub_data sub_data_len operation s)
  case Nil
  obtain c where c: "send_data_fragment e i rsp sub_data LAST_FRAGMENT s
        = s\<lparr>hci_queue := hci_queue s @ [c]\<rparr>
     \<and> operation_of (fst c) = Some LAST_FRAGMENT \<and> payload (fst c) = serialize_elements sub_data"
    using send_data_fragment_spec ..
  show ?case
    using c Nil.prems
    by (intro exI [of _ "[c]"] exI [of _ 0]) (simp add: length_serialize_elements)
next
  case (Cons d ds)
  let ?L = "kLeMaximumFragmentLength e"
  show ?case
  proof (cases "sub_data_len + GapData_size d > ?L")
    case True
    obtain c where c: "send_data_fragment e i rsp sub_data operation s
        = s\<lparr>hci_queue := hci_queue s @ [c]\<rparr>
     \<and> operation_of (fst c) = Some operation \<and> payload (fst c) = serialize_elements sub_data"
      using send_data_fragment_spec ..
    let ?s1 = "s\<lparr>hci_queue := hci_queue s @ [c]\<rparr>"
    have "\<exists>cmds n.
      send_element_fragments e i rsp ds [d] (GapData_size d) INTERMEDIATE_FRAGMENT ?s1
        = ?s1\<lparr>hci_queue := hci_queue ?s1 @ cmds\<rparr>
    \<and> map (\<lambda>c. operation_of (fst c)) cmds
        = (if total_size [d] + total_size ds > ?L
           then Some INTERMEDIATE_FRAGMENT # replicate n (Some INTERMEDIATE_FRAGMENT) @ [Some LAST_FRAGMENT]
           else [Some LAST_FRAGMENT])
    \<and> concat (map (\<lambda>c. payload (fst c)) cmds) = serialize_elements ([d] @ ds)
    \<and> (\<forall>c\<in>set cmds. length (payload (fst c)) \<le> ?L)"
      using Cons.prems by (intro Cons.IH) simp_all
    then obtain cmds n where r:
      "send_element_fragments e i rsp ds [d] (GapData_size d) INTERMEDIATE_FRAGMENT ?s1
        = ?s1\<lparr>hci_queue := hci_queue ?s1 @ cmds\<rparr>
    \<and> map (\<lambda>c. operation_of (fst c)) cmds
        = (if total_size [d] + total_size ds > ?L
           then Some INTERMEDIATE_FRAGMENT # replicate n (Some INTERMEDIATE_FRAGMENT) @ [Some LAST_FRAGMENT]
           else [Some LAST_FRAGMENT])
    \<and> concat (map (\<lambda>c. payload (fst c)) cmds) = serialize_elements ([d] @ ds)
    \<and> (\<forall>c\<in>set cmds. length (payload (fst c)) \<le> ?L)"
      by (elim exE)
    have sz: "GapData_size d < 65536"
      using Cons.prems by simp
    have step: "send_element_fragments e i rsp (d # ds) sub_data sub_data_len operation s
        = send_element_fragments e i rsp ds [d] (GapData_size d) INTERMEDIATE_FRAGMENT ?s1"
      using True c sz by simp
    show ?thesis
    proof (intro exI [of _ "c # cmds"]
        exI [of _ "if total_size [d] + total_size ds > ?L then Suc n else 0"] conjI)
      show "send_element_fragments e i rsp (d # ds) sub_data sub_data_len operation s
              = s\<lparr>hci_queue := hci_queue s @ c # cmds\<rparr>"
        using step r by simp
      show "map (\<lambda>c. operation_of (fst c)) (c # cmds) =
        (if ?L < total_size sub_data + total_size (d # ds)
         then Some operation #
              replicate (if ?L < total_size [d] + total_size ds then Suc n else 0)
                (Some INTERMEDIATE_FRAGMENT) @ [Some LAST_FRAGMENT]
         else [Some LAST_FRAGMENT])"
        using True c r Cons.prems(1) by simp
      show "concat (map (\<lambda>c. payload (fst c)) (c # cmds)) = serialize_elements (sub_data @ d # ds)"
        using c r by simp
      show "\<forall>c\<in>set (c # cmds). length (payload (fst c)) \<le> ?L"
        using c r Cons.prems(4) by (simp add: length_serialize_elements)
    qed
  next
    case False
    have sz: "sub_data_len + GapData_size d < 65536"
      using Cons.prems by simp
    have step: "send_element_fragments e i rsp (d # ds) sub_data sub_data_len operation s
        = send_element_fragments e i rsp ds (sub_data @ [d]) (sub_data_len + GapData_size d)
            operation s"
      using False sz by simp
    have "\<exists>cmds n.
      send_element_fragments e i rsp ds (sub_data @ [d]) (sub_data_len + GapData_size d) operation s
        = s\<lparr>hci_queue := hci_queue s @ cmds\<rparr>
    \<and> map (\<lambda>c. operation_of (fst c)) cmds
        = (if total_size (sub_data @ [d]) + total_size ds > ?L
           then Some operation # replicate n (Some INTERMEDIATE_FRAGMENT) @ [Some LAST_FRAGMENT]
           else [Some LAST_FRAGMENT])
    \<and> concat (map (\<lambda>c. payload (fst c)) cmds) = serialize_elements ((sub_data @ [d]) @ ds)
    \<and> (\<forall>c\<in>set cmds. length (payload (fst c)) \<le> ?L)"
      using Cons.prems False by (intro Cons.IH) simp_all
    then obtain cmds n where r:
      "send_element_fragments e i rsp ds (sub_data @ [d]) (sub_data_len + GapData_size d) operation s
        = s\<lparr>hci_queue := hci_queue s @ cmds\<rparr>
    \<and> map (\<lambda>c. operation_of (fst c)) cmds
        = (if total_size (sub_data @ [d]) + total_size ds > ?L
           then Some operation # replicate n (Some INTERMEDIATE_FRAGMENT) @ [Some LAST_FRAGMENT]
           else [Some LAST_FRAGMENT])
    \<and> concat (map (\<lambda>c. payload (fst c)) cmds) = serialize_elements ((sub_data @ [d]) @ ds)
    \<and> (\<forall>c\<in>set cmds. length (payload (fst c)) \<le> ?L)"
      by (elim exE)
    show ?thesis
      unfolding step using r
      by (intro exI [of _ cmds] exI [of _ n]) (simp add: add.assoc)
  qed
qed


subsection \<open>Reads of the advertiser map\<close>

lemma touch_fields [simp]:
  "advertising_api_type (touch i s) = advertising_api_type s"
  "enabled_sets (touch i s) = enabled_sets s"
  "num_instances (touch i s) = num_instances s"
  "id_map (touch i s) = id_map s"
  "paused (touch i s) = paused s"
  "address_manager_registered (touch i s) = address_manager_registered s"
  "le_maximum_advertising_data_length (touch i s) = le_maximum_advertising_data_length s"
  "advertising_callbacks (touch i s) = advertising_callbacks s"
  "hci_queue (touch i s) = hci_queue s"
  "callbacks_fired (touch i s) = callbacks_fired s"
  "rand_calls (touch i s) = rand_calls s"
  by (simp_all add: touch_def update_Advertiser_def)

lemma Advertiser_at_touch [simp]: "Advertiser_at (touch i s) j = Advertiser_at s j"
  by (simp add: touch_def update_Advertiser_def Advertiser_at_def)

lemma touch_present: "advertising_sets s i = Some a \<Longrightarrow> touch i s = s"
  by (simp add: touch_def update_Advertiser_def Advertiser_at_def fun_upd_idem)

lemma with_flags_state:
  "snd (with_flags i rsp data s) = (if rsp then s else touch i s)"
  by (simp add: with_flags_def Let_def)

lemma with_tx_power_state:
  "with_tx_power i data s = Inr (data', s') \<Longrightarrow> s' = (if has_tx_power data then touch i s else s)"
  by (auto simp: with_tx_power_def Let_def split: sum.splits)

lemma prepared_data_set_data:
  assumes "prepared_data i rsp data_in s = Inr data"
  shows "\<exists>data1 s1 s2. with_flags i rsp data_in s = (data1, s1)
     \<and> with_tx_power i data1 s1 = Inr (data, s2)
     \<and> (s2 = s \<or> s2 = touch i s)"
proof -
  obtain data1 s1 where wf: "with_flags i rsp data_in s = (data1, s1)"
    by (cases "with_flags i rsp data_in s")
  from assms wf obtain s2 where tx: "with_tx_power i data1 s1 = Inr (data, s2)"
    by (auto simp: prepared_data_def split: sum.splits)
  have s1: "s1 = (if rsp then s else touch i s)"
    using with_flags_state [of i rsp data_in s] wf by simp
  have s2: "s2 = (if has_tx_power data1 then touch i s1 else s1)"
    using tx by (rule with_tx_power_state)
  have "touch i (touch i s) = touch i s"
    by (simp add: touch_def update_Advertiser_def Advertiser_at_def)
  with s1 s2 have "s2 = s \<or> s2 = touch i s"
    by auto
  with tx wf show ?thesis by simp
qed

subsection \<open>Fragmentation\<close>

lemma set_data_extended_unfold:
  assumes "\<forall>g\<in>set data. GapData_size g \<le> data_limit e"
    and "total_size data < 65536"
  shows "set_data_extended e i rsp data s =
     (let s1 = (if ble_check_data_length_on_legacy_advertising e then touch i s else s)
      in if total_size data > max_data_length e s i
         then advertising_callbacks_call_if_set (data_set_callback rsp i DATA_TOO_LARGE) s1
         else if total_size data \<le> kLeMaximumFragmentLength e
         then send_data_fragment e i rsp data COMPLETE_ADVERTISEMENT s1
         else if divide_long_single_gap_data e
         then send_raw_fragments i rsp
                (FragmentingInserter (kLeMaximumFragmentLength e) (serialize_elements data))
                FIRST_FRAGMENT s1
         else send_element_fragments e i rsp data [] 0 FIRST_FRAGMENT s1)"
proof -
  have "check_element_sizes (data_limit e) data 0 = Some (0 + total_size data)"
    using assms by (intro check_element_sizes_Some) simp_all
  then show ?thesis
    by (simp add: set_data_extended_def data_limit_def max_data_length_def Let_def
        serialize_elements_def)
qed

lemma set_data_extended_fragments:
  assumes sizes: "\<forall>g\<in>set data. GapData_size g \<le> data_limit e"
    and large: "kLeMaximumFragmentLength e < total_size data"
    and fits: "total_size data \<le> max_data_length e s i"
    and nowrap: "total_size data < 65536"
    and pos: "0 < kLeMaximumFragmentLength e"
    and base: "hci_queue s = q" "callbacks_fired s = cb"
  shows "\<exists>cmds n.
      hci_queue (set_data_extended e i rsp data s) = q @ cmds
    \<and> callbacks_fired (set_data_extended e i rsp data s) = cb
    \<and> map (\<lambda>c. operation_of (fst c)) cmds
        = Some FIRST_FRAGMENT # replicate n (Some INTERMEDIATE_FRAGMENT) @ [Some LAST_FRAGMENT]
    \<and> (\<forall>c\<in>set cmds. length (payload (fst c)) \<le> kLeMaximumFragmentLength e)
    \<and> concat (map (\<lambda>c. payload (fst c)) cmds) = serialize_elements data"
proof -
  let ?L = "kLeMaximumFragmentLength e"
  let ?s1 = "if ble_check_data_length_on_legacy_advertising e then touch i s else s"
  have s1: "hci_queue ?s1 = q" "callbacks_fired ?s1 = cb"
    using base by simp_all
  show ?thesis
  proof (cases "divide_long_single_gap_data e")
    case True
    let ?frags = "FragmentingInserter ?L (serialize_elements data)"
    have eq: "set_data_extended e i rsp data s
                = send_raw_fragments i rsp ?frags FIRST_FRAGMENT ?s1"
      using large fits True
      by (simp add: set_data_extended_unfold [OF sizes nowrap] Let_def)
    have count: "2 \<le> length ?frags"
      using pos large by (intro FragmentingInserter_count) (simp_all add: length_serialize_elements)
    then have "?frags \<noteq> []" by auto
    from send_raw_fragments_spec [OF this, of i rsp FIRST_FRAGMENT ?s1]
    obtain cmds where r:
      "send_raw_fragments i rsp ?frags FIRST_FRAGMENT ?s1 = ?s1\<lparr>hci_queue := hci_queue ?s1 @ cmds\<rparr>
     \<and> map (\<lambda>c. operation_of (fst c)) cmds
         = (if length ?frags = 1 then [Some LAST_FRAGMENT]
            else Some FIRST_FRAGMENT # replicate (length ?frags - 2) (Some INTERMEDIATE_FRAGMENT)
                   @ [Some LAST_FRAGMENT])
     \<and> map (\<lambda>c. payload (fst c)) cmds = ?frags" ..
    have lens: "\<forall>c\<in>set cmds. length (payload (fst c)) \<le> ?L"
    proof
      fix c assume "c \<in> set cmds"
      then have "payload (fst c) \<in> set (map (\<lambda>c. payload (fst c)) cmds)"
        by simp
      then have "payload (fst c) \<in> set ?frags"
        using r by simp
      then show "length (payload (fst c)) \<le> ?L"
        using pos by (intro FragmentingInserter_length)
    qed
    show ?thesis
      unfolding eq using r count lens s1
      by (intro exI [of _ cmds] exI [of _ "length ?frags - 2"])
         (simp add: FragmentingInserter_concat)
  next
    case False
    have eq: "set_data_extended e i rsp data s
                = send_element_fragments e i rsp data [] 0 FIRST_FRAGMENT ?s1"
      using large fits False
      by (simp add: set_data_extended_unfold [OF sizes nowrap] Let_def)
    have "\<exists>cmds n.
      send_element_fragments e i rsp data [] 0 FIRST_FRAGMENT ?s1
        = ?s1\<lparr>hci_queue := hci_queue ?s1 @ cmds\<rparr>
    \<and> map (\<lambda>c. operation_of (fst c)) cmds
        = (if total_size [] + total_size data > ?L
           then Some FIRST_FRAGMENT # replicate n (Some INTERMEDIATE_FRAGMENT) @ [Some LAST_FRAGMENT]
           else [Some LAST_FRAGMENT])
    \<and> concat (map (\<lambda>c. payload (fst c)) cmds) = serialize_elements ([] @ data)
    \<and> (\<forall>c\<in>set cmds. length (payload (fst c)) \<le> ?L)"
      using sizes nowrap False by (intro send_element_fragments_spec) (simp_all add: data_limit_def)
    then obtain cmds n where r:
      "send_element_fragments e i rsp data [] 0 FIRST_FRAGMENT ?s1
        = ?s1\<lparr>hci_queue := hci_queue ?s1 @ cmds\<rparr>
    \<and> map (\<lambda>c. operation_of (fst c)) cmds
        = (if total_size [] + total_size data > ?L
           then Some FIRST_FRAGMENT # replicate n (Some INTERMEDIATE_FRAGMENT) @ [Some LAST_FRAGMENT]
           else [Some LAST_FRAGMENT])
    \<and> concat (map (\<lambda>c. payload (fst c)) cmds) = serialize_elements ([] @ data)
    \<and> (\<forall>c\<in>set cmds. length (payload (fst c)) \<le> ?L)"
      by (elim exE)
    show ?thesis
      unfolding eq using r large s1
      by (intro exI [of _ cmds] exI [of _ n]) simp
  qed
qed

lemma max_data_length_touch [simp]: "max_data_length e (touch i s) j = max_data_length e s j"
  by (simp add: max_data_length_def)

text \<open>
  C5 (as amended).  Under the extended API, let \<open>data\<close> be the element list that
  \<^verbatim>\<open>set_data\<close> goes on with: the argument with the flags element put in front (for
  advertising data of a connectable, discoverable set without flags) and the tx power
  filled in.  When every element is within the element limit and the total length is
  above the fragment limit, within the data limit and below \<open>2\<^sup>1\<^sup>6\<close>, \<^verbatim>\<open>set_data\<close>
  enqueues a \<^verbatim>\<open>FIRST_FRAGMENT\<close>, then \<^verbatim>\<open>INTERMEDIATE_FRAGMENT\<close>s, then a
  \<^verbatim>\<open>LAST_FRAGMENT\<close>, each of at most the fragment limit, whose payloads in order are the
  serialization of \<open>data\<close>, and it fires no callback.  On the path of the flag
  \<^verbatim>\<open>divide_long_single_gap_data\<close> the split is the one of \<^const>\<open>FragmentingInserter\<close>.
\<close>

theorem set_data_fragmentation:
  assumes ext: "advertising_api_type s = EXTENDED"
    and prep: "prepared_data advertiser_id set_scan_rsp data_in s = Inr data"
    and sizes: "\<forall>g\<in>set data. GapData_size g \<le> data_limit e"
    and large: "kLeMaximumFragmentLength e < total_size data"
    and fits: "total_size data \<le> max_data_length e s advertiser_id"
    and nowrap: "total_size data < 65536"
    and pos: "0 < kLeMaximumFragmentLength e"
  shows "\<exists>s' cmds n.
      set_data e advertiser_id set_scan_rsp data_in s = Inr s'
    \<and> hci_queue s' = hci_queue s @ cmds
    \<and> callbacks_fired s' = callbacks_fired s
    \<and> map (\<lambda>c. operation_of (fst c)) cmds
        = Some FIRST_FRAGMENT # replicate n (Some INTERMEDIATE_FRAGMENT) @ [Some LAST_FRAGMENT]
    \<and> (\<forall>c\<in>set cmds. length (payload (fst c)) \<le> kLeMaximumFragmentLength e)
    \<and> concat (map (\<lambda>c. payload (fst c)) cmds) = serialize_elements data"
proof -
  from prepared_data_set_data [OF prep] obtain data1 s1 s2 where
    wf: "with_flags advertiser_id set_scan_rsp data_in s = (data1, s1)"
    and tx: "with_tx_power advertiser_id data1 s1 = Inr (data, s2)"
    and s2: "s2 = s \<or> s2 = touch advertiser_id s"
    by (elim exE conjE)
  have s2f: "advertising_api_type s2 = EXTENDED" "hci_queue s2 = hci_queue s"
    "callbacks_fired s2 = callbacks_fired s"
    "max_data_length e s2 advertiser_id = max_data_length e s advertiser_id"
    using s2 ext by auto
  have eq: "set_data e advertiser_id set_scan_rsp data_in s
              = Inr (set_data_extended e advertiser_id set_scan_rsp data s2)"
    using s2f(1) by (simp add: set_data_def wf tx)
  have "\<exists>cmds n.
      hci_queue (set_data_extended e advertiser_id set_scan_rsp data s2) = hci_queue s @ cmds
    \<and> callbacks_fired (set_data_extended e advertiser_id set_scan_rsp data s2) = callbacks_fired s
    \<and> map (\<lambda>c. operation_of (fst c)) cmds
        = Some FIRST_FRAGMENT # replicate n (Some INTERMEDIATE_FRAGMENT) @ [Some LAST_FRAGMENT]
    \<and> (\<forall>c\<in>set cmds. length (payload (fst c)) \<le> kLeMaximumFragmentLength e)
    \<and> concat (map (\<lambda>c. payload (fst c)) cmds) = serialize_elements data"
    using sizes large fits nowrap pos s2f
    by (intro set_data_extended_fragments) simp_all
  then show ?thesis
    unfolding eq by (intro exI [of _ "set_data_extended e advertiser_id set_scan_rsp data s2"]) simp
qed


subsection \<open>The length gate\<close>

lemma with_flags_data:
  "fst (with_flags i rsp data s)
     = (if \<not> rsp \<and> connectable (Advertiser_at s i) \<and> discoverable (Advertiser_at s i)
           \<and> \<not> data_has_flags data
        then flags_element (duration (Advertiser_at s i)) # data else data)"
  by (simp add: with_flags_def Let_def)

lemma GapData_size_flags_element [simp]: "GapData_size (flags_element d) = kLenOfFlags"
  by (simp add: GapData_size_def flags_element_def kLenOfFlags_def)

lemma fill_tx_power_total:
  "fill_tx_power p data = Inr data' \<Longrightarrow> total_size data' = total_size data"
  by (simp add: total_size_def fill_tx_power_sizes)

lemma fill_tx_power_bound:
  assumes "fill_tx_power p data = Inr data'" and "\<forall>g\<in>set data. GapData_size g \<le> L"
  shows "\<forall>g\<in>set data'. GapData_size g \<le> L"
proof -
  have "set (map GapData_size data') = set (map GapData_size data)"
    using assms(1) by (simp add: fill_tx_power_sizes)
  then have "GapData_size ` set data' = GapData_size ` set data"
    by simp
  with assms(2) show ?thesis
    by (metis image_iff)
qed

lemma prepared_data_total:
  assumes "\<forall>g\<in>set data_in. data_type g = TX_POWER_LEVEL \<longrightarrow> data_bytes g \<noteq> []"
    and "\<forall>g\<in>set data_in. GapData_size g \<le> L" and "kLenOfFlags \<le> L"
  shows "\<exists>data. prepared_data i rsp data_in s = Inr data
     \<and> total_size data_in \<le> total_size data
     \<and> total_size data \<le> total_size data_in + kLenOfFlags
     \<and> (\<forall>g\<in>set data. GapData_size g \<le> L)"
proof -
  obtain data1 s1 where wf: "with_flags i rsp data_in s = (data1, s1)"
    by (cases "with_flags i rsp data_in s")
  have d1: "data1 = data_in \<or> (\<exists>d. data1 = flags_element d # data_in)"
    using with_flags_data [of i rsp data_in s] wf by (auto split: if_splits)
  have flags_tx: "data_type (flags_element d) \<noteq> TX_POWER_LEVEL" for d
    by (simp add: flags_element_def FLAGS_def TX_POWER_LEVEL_def)
  have ok: "\<forall>g\<in>set data1. data_type g = TX_POWER_LEVEL \<longrightarrow> data_bytes g \<noteq> []"
    using d1 assms(1) flags_tx by auto
  have b1: "\<forall>g\<in>set data1. GapData_size g \<le> L"
    using d1 assms(2,3) by auto
  have t1: "total_size data_in \<le> total_size data1" "total_size data1 \<le> total_size data_in + kLenOfFlags"
    using d1 by auto
  let ?s2 = "if has_tx_power data1 then touch i s1 else s1"
  obtain data where f: "fill_tx_power (tx_power (Advertiser_at ?s2 i)) data1 = Inr data"
    using fill_tx_power_ok [OF ok] by blast
  have "prepared_data i rsp data_in s = Inr data"
    using wf f by (simp add: prepared_data_def with_tx_power_def Let_def)
  moreover have "total_size data = total_size data1"
    using f by (rule fill_tx_power_total)
  moreover have "\<forall>g\<in>set data. GapData_size g \<le> L"
    using f b1 by (rule fill_tx_power_bound)
  ultimately show ?thesis
    using t1 by auto
qed

text \<open>
  C4 (as amended).  Under the extended API, for an advertiser that exists: when every
  element is within the element limit (and the flags element is), the total length is
  above the controller's maximum and below \<open>2\<^sup>1\<^sup>6\<close>, and the limit in force is not above
  the controller's maximum, \<^verbatim>\<open>set_data\<close> enqueues no HCI command and leaves the state
  as it is, but for the callback \<^verbatim>\<open>OnScanResponseDataSet\<close> or \<^verbatim>\<open>OnAdvertisingDataSet\<close>
  with \<^verbatim>\<open>DATA_TOO_LARGE\<close>, which fires when callbacks are registered.
\<close>

theorem set_data_length_gate:
  assumes ext: "advertising_api_type s = EXTENDED"
    and present: "advertising_sets s advertiser_id = Some a"
    and tx_ok: "\<forall>g\<in>set data_in. data_type g = TX_POWER_LEVEL \<longrightarrow> data_bytes g \<noteq> []"
    and sizes: "\<forall>g\<in>set data_in. GapData_size g \<le> data_limit e"
    and flags_fit: "kLenOfFlags \<le> data_limit e"
    and large: "le_maximum_advertising_data_length s < total_size data_in"
    and cap: "max_data_length e s advertiser_id \<le> le_maximum_advertising_data_length s"
    and nowrap: "total_size data_in + kLenOfFlags < 65536"
  shows "set_data e advertiser_id set_scan_rsp data_in s
     = Inr (if advertising_callbacks s
            then s\<lparr>callbacks_fired := callbacks_fired s
                      @ [data_set_callback set_scan_rsp advertiser_id DATA_TOO_LARGE]\<rparr>
            else s)"
proof -
  from prepared_data_total [OF tx_ok sizes flags_fit, of advertiser_id set_scan_rsp s]
  obtain data where prep: "prepared_data advertiser_id set_scan_rsp data_in s = Inr data"
    and lower: "total_size data_in \<le> total_size data"
    and upper: "total_size data \<le> total_size data_in + kLenOfFlags"
    and bound: "\<forall>g\<in>set data. GapData_size g \<le> data_limit e"
    by (elim exE conjE)
  from prepared_data_set_data [OF prep] obtain data1 s1 s2 where
    wf: "with_flags advertiser_id set_scan_rsp data_in s = (data1, s1)"
    and tx: "with_tx_power advertiser_id data1 s1 = Inr (data, s2)"
    and s2: "s2 = s \<or> s2 = touch advertiser_id s"
    by (elim exE conjE)
  have t: "touch advertiser_id s = s"
    using present by (rule touch_present)
  have s2': "s2 = s"
    using s2 t by auto
  have nw: "total_size data < 65536"
    using upper nowrap by simp
  have gt: "max_data_length e s advertiser_id < total_size data"
    using large cap lower by simp
  have "set_data_extended e advertiser_id set_scan_rsp data s
          = advertising_callbacks_call_if_set
              (data_set_callback set_scan_rsp advertiser_id DATA_TOO_LARGE) s"
    using gt t by (simp add: set_data_extended_unfold [OF bound nw] Let_def)
  then show ?thesis
    using ext by (simp add: set_data_def wf tx s2' advertising_callbacks_call_if_set_def fire_def)
qed

subsection \<open>The example inputs\<close>

lemma example_advertiser_at: "advertising_sets example_impl 0 = Some example_advertiser"
  by (simp add: example_impl_def)

lemma example_touch [simp]: "touch 0 example_impl = example_impl"
  using example_advertiser_at by (rule touch_present)

lemma example_Advertiser_at [simp]: "Advertiser_at example_impl 0 = example_advertiser"
  by (simp add: Advertiser_at_def example_advertiser_at)

lemma example_advertiser_fields [simp]:
  "connectable example_advertiser" "discoverable example_advertiser"
  "duration example_advertiser = 0" "tx_power example_advertiser = 0"
  "\<not> is_legacy example_advertiser"
  by (simp_all add: example_advertiser_def Advertiser_default_def)

lemma example_elements [simp]:
  "data_type element_of_200 = 0xFF" "GapData_size element_of_200 = 202"
  "data_type element_of_251 = 0xFF" "GapData_size element_of_251 = 253"
  "data_type (flags_element d) = 1"
  by (simp_all add: element_of_200_def element_of_251_def GapData_size_def flags_element_def
      FLAGS_def)

lemma example_prepared:
  "prepared_data 0 False [element_of_200, element_of_200] example_impl
     = Inr [flags_element 0, element_of_200, element_of_200]"
  by (simp add: prepared_data_def with_flags_def with_tx_power_def has_tx_power_def Let_def
      FLAGS_def TX_POWER_LEVEL_def)

lemma example_impl_fields [simp]:
  "advertising_api_type example_impl = EXTENDED"
  "le_maximum_advertising_data_length example_impl = 1650"
  "advertising_callbacks example_impl"
  "hci_queue example_impl = []"
  "callbacks_fired example_impl = []"
  "\<not> paused example_impl"
  by (simp_all add: example_impl_def)

lemma example_environment_fields [simp]:
  "kLeMaximumFragmentLength example_environment = 252"
  "kLeMaximumGapDataLength example_environment = 254"
  "\<not> divide_long_single_gap_data example_environment"
  "\<not> ble_check_data_length_on_legacy_advertising example_environment"
  by (simp_all add: example_environment_def)

text \<open>The fragmentation theorem at two elements of 202 bytes for the example set, which
  is connectable and discoverable: the flags element comes first.\<close>

theorem set_data_fragmentation_witness:
  "prepared_data 0 False [element_of_200, element_of_200] example_impl
     = Inr [flags_element 0, element_of_200, element_of_200]
   \<and> kLeMaximumFragmentLength example_environment
       < total_size [flags_element 0, element_of_200, element_of_200]
   \<and> (\<exists>s' cmds n.
        set_data example_environment 0 False [element_of_200, element_of_200] example_impl = Inr s'
      \<and> hci_queue s' = hci_queue example_impl @ cmds
      \<and> callbacks_fired s' = callbacks_fired example_impl
      \<and> map (\<lambda>c. operation_of (fst c)) cmds
          = Some FIRST_FRAGMENT # replicate n (Some INTERMEDIATE_FRAGMENT) @ [Some LAST_FRAGMENT]
      \<and> (\<forall>c\<in>set cmds. length (payload (fst c)) \<le> kLeMaximumFragmentLength example_environment)
      \<and> concat (map (\<lambda>c. payload (fst c)) cmds)
          = serialize_elements [flags_element 0, element_of_200, element_of_200])"
proof -
  have sizes: "\<forall>g\<in>set [flags_element 0, element_of_200, element_of_200].
      GapData_size g \<le> data_limit example_environment"
    by (simp add: data_limit_def kLenOfFlags_def)
  have large: "kLeMaximumFragmentLength example_environment
       < total_size [flags_element 0, element_of_200, element_of_200]"
    by (simp add: kLenOfFlags_def)
  have fits: "total_size [flags_element 0, element_of_200, element_of_200]
      \<le> max_data_length example_environment example_impl 0"
    by (simp add: max_data_length_def kLenOfFlags_def)
  have nowrap: "total_size [flags_element 0, element_of_200, element_of_200] < 65536"
    by (simp add: kLenOfFlags_def)
  have pos: "0 < kLeMaximumFragmentLength example_environment"
    by simp
  have ext: "advertising_api_type example_impl = EXTENDED"
    by simp
  show ?thesis
    using set_data_fragmentation [OF ext example_prepared sizes large fits nowrap pos]
      example_prepared large
    by (intro conjI)
qed

text \<open>
  C5 as first stated speaks of the serialization of the original element list.  For the
  two elements of 202 bytes the first fragment starts with the flags element, and the
  payloads together are not the serialization of the two elements.
\<close>

theorem set_data_flags_counterexample:
  "set_data example_environment 0 False [element_of_200, element_of_200] example_impl
     = Inr (example_impl\<lparr>hci_queue :=
              [(LeSetExtendedAdvertisingData 0 FIRST_FRAGMENT [flags_element 0, element_of_200],
                check_complete),
               (LeSetExtendedAdvertisingData 0 LAST_FRAGMENT [element_of_200],
                check_status_with_id True 0)]\<rparr>)
   \<and> serialize_elements [flags_element 0, element_of_200] @ serialize_elements [element_of_200]
       \<noteq> serialize_elements [element_of_200, element_of_200]"
proof
  have "set_data example_environment 0 False [element_of_200, element_of_200] example_impl
     = Inr (set_data_extended example_environment 0 False
              [flags_element 0, element_of_200, element_of_200] example_impl)"
    by (simp add: set_data_def with_flags_def with_tx_power_def has_tx_power_def Let_def
      FLAGS_def TX_POWER_LEVEL_def)
  also have "set_data_extended example_environment 0 False
              [flags_element 0, element_of_200, element_of_200] example_impl
     = example_impl\<lparr>hci_queue :=
              [(LeSetExtendedAdvertisingData 0 FIRST_FRAGMENT [flags_element 0, element_of_200],
                check_complete),
               (LeSetExtendedAdvertisingData 0 LAST_FRAGMENT [element_of_200],
                check_status_with_id True 0)]\<rparr>"
    by (simp add: set_data_extended_def Let_def kLenOfFlags_def send_data_fragment_def
        EnqueueCommand_def)
  finally show "set_data example_environment 0 False [element_of_200, element_of_200] example_impl
     = Inr (example_impl\<lparr>hci_queue :=
              [(LeSetExtendedAdvertisingData 0 FIRST_FRAGMENT [flags_element 0, element_of_200],
                check_complete),
               (LeSetExtendedAdvertisingData 0 LAST_FRAGMENT [element_of_200],
                check_status_with_id True 0)]\<rparr>)" .
next
  have a: "length (serialize_elements [flags_element 0, element_of_200] @ serialize_elements [element_of_200])
      = 407"
    by (simp only: length_append length_serialize_elements) (simp add: kLenOfFlags_def)
  have b: "length (serialize_elements [element_of_200, element_of_200]) = 404"
    by (simp only: length_serialize_elements) simp
  show "serialize_elements [flags_element 0, element_of_200] @ serialize_elements [element_of_200]
       \<noteq> serialize_elements [element_of_200, element_of_200]"
  proof
    assume "serialize_elements [flags_element 0, element_of_200] @ serialize_elements [element_of_200]
       = serialize_elements [element_of_200, element_of_200]"
    then have "length (serialize_elements [flags_element 0, element_of_200] @ serialize_elements [element_of_200])
       = length (serialize_elements [element_of_200, element_of_200])"
      by (rule arg_cong)
    then show False
      unfolding a b by simp
  qed
qed


text \<open>The length gate at two elements of 202 bytes and a controller maximum of 200.\<close>

theorem set_data_length_gate_witness:
  "le_maximum_advertising_data_length (example_impl\<lparr>le_maximum_advertising_data_length := 200\<rparr>)
     < total_size [element_of_200, element_of_200]
   \<and> set_data example_environment 0 True [element_of_200, element_of_200]
        (example_impl\<lparr>le_maximum_advertising_data_length := 200\<rparr>)
     = Inr (example_impl\<lparr>le_maximum_advertising_data_length := 200,
                         callbacks_fired := [OnScanResponseDataSet 0 DATA_TOO_LARGE]\<rparr>)"
proof -
  let ?s = "example_impl\<lparr>le_maximum_advertising_data_length := 200\<rparr>"
  have ext: "advertising_api_type ?s = EXTENDED"
    by simp
  have present: "advertising_sets ?s 0 = Some example_advertiser"
    by (simp add: example_impl_def)
  have tx_ok: "\<forall>g\<in>set [element_of_200, element_of_200].
      data_type g = TX_POWER_LEVEL \<longrightarrow> data_bytes g \<noteq> []"
    by (simp add: TX_POWER_LEVEL_def)
  have sizes: "\<forall>g\<in>set [element_of_200, element_of_200].
      GapData_size g \<le> data_limit example_environment"
    by (simp add: data_limit_def)
  have flags_fit: "kLenOfFlags \<le> data_limit example_environment"
    by (simp add: data_limit_def kLenOfFlags_def)
  have large: "le_maximum_advertising_data_length ?s < total_size [element_of_200, element_of_200]"
    by simp
  have cap: "max_data_length example_environment ?s 0 \<le> le_maximum_advertising_data_length ?s"
    by (simp add: max_data_length_def)
  have nowrap: "total_size [element_of_200, element_of_200] + kLenOfFlags < 65536"
    by (simp add: kLenOfFlags_def)
  show ?thesis
    using set_data_length_gate [OF ext present tx_ok sizes flags_fit large cap nowrap, of True] large
    by (simp add: data_set_callback_def)
qed

text \<open>
  C4 as first stated promises \<^verbatim>\<open>DATA_TOO_LARGE\<close> whenever the total length exceeds the
  controller's maximum.  A single element of 253 bytes exceeds a maximum of 200, and the
  callback carries \<^verbatim>\<open>INTERNAL_ERROR\<close>: the element is larger than the element limit.
\<close>

theorem set_data_single_element_counterexample:
  "le_maximum_advertising_data_length (example_impl\<lparr>le_maximum_advertising_data_length := 200\<rparr>)
     < total_size [element_of_251]
   \<and> set_data example_environment 0 True [element_of_251]
        (example_impl\<lparr>le_maximum_advertising_data_length := 200\<rparr>)
     = Inr (example_impl\<lparr>le_maximum_advertising_data_length := 200,
                         callbacks_fired := [OnScanResponseDataSet 0 INTERNAL_ERROR]\<rparr>)"
  by (simp add: set_data_def with_flags_def with_tx_power_def has_tx_power_def
      TX_POWER_LEVEL_def set_data_extended_def Let_def advertising_callbacks_call_if_set_def
      fire_def data_set_callback_def)

section \<open>Properties of encrypted advertising data\<close>


lemma length_buffer_after_write [simp]: "length (buffer_after_write n written) = n"
  by (simp add: buffer_after_write_def)





section \<open>Properties of the address rotation\<close>

subsection \<open>Steps that set no random address\<close>

lemma quiet_refl [intro!, simp]: "quiet_step i s s"
  by (simp add: quiet_step_def)

lemma quiet_trans: "quiet_step i s s1 \<Longrightarrow> quiet_step i s1 s2 \<Longrightarrow> quiet_step i s s2"
  unfolding quiet_step_def
  by (elim conjE exE, intro conjI) (rule exI [where x = "_ @ _"], auto)

lemma Advertiser_at_queue [simp]:
  "Advertiser_at (s\<lparr>hci_queue := q\<rparr>) j = Advertiser_at s j"
  "Advertiser_at (s\<lparr>callbacks_fired := cb\<rparr>) j = Advertiser_at s j"
  "Advertiser_at (s\<lparr>enabled_sets := es\<rparr>) j = Advertiser_at s j"
  "Advertiser_at (s\<lparr>rand_calls := k\<rparr>) j = Advertiser_at s j"
  "Advertiser_at (s\<lparr>id_map := m\<rparr>) j = Advertiser_at s j"
  by (simp_all add: Advertiser_at_def)

lemma quiet_Enqueue:
  "\<not> is_set_random_address c \<Longrightarrow> quiet_step i s (EnqueueCommand c h s)"
  by (simp add: quiet_step_def EnqueueCommand_def)

lemma Advertiser_at_update:
  "Advertiser_at (update_Advertiser j f s) i = (if i = j then f (Advertiser_at s j) else Advertiser_at s i)"
  by (simp add: update_Advertiser_def Advertiser_at_def)

lemma quiet_update:
  "(\<And>a. connectable (f a) = connectable a
        \<and> address_rotation_alarm (f a) = address_rotation_alarm a)
   \<Longrightarrow> quiet_step i s (update_Advertiser j f s)"
  by (simp add: quiet_step_def Advertiser_at_update) (simp add: update_Advertiser_def)

lemma quiet_touch: "quiet_step i s (touch j s)"
  unfolding touch_def by (rule quiet_update) simp

lemma quiet_fire: "quiet_step i s (fire c s)"
  by (simp add: quiet_step_def fire_def)

lemma quiet_enabled_sets: "quiet_step i s (s\<lparr>enabled_sets := es\<rparr>)"
  by (simp add: quiet_step_def)

lemma quiet_rand_calls: "quiet_step i s (s\<lparr>rand_calls := k\<rparr>)"
  by (simp add: quiet_step_def)

lemma quiet_call_if_set: "quiet_step i s (advertising_callbacks_call_if_set c s)"
  by (simp add: advertising_callbacks_call_if_set_def quiet_fire)

lemma quiet_call: "advertising_callbacks_call c s = Inr s' \<Longrightarrow> quiet_step i s s'"
  by (auto simp: advertising_callbacks_call_def quiet_fire split: if_splits)

lemma quiet_send_data_fragment: "quiet_step i s (send_data_fragment e j rsp data operation s)"
  by (simp add: send_data_fragment_def Let_def quiet_Enqueue)

lemma quiet_send_raw: "quiet_step i s (send_data_fragment_with_raw_builder j rsp data operation s)"
  by (simp add: send_data_fragment_with_raw_builder_def Let_def quiet_Enqueue)

lemma quiet_send_periodic: "quiet_step i s (send_periodic_data_fragment e j data operation s)"
  by (simp add: send_periodic_data_fragment_def Let_def quiet_Enqueue)

lemma quiet_send_periodic_raw:
  "quiet_step i s (send_periodic_data_fragment_with_raw_builder j data operation s)"
  by (simp add: send_periodic_data_fragment_with_raw_builder_def Let_def quiet_Enqueue)

lemma quiet_enable_periodic: "quiet_step i s (enable_periodic_advertising e j en adi s)"
  by (simp add: enable_periodic_advertising_def Let_def quiet_Enqueue)

lemma quiet_send_raw_fragments: "quiet_step i s (send_raw_fragments j rsp frags operation s)"
proof (induction j rsp frags operation s rule: send_raw_fragments.induct)
  case (3 advertiser_id set_scan_rsp fragment v va operation s)
  show ?case
    using quiet_send_raw "3.IH" by (simp only: send_raw_fragments.simps) (rule quiet_trans)
qed (simp_all add: quiet_send_raw)

lemma quiet_send_periodic_raw_fragments:
  "quiet_step i s (send_periodic_raw_fragments j frags operation s)"
proof (induction j frags operation s rule: send_periodic_raw_fragments.induct)
  case (3 advertiser_id fragment v va operation s)
  show ?case
    using quiet_send_periodic_raw "3.IH"
    by (simp only: send_periodic_raw_fragments.simps) (rule quiet_trans)
qed (simp_all add: quiet_send_periodic_raw)

lemma quiet_send_element_fragments:
  "quiet_step i s (send_element_fragments e j rsp ds sub_data sub_data_len operation s)"
proof (induction ds arbitrary: sub_data sub_data_len operation s)
  case Nil
  show ?case by (simp add: quiet_send_data_fragment)
next
  case (Cons d ds)
  show ?case
    using quiet_trans [OF quiet_send_data_fragment Cons.IH] Cons.IH by simp
qed

lemma quiet_send_periodic_element_fragments:
  "quiet_step i s (send_periodic_element_fragments e j ds sub_data sub_data_len operation s)"
proof (induction ds arbitrary: sub_data sub_data_len operation s)
  case Nil
  show ?case by (simp add: quiet_send_periodic)
next
  case (Cons d ds)
  show ?case
    using quiet_trans [OF quiet_send_periodic Cons.IH] Cons.IH by simp
qed


lemma quiet_enable_advertiser: "quiet_step i s (enable_advertiser e j True d m s)"
  by (cases "advertising_api_type s")
     (simp_all add: enable_advertiser_def Let_def quiet_step_def EnqueueCommand_def
        update_Advertiser_def Advertiser_at_def)

lemma quiet_enable_if_not_started: "quiet_step i s (enable_if_not_started e j s)"
  by (simp add: enable_if_not_started_def Let_def quiet_enable_advertiser quiet_enabled_sets)

lemma quiet_chained_enable: "quiet_step i s (chained_enable en j s)"
  by (simp add: chained_enable_def Let_def quiet_Enqueue)

lemma quiet_new_randomizer: "quiet_step i s (new_randomizer e j s)"
proof -
  have "quiet_step i (s\<lparr>rand_calls := Suc (rand_calls s)\<rparr>) (new_randomizer e j s)"
    unfolding new_randomizer_def Let_def by (rule quiet_update) simp
  with quiet_rand_calls show ?thesis
    by (rule quiet_trans)
qed

lemma quiet_with_flags: "with_flags j rsp data s = (data', s') \<Longrightarrow> quiet_step i s s'"
  by (auto simp: with_flags_def Let_def quiet_touch split: if_splits)

lemma quiet_with_tx_power: "with_tx_power j data s = Inr (data', s') \<Longrightarrow> quiet_step i s s'"
  by (auto simp: with_tx_power_def Let_def quiet_touch split: if_splits sum.splits)

lemma quiet_set_enc_data_extended: "quiet_step i s (set_enc_data_extended e j rsp data s)"
proof -
  have frag: "quiet_step i s
      (let s1 = (if c then chained_enable DISABLED j s else s);
           s2 = send_raw_fragments j rsp frags FIRST_FRAGMENT s1
       in if c then chained_enable ENABLED j s2 else s2)" for c frags
    unfolding Let_def
    by (cases c)
       (simp_all add: quiet_send_raw_fragments
          quiet_trans [OF quiet_chained_enable
            quiet_trans [OF quiet_send_raw_fragments quiet_chained_enable]])
  show ?thesis
    unfolding set_enc_data_extended_def
    by (simp add: quiet_call_if_set quiet_send_data_fragment frag [unfolded Let_def] Let_def
        split: option.splits)
qed

lemma quiet_encrypted_advertising_complete_extended:
  "quiet_step i s (fst (encrypted_advertising_complete_extended e j rsp data s))"
proof -
  have frag: "quiet_step i s
      (let s1 = (if c then chained_enable DISABLED j s else s);
           s2 = send_element_fragments e j rsp data [] 0 FIRST_FRAGMENT s1
       in if c then chained_enable ENABLED j s2 else s2)" for c
    unfolding Let_def
    by (cases c)
       (simp_all add: quiet_send_element_fragments
          quiet_trans [OF quiet_chained_enable
            quiet_trans [OF quiet_send_element_fragments quiet_chained_enable]])
  show ?thesis
    unfolding encrypted_advertising_complete_extended_def
    by (simp add: quiet_call_if_set quiet_send_data_fragment frag [unfolded Let_def] Let_def
        split: option.splits)
qed

lemma quiet_encrypted_advertising_complete:
  assumes "encrypted_advertising_complete e j rsp data data_encrypt s = Inr s'"
  shows "quiet_step i s s'"
proof -
  let ?s = "new_randomizer e j s"
  from assms obtain Encr_Data where sealed: "seal e j data_encrypt ?s = Inr Encr_Data"
    by (auto simp: encrypted_advertising_complete_def Let_def split: sum.splits)
  let ?data = "data @ [Encr_Data]"
  have "quiet_step i ?s s'"
  proof (cases "advertising_api_type ?s \<noteq> EXTENDED \<and> \<not> check_advertising_data ?s ?data False")
    case True
    with assms sealed
    have "advertising_callbacks_call (data_set_callback rsp j DATA_TOO_LARGE) ?s = Inr s'"
      by (simp add: encrypted_advertising_complete_def Let_def)
    then show ?thesis by (rule quiet_call)
  next
    case False
    show ?thesis
    proof (cases "advertising_api_type ?s")
      case LEGACY
      with assms sealed False
      have "s' = enable_if_not_started e j
                   (EnqueueCommand (if rsp then LeSetScanResponseData ?data
                                    else LeSetAdvertisingData ?data)
                      (check_status_with_id True j) ?s)"
        by (simp add: encrypted_advertising_complete_def Let_def)
      then show ?thesis
        by (simp add: quiet_trans [OF quiet_Enqueue quiet_enable_if_not_started])
    next
      case ANDROID_HCI
      with assms sealed False
      have "s' = enable_if_not_started e j
                   (EnqueueCommand (if rsp then LeMultiAdvtSetScanResp ?data j
                                    else LeMultiAdvtSetData ?data j)
                      (check_status_with_id True j) ?s)"
        by (simp add: encrypted_advertising_complete_def Let_def)
      then show ?thesis
        by (simp add: quiet_trans [OF quiet_Enqueue quiet_enable_if_not_started])
    next
      case EXTENDED
      obtain s1 returned where
        r: "encrypted_advertising_complete_extended e j rsp ?data ?s = (s1, returned)"
        by (cases "encrypted_advertising_complete_extended e j rsp ?data ?s")
      have q1: "quiet_step i ?s s1"
        using quiet_encrypted_advertising_complete_extended [of i ?s e j rsp ?data] r by simp
      from assms sealed EXTENDED r
      have "s' = (if returned then s1 else enable_if_not_started e j s1)"
        by (simp add: encrypted_advertising_complete_def Let_def)
      then have "quiet_step i s1 s'"
        by (simp add: quiet_enable_if_not_started)
      with q1 show ?thesis by (rule quiet_trans)
    qed
  qed
  with quiet_new_randomizer show ?thesis
    by (rule quiet_trans)
qed


lemma quiet_set_enc_data:
  assumes "set_enc_data e j rsp data_in data_encrypt_in s_in = Inr s'"
  shows "quiet_step i s_in s'"
proof -
  let ?s0 = "update_Advertiser j
               (\<lambda>a. if \<not> rsp
                     then a\<lparr>advertisement := data_in, advertisement_enc := data_encrypt_in\<rparr>
                     else a\<lparr>scan_response := data_in, scan_response_enc := data_encrypt_in\<rparr>)
               s_in"
  have q0: "quiet_step i s_in ?s0"
    by (rule quiet_update) simp
  obtain data1 s1 where wf: "with_flags j rsp data_in ?s0 = (data1, s1)"
    by (cases "with_flags j rsp data_in ?s0")
  have q1: "quiet_step i ?s0 s1"
    using wf by (rule quiet_with_flags)
  from assms wf obtain data s2 where tx: "with_tx_power j data1 s1 = Inr (data, s2)"
    by (auto simp: set_enc_data_def Let_def split: sum.splits)
  have q2: "quiet_step i s1 s2"
    using tx by (rule quiet_with_tx_power)
  from assms wf tx obtain data_encrypt s where
    tx2: "with_tx_power j data_encrypt_in s2 = Inr (data_encrypt, s)"
    by (auto simp: set_enc_data_def Let_def split: sum.splits)
  have q3: "quiet_step i s2 s"
    using tx2 by (rule quiet_with_tx_power)
  have rest: "(if data_encrypt \<noteq> []
       then encrypted_advertising_complete e j rsp data data_encrypt s
       else if advertising_api_type s \<noteq> EXTENDED \<and> \<not> check_advertising_data s data False
       then advertising_callbacks_call (data_set_callback rsp j DATA_TOO_LARGE) s
       else
         (case advertising_api_type s of
            LEGACY \<Rightarrow>
              Inr (EnqueueCommand
                     (if rsp then LeSetScanResponseData data else LeSetAdvertisingData data)
                     (check_status_with_id True j) s)
          | ANDROID_HCI \<Rightarrow>
              Inr (EnqueueCommand
                     (if rsp then LeMultiAdvtSetScanResp data j else LeMultiAdvtSetData data j)
                     (check_status_with_id True j) s)
          | EXTENDED \<Rightarrow> Inr (set_enc_data_extended e j rsp data s))) = Inr s'"
    using assms by (simp add: set_enc_data_def Let_def wf tx tx2)
  have q4: "quiet_step i s s'"
  proof (cases "data_encrypt \<noteq> []")
    case True
    with rest show ?thesis
      by (simp add: quiet_encrypted_advertising_complete)
  next
    case False
    note ne = this
    show ?thesis
    proof (cases "advertising_api_type s \<noteq> EXTENDED \<and> \<not> check_advertising_data s data False")
      case True
      with rest ne have "advertising_callbacks_call (data_set_callback rsp j DATA_TOO_LARGE) s = Inr s'"
        by simp
      then show ?thesis by (rule quiet_call)
    next
      case False
      with rest ne show ?thesis
        by (cases "advertising_api_type s")
           (auto simp: quiet_Enqueue quiet_set_enc_data_extended)
    qed
  qed
  show ?thesis
    by (rule quiet_trans [OF q0 quiet_trans [OF q1 quiet_trans [OF q2 quiet_trans [OF q3 q4]]]])
qed

lemma quiet_encrypted_periodic_advertising_complete:
  assumes "encrypted_periodic_advertising_complete e j data data_encrypt s = Inr s'"
  shows "quiet_step i s s'"
proof -
  let ?s = "new_randomizer e j s"
  from assms obtain Encr_Data where sealed: "seal e j data_encrypt ?s = Inr Encr_Data"
    by (auto simp: encrypted_periodic_advertising_complete_def Let_def split: sum.splits)
  let ?data = "data @ [Encr_Data]"
  have last: "quiet_step i s1 (if c then enable_periodic_advertising e j True adi s1 else s1)"
    for c adi s1
    by (simp add: quiet_enable_periodic)
  have "quiet_step i ?s s'"
  proof (cases "check_element_sizes (kLeMaximumGapDataLength e) ?data 0")
    case None
    with assms sealed show ?thesis
      by (auto simp: encrypted_periodic_advertising_complete_def Let_def quiet_call_if_set)
  next
    case (Some data_len)
    show ?thesis
    proof (cases "data_len > le_maximum_advertising_data_length ?s")
      case True
      with assms sealed Some show ?thesis
        by (auto simp: encrypted_periodic_advertising_complete_def Let_def quiet_call_if_set)
    next
      case False
      note fits = this
      show ?thesis
      proof (cases "data_len \<le> kLeMaximumFragmentLength e")
        case True
        with assms sealed Some fits
        have "s' = (if \<not> started (Advertiser_at ?s j)
                    then enable_periodic_advertising e j True (include_adi (Advertiser_at ?s j))
                           (send_periodic_data_fragment e j ?data COMPLETE_ADVERTISEMENT ?s)
                    else send_periodic_data_fragment e j ?data COMPLETE_ADVERTISEMENT ?s)"
          by (auto simp: encrypted_periodic_advertising_complete_def Let_def)
        then show ?thesis
          using quiet_trans [OF quiet_send_periodic last] by simp
      next
        case False
        note big = this
        show ?thesis
        proof (cases "started (Advertiser_at ?s j)")
          case True
          with assms sealed Some fits big
          have "s' = enable_periodic_advertising e j True (include_adi (Advertiser_at ?s j))
                       (send_periodic_element_fragments e j ?data [] 0 FIRST_FRAGMENT
                          (enable_periodic_advertising e j False
                             (include_adi (Advertiser_at ?s j)) ?s))"
            by (simp add: encrypted_periodic_advertising_complete_def Let_def)
          then show ?thesis
            by (simp add: quiet_trans [OF quiet_enable_periodic
                  quiet_trans [OF quiet_send_periodic_element_fragments quiet_enable_periodic]])
        next
          case False
          with assms sealed Some fits big
          have "s' = enable_periodic_advertising e j True (include_adi (Advertiser_at ?s j))
                       (send_periodic_element_fragments e j ?data [] 0 FIRST_FRAGMENT ?s)"
            by (simp add: encrypted_periodic_advertising_complete_def Let_def)
          then show ?thesis
            by (simp add: quiet_trans [OF quiet_send_periodic_element_fragments
                  quiet_enable_periodic])
        qed
      qed
    qed
  qed
  with quiet_new_randomizer show ?thesis
    by (rule quiet_trans)
qed

lemma quiet_set_periodic_enc_data:
  assumes "set_periodic_enc_data e j data data_encrypt s_in = Inr s'"
  shows "quiet_step i s_in s'"
proof -
  let ?s = "update_Advertiser j
              (\<lambda>a. a\<lparr>periodic_data := data, periodic_data_enc := data_encrypt\<rparr>) s_in"
  have q0: "quiet_step i s_in ?s"
    by (rule quiet_update) simp
  have "quiet_step i ?s s'"
  proof (cases "data_encrypt \<noteq> []")
    case True
    with assms have "encrypted_periodic_advertising_complete e j data data_encrypt ?s = Inr s'"
      by (simp add: set_periodic_enc_data_def Let_def)
    then show ?thesis
      by (rule quiet_encrypted_periodic_advertising_complete)
  next
    case False
    with assms show ?thesis
      by (auto simp: set_periodic_enc_data_def Let_def quiet_call_if_set quiet_send_periodic
          quiet_send_periodic_raw_fragments quiet_send_periodic_element_fragments
          split: option.splits if_splits)
  qed
  with q0 show ?thesis
    by (rule quiet_trans)
qed

lemma quiet_set_encrypted_advertiser_data:
  assumes "set_encrypted_advertiser_data e j s_in = Inr s'"
  shows "quiet_step i s_in s'"
proof -
  let ?s = "touch j s_in"
  let ?a = "Advertiser_at ?s j"
  have q0: "quiet_step i s_in ?s"
    by (rule quiet_touch)
  have "quiet_step i ?s s'"
  proof (cases "advertisement_enc ?a \<noteq> []")
    case True
    with assms obtain s1 where
      c1: "set_enc_data e j False (advertisement ?a) (advertisement_enc ?a) ?s = Inr s1"
      by (auto simp: set_encrypted_advertiser_data_def Let_def split: sum.splits)
    with assms True obtain s2 where
      c2: "set_enc_data e j True (scan_response (Advertiser_at s1 j))
             (scan_response_enc (Advertiser_at s1 j)) s1 = Inr s2"
      by (auto simp: set_encrypted_advertiser_data_def Let_def split: sum.splits)
    from assms True c1 c2 have
      c3: "(if periodic_data_enc (Advertiser_at s2 j) \<noteq> []
            then set_periodic_enc_data e j (periodic_data (Advertiser_at s2 j))
                   (periodic_data_enc (Advertiser_at s2 j)) s2
            else Inr s2) = Inr s'"
      by (simp add: set_encrypted_advertiser_data_def Let_def)
    have "quiet_step i s2 s'"
      using c3 by (auto simp: quiet_set_periodic_enc_data split: if_splits)
    with quiet_set_enc_data [OF c1] quiet_set_enc_data [OF c2] show ?thesis
      by (blast intro: quiet_trans)
  next
    case False
    with assms show ?thesis
      by (auto simp: set_encrypted_advertiser_data_def Let_def quiet_set_enc_data
          quiet_set_periodic_enc_data split: if_splits)
  qed
  with q0 show ?thesis
    by (rule quiet_trans)
qed


subsection \<open>The commands of one firing of the rotation timer\<close>

lemma new_advertiser_address_cong:
  "Advertiser_at s' j = Advertiser_at s j \<Longrightarrow> advertising_api_type s' = advertising_api_type s
   \<Longrightarrow> new_advertiser_address e j s' = new_advertiser_address e j s"
  by (simp add: new_advertiser_address_def)

text \<open>
  C2 (as amended).  When the rotation timer fires for a set that is enabled and
  connectable, under the extended API and while the manager is not paused, the commands
  enqueued by that firing are: first the set-enable command with \<^verbatim>\<open>DISABLED\<close>, then one
  \<^verbatim>\<open>LE_SET_ADVERTISING_SET_RANDOM_ADDRESS\<close> with the address that
  \<^verbatim>\<open>new_advertiser_address\<close> mints, then commands none of which sets a random address
  (the encrypted data of the set, if it has any), and last the set-enable command with
  \<^verbatim>\<open>ENABLED\<close>; the rotation alarm is scheduled again at the next private-address
  interval.
\<close>

theorem rotation_command_sequence:
  assumes enabled: "advertising_handle (enabled_sets s advertiser_id) \<noteq> kInvalidHandle e"
    and ext: "advertising_api_type s = EXTENDED"
    and conn: "connectable (Advertiser_at s advertiser_id)"
    and running: "\<not> paused s"
    and ok: "set_advertising_set_random_address_on_timer e advertiser_id s = Inr s'"
  shows "\<exists>between.
      map fst (hci_queue s')
        = map fst (hci_queue s)
          @ LeSetExtendedAdvertisingEnable DISABLED [current_enabled_set s advertiser_id]
          # LeSetAdvertisingSetRandomAddress advertiser_id
              (fst (new_advertiser_address e advertiser_id s))
          # between
          @ [LeSetExtendedAdvertisingEnable ENABLED [current_enabled_set s advertiser_id]]
    \<and> (\<forall>c\<in>set between. \<not> is_set_random_address c)
    \<and> address_rotation_alarm (Advertiser_at s' advertiser_id)
        = Some (GetNextPrivateAddressIntervalMs e)"
proof -
  let ?i = advertiser_id
  let ?s0 = "touch ?i s"
  let ?cs = "current_enabled_set s ?i"
  let ?s1 = "EnqueueCommand (LeSetExtendedAdvertisingEnable DISABLED [?cs]) check_complete ?s0"
  let ?s2 = "rotate_advertiser_address e ?i ?s1"
  have cs: "current_enabled_set ?s0 ?i = ?cs"
    by (simp add: current_enabled_set_def)
  from ok enabled conn obtain s3 where enc: "set_encrypted_advertiser_data e ?i ?s2 = Inr s3"
    by (auto simp: set_advertising_set_random_address_on_timer_def Let_def cs split: sum.splits)
  have q: "quiet_step ?i ?s2 s3"
    using enc by (rule quiet_set_encrypted_advertiser_data)
  have addr: "new_advertiser_address e ?i (touch ?i ?s1) = new_advertiser_address e ?i s"
    by (rule new_advertiser_address_cong) (simp_all add: EnqueueCommand_def)
  have q2: "hci_queue ?s2
      = hci_queue s @ [(LeSetExtendedAdvertisingEnable DISABLED [?cs], check_complete),
          (LeSetAdvertisingSetRandomAddress ?i (fst (new_advertiser_address e ?i s)),
           on_set_advertising_set_random_address_complete ?i (new_advertiser_address e ?i s))]"
    using ext by (simp add: rotate_advertiser_address_def Let_def addr) (simp add: EnqueueCommand_def)
  have f2: "paused ?s2 = paused s" "connectable (Advertiser_at ?s2 ?i) = connectable (Advertiser_at s ?i)"
    using ext by (simp_all add: rotate_advertiser_address_def Let_def EnqueueCommand_def)
  from q obtain cmds where q3: "hci_queue s3 = hci_queue ?s2 @ cmds"
      and quiet: "\<forall>c\<in>set cmds. \<not> is_set_random_address (fst c)"
      and f3: "paused s3 = paused ?s2"
        "connectable (Advertiser_at s3 ?i) = connectable (Advertiser_at ?s2 ?i)"
    unfolding quiet_step_def by (elim conjE exE)
  let ?s4 = "EnqueueCommand (LeSetExtendedAdvertisingEnable ENABLED [?cs]) check_complete s3"
  have go: "connectable (Advertiser_at s3 ?i) \<and> \<not> paused s3"
    using f2 f3 conn running by simp
  from ok enabled conn enc go
  have fin: "(case address_rotation_alarm (Advertiser_at ?s4 ?i) of
                None \<Rightarrow> Inl Null_dereference
              | Some scheduled \<Rightarrow>
                  Inr (update_Advertiser ?i
                         (\<lambda>a. a\<lparr>address_rotation_alarm := Some (GetNextPrivateAddressIntervalMs e)\<rparr>)
                         ?s4)) = Inr s'"
    by (simp add: set_advertising_set_random_address_on_timer_def Let_def cs)
  then have s': "s' = update_Advertiser ?i
                         (\<lambda>a. a\<lparr>address_rotation_alarm := Some (GetNextPrivateAddressIntervalMs e)\<rparr>)
                         ?s4"
    by (auto split: option.splits)
  have q': "hci_queue s' = hci_queue s3 @ [(LeSetExtendedAdvertisingEnable ENABLED [?cs], check_complete)]"
    unfolding s' by (simp add: update_Advertiser_def EnqueueCommand_def)
  show ?thesis
  proof (intro exI [of _ "map fst cmds"] conjI)
    show "map fst (hci_queue s')
        = map fst (hci_queue s)
          @ LeSetExtendedAdvertisingEnable DISABLED [?cs]
          # LeSetAdvertisingSetRandomAddress ?i (fst (new_advertiser_address e ?i s))
          # map fst cmds
          @ [LeSetExtendedAdvertisingEnable ENABLED [?cs]]"
      by (simp add: q' q3 q2)
    show "\<forall>c\<in>set (map fst cmds). \<not> is_set_random_address c"
      using quiet by simp
    show "address_rotation_alarm (Advertiser_at s' ?i) = Some (GetNextPrivateAddressIntervalMs e)"
      unfolding s' by (simp add: Advertiser_at_update)
  qed
qed

text \<open>The firing returns when the set has a rotation alarm and no encrypted data.\<close>

lemma rotation_returns:
  assumes "advertisement_enc (Advertiser_at s i) = []"
    and "scan_response_enc (Advertiser_at s i) = []"
    and "periodic_data_enc (Advertiser_at s i) = []"
    and "address_rotation_alarm (Advertiser_at s i) \<noteq> None"
  shows "\<exists>s'. set_advertising_set_random_address_on_timer e i s = Inr s'"
proof (cases "advertising_handle (enabled_sets s i) = kInvalidHandle e")
  case True
  then show ?thesis
    by (simp add: set_advertising_set_random_address_on_timer_def)
next
  case False
  have a: "Advertiser_at (rotate_advertiser_address e i s1) i = Advertiser_at s1 i" for s1
    by (simp add: rotate_advertiser_address_def Let_def EnqueueCommand_def)
  have b: "set_encrypted_advertiser_data e i s1 = Inr (touch i s1)"
    if "Advertiser_at s1 i = Advertiser_at s i" for s1
    using that assms by (simp add: set_encrypted_advertiser_data_def Let_def)
  show ?thesis
    using False assms(4)
    by (auto simp: set_advertising_set_random_address_on_timer_def Let_def a b
        EnqueueCommand_def split: option.splits)
qed


lemma example_enabled [simp]:
  "advertising_handle (enabled_sets example_impl 0) = 0"
  "kInvalidHandle example_environment = 255"
  "GetNextPrivateAddressIntervalMs example_environment = 900000"
  by (simp_all add: example_impl_def example_environment_def EnabledSet_default_def)

text \<open>The rotation theorem at the example set.\<close>

theorem rotation_command_sequence_witness:
  "advertising_handle (enabled_sets example_impl 0) \<noteq> kInvalidHandle example_environment
   \<and> advertising_api_type example_impl = EXTENDED
   \<and> connectable (Advertiser_at example_impl 0)
   \<and> \<not> paused example_impl
   \<and> (\<exists>s' between.
        set_advertising_set_random_address_on_timer example_environment 0 example_impl = Inr s'
      \<and> map fst (hci_queue s')
          = map fst (hci_queue example_impl)
            @ LeSetExtendedAdvertisingEnable DISABLED [current_enabled_set example_impl 0]
            # LeSetAdvertisingSetRandomAddress 0
                (fst (new_advertiser_address example_environment 0 example_impl))
            # between
            @ [LeSetExtendedAdvertisingEnable ENABLED [current_enabled_set example_impl 0]]
      \<and> (\<forall>c\<in>set between. \<not> is_set_random_address c)
      \<and> address_rotation_alarm (Advertiser_at s' 0)
          = Some (GetNextPrivateAddressIntervalMs example_environment))"
proof -
  have enabled: "advertising_handle (enabled_sets example_impl 0) \<noteq> kInvalidHandle example_environment"
    by simp
  have ext: "advertising_api_type example_impl = EXTENDED"
    by simp
  have conn: "connectable (Advertiser_at example_impl 0)"
    by simp
  have running: "\<not> paused example_impl"
    by simp
  have "\<exists>s'. set_advertising_set_random_address_on_timer example_environment 0 example_impl = Inr s'"
    by (rule rotation_returns)
       (simp_all add: example_advertiser_def Advertiser_default_def)
  then obtain s' where
    ok: "set_advertising_set_random_address_on_timer example_environment 0 example_impl = Inr s'" ..
  from rotation_command_sequence [OF enabled ext conn running ok]
  have "\<exists>s' between.
        set_advertising_set_random_address_on_timer example_environment 0 example_impl = Inr s'
      \<and> map fst (hci_queue s')
          = map fst (hci_queue example_impl)
            @ LeSetExtendedAdvertisingEnable DISABLED [current_enabled_set example_impl 0]
            # LeSetAdvertisingSetRandomAddress 0
                (fst (new_advertiser_address example_environment 0 example_impl))
            # between
            @ [LeSetExtendedAdvertisingEnable ENABLED [current_enabled_set example_impl 0]]
      \<and> (\<forall>c\<in>set between. \<not> is_set_random_address c)
      \<and> address_rotation_alarm (Advertiser_at s' 0)
          = Some (GetNextPrivateAddressIntervalMs example_environment)"
    using ok by (elim exE) (rule exI, rule exI, erule conjI)
  with enabled ext conn running show ?thesis
    by (intro conjI)
qed

text \<open>
  C2 as first stated lets every firing on an enabled, connectable set end with the
  set-enable command with \<^verbatim>\<open>ENABLED\<close>.  While the manager is paused, the firing for the
  example set enqueues the \<^verbatim>\<open>DISABLED\<close> command and the random address and nothing
  else.
\<close>

theorem rotation_while_paused_counterexample:
  "set_advertising_set_random_address_on_timer example_environment 0
       (example_impl\<lparr>paused := True\<rparr>)
     = Inr (example_impl\<lparr>paused := True,
              hci_queue :=
                [(LeSetExtendedAdvertisingEnable DISABLED
                    [\<lparr>advertising_handle = 0, enabled_duration = 0,
                      enabled_max_extended_advertising_events = 0\<rparr>], check_complete),
                 (LeSetAdvertisingSetRandomAddress 0 0x4000000000B2,
                  on_set_advertising_set_random_address_complete 0
                    (0x4000000000B2, RANDOM_DEVICE_ADDRESS))]\<rparr>)"
  by (simp add: set_advertising_set_random_address_on_timer_def rotate_advertiser_address_def
      new_advertiser_address_def set_encrypted_advertiser_data_def current_enabled_set_def
      EnqueueCommand_def update_Advertiser_def touch_def Advertiser_at_def Let_def
      example_impl_def example_environment_def example_advertiser_def Advertiser_default_def
      EnabledSet_default_def)

section \<open>Properties of the set-terminated event\<close>

text \<open>
  C10.  An LE Advertising Set Terminated event with status
  \<^verbatim>\<open>OPERATION_CANCELLED_BY_HOST\<close> is dropped: \<^verbatim>\<open>handle_set_terminated\<close> returns the
  state it was given, so no callback and no notification of the connection layer is
  fired, no command is enqueued, the rotation alarm is not cancelled, and the advertiser
  and the table of enabled sets are as before.
\<close>

theorem set_terminated_cancelled_by_host:
  assumes "GetStatus event_view = OPERATION_CANCELLED_BY_HOST"
  shows "handle_set_terminated e event_view s = Inr s"
  using assms by (simp add: handle_set_terminated_def)

text \<open>The theorem at an event for the example set.\<close>

theorem set_terminated_cancelled_by_host_witness:
  "GetStatus \<lparr>IsValid = True, GetStatus = OPERATION_CANCELLED_BY_HOST,
              GetAdvertisingHandle = 0, GetConnectionHandle = 0x40\<rparr>
     = OPERATION_CANCELLED_BY_HOST
   \<and> handle_set_terminated example_environment
        \<lparr>IsValid = True, GetStatus = OPERATION_CANCELLED_BY_HOST,
         GetAdvertisingHandle = 0, GetConnectionHandle = 0x40\<rparr> example_impl
     = Inr example_impl"
proof -
  have h: "GetStatus \<lparr>IsValid = True, GetStatus = OPERATION_CANCELLED_BY_HOST,
              GetAdvertisingHandle = 0, GetConnectionHandle = 0x40\<rparr>
     = OPERATION_CANCELLED_BY_HOST"
    by simp
  show ?thesis
    using h set_terminated_cancelled_by_host [OF h, of example_environment example_impl]
    by (intro conjI)
qed

text \<open>For comparison, the same event with status \<^verbatim>\<open>LIMIT_REACHED\<close> cancels the alarm,
  marks the set as not enabled, notifies the connection layer and reports through
  \<^verbatim>\<open>OnAdvertisingEnabled\<close>.\<close>

lemma set_terminated_limit_reached_example:
  "handle_set_terminated example_environment
        \<lparr>IsValid = True, GetStatus = LIMIT_REACHED,
         GetAdvertisingHandle = 0, GetConnectionHandle = 0x40\<rparr> example_impl
     = Inr (example_impl
          \<lparr>advertising_sets := [0 \<mapsto> example_advertiser\<lparr>address_rotation_alarm := None\<rparr>],
           enabled_sets := (enabled_sets example_impl)
             (0 := EnabledSet_default\<lparr>advertising_handle := 0xFF\<rparr>),
           callbacks_fired :=
             [AclManager_OnAdvertisingSetTerminated LIMIT_REACHED 0x40 0
                (0x4000000000A1, RANDOM_DEVICE_ADDRESS) True,
              OnAdvertisingEnabled 0 False LIMIT_REACHED]\<rparr>)"
  by (simp add: handle_set_terminated_def Let_def update_Advertiser_def Advertiser_at_def
      fire_def touch_id_map_def id_map_at_def kIdLocal_def advertising_callbacks_call_def
      example_impl_def example_environment_def example_advertiser_def Advertiser_default_def
      EnabledSet_default_def)

section \<open>Properties of the timer slots of the power manager\<close>

lemma assigned_indices_eq:
  "assigned_indices e t =
     (if srvc_id t 0 \<noteq> BTA_ID_MAX e then 1 else 0) +
     (if srvc_id t 1 \<noteq> BTA_ID_MAX e then 1 else 0) +
     (if srvc_id t 2 \<noteq> BTA_ID_MAX e then 1 else 0)"
proof -
  have "[0 ..< 3] = [0, 1, 2::nat]" by (simp add: numeral_3_eq_3 numeral_2_eq_2)
  then show ?thesis by (simp add: assigned_indices_def BTA_DM_PM_MODE_TIMER_MAX_def)
qed

lemma idx_cases: "j < BTA_DM_PM_MODE_TIMER_MAX \<Longrightarrow> j = 0 \<or> j = 1 \<or> j = 2"
  by (auto simp add: BTA_DM_PM_MODE_TIMER_MAX_def)

lemma accounted_initial: "slot_accounted e (initial_timer e)"
  by (simp add: slot_accounted_def assigned_indices_eq initial_timer_def)

lemma accounted_start:
  assumes "slot_accounted e t" "j < BTA_DM_PM_MODE_TIMER_MAX" "service \<noteq> BTA_ID_MAX e"
  shows "slot_accounted e (bta_dm_pm_start_timer e j timeout_ms service action t)"
  using assms idx_cases [OF assms(2)]
  by (auto simp add: slot_accounted_def assigned_indices_eq bta_dm_pm_start_timer_def)

lemma accounted_peer:
  "slot_accounted e t \<Longrightarrow> slot_accounted e (t\<lparr>timer_peer_bdaddr := p\<rparr>)"
  by (simp add: slot_accounted_def assigned_indices_eq)

lemma accounted_pm_action:
  "slot_accounted e t \<Longrightarrow> slot_accounted e (t\<lparr>pm_action := f\<rparr>)"
  by (simp add: slot_accounted_def assigned_indices_eq)

lemma accounted_stop_by_index:
  assumes "slot_accounted e t" "bta_dm_pm_stop_timer_by_index e j t = Inr t'"
  shows "slot_accounted e t'"
proof (cases "j < BTA_DM_PM_MODE_TIMER_MAX \<and> srvc_id t j \<noteq> BTA_ID_MAX e")
  case False
  with assms show ?thesis
    by (auto simp add: bta_dm_pm_stop_timer_by_index_def split: if_splits)
next
  case True
  then have j: "j = 0 \<or> j = 1 \<or> j = 2" using idx_cases by blast
  from True assms have t': "t' = t\<lparr>timer_in_use := (if active t - 1 = 0 then False else timer_in_use t),
                   active := active t - 1,
                   srvc_id := (srvc_id t)(j := BTA_ID_MAX e),
                   timer := (timer t)(j := None)\<rparr>"
    by (auto simp add: bta_dm_pm_stop_timer_by_index_def Let_def split: if_splits)
  from assms(1) True j show ?thesis unfolding t'
    by (auto simp add: slot_accounted_def assigned_indices_eq split: if_splits)
qed

lemma stop_by_index_succeeds:
  assumes "slot_accounted e t"
  shows "\<exists>t'. bta_dm_pm_stop_timer_by_index e j t = Inr t'"
proof (cases "j < BTA_DM_PM_MODE_TIMER_MAX \<and> srvc_id t j \<noteq> BTA_ID_MAX e")
  case False
  then show ?thesis by (auto simp add: bta_dm_pm_stop_timer_by_index_def)
next
  case True
  then have j: "j = 0 \<or> j = 1 \<or> j = 2" using idx_cases by blast
  with True assms have "active t > 0" "timer_in_use t"
    by (auto simp add: slot_accounted_def assigned_indices_eq split: if_splits)
  then show ?thesis by (simp add: bta_dm_pm_stop_timer_by_index_def Let_def)
qed

lemma accounted_stop_indices:
  "slot_accounted e t \<Longrightarrow> stop_timer_indices e js t = Inr t' \<Longrightarrow> slot_accounted e t'"
proof (induction js arbitrary: t)
  case Nil
  then show ?case by simp
next
  case (Cons j js)
  then show ?case
    by (auto split: sum.splits dest: accounted_stop_by_index)
qed

lemma stop_indices_succeeds:
  "slot_accounted e t \<Longrightarrow> \<exists>t'. stop_timer_indices e js t = Inr t'"
proof (induction js arbitrary: t)
  case Nil
  then show ?case by simp
next
  case (Cons j js)
  from stop_by_index_succeeds [OF Cons.prems, of j]
  obtain t1 where t1: "bta_dm_pm_stop_timer_by_index e j t = Inr t1" ..
  have "slot_accounted e t1" by (rule accounted_stop_by_index [OF Cons.prems t1])
  from Cons.IH [OF this] t1 show ?case by simp
qed

lemma accounted_stop_timer:
  "\<forall>t \<in> set ts. slot_accounted e t \<Longrightarrow> bta_dm_pm_stop_timer e p ts = Inr ts'
    \<Longrightarrow> \<forall>t \<in> set ts'. slot_accounted e t"
proof (induction ts arbitrary: ts')
  case Nil
  then show ?case by simp
next
  case (Cons t ts)
  then show ?case
    by (auto split: if_splits sum.splits dest: accounted_stop_indices)
qed

lemma stop_timer_succeeds:
  "\<forall>t \<in> set ts. slot_accounted e t \<Longrightarrow> \<exists>ts'. bta_dm_pm_stop_timer e p ts = Inr ts'"
proof (induction ts)
  case Nil
  then show ?case by simp
next
  case (Cons t ts)
  then obtain ts1 where ts1: "bta_dm_pm_stop_timer e p ts = Inr ts1" by auto
  from Cons.prems have "slot_accounted e t" by simp
  from stop_indices_succeeds [OF this, of "[0 ..< BTA_DM_PM_MODE_TIMER_MAX]"]
  obtain t1 where "stop_timer_indices e [0 ..< BTA_DM_PM_MODE_TIMER_MAX] t = Inr t1" ..
  with ts1 show ?case by simp
qed

lemma accounted_stop_by_mode_slots:
  "\<forall>t \<in> set ts. slot_accounted e t \<Longrightarrow> stop_timer_by_mode_slots e p m j ts = Inr ts'
    \<Longrightarrow> \<forall>t \<in> set ts'. slot_accounted e t"
proof (induction ts arbitrary: ts')
  case Nil
  then show ?case by simp
next
  case (Cons t ts)
  then show ?case
    by (auto split: if_splits sum.splits intro!: accounted_pm_action
        intro: accounted_stop_by_index)
qed

lemma accounted_stop_by_mode:
  "\<forall>t \<in> set ts. slot_accounted e t \<Longrightarrow> bta_dm_pm_stop_timer_by_mode e p m ts = Inr ts'
    \<Longrightarrow> \<forall>t \<in> set ts'. slot_accounted e t"
  using accounted_stop_by_mode_slots [of ts e p m _ ts']
  by (auto simp add: bta_dm_pm_stop_timer_by_mode_def Let_def split: if_splits)

lemma accounted_stop_first_index:
  "slot_accounted e t \<Longrightarrow> stop_first_index_of_service e sv js t = Inr t'
    \<Longrightarrow> slot_accounted e t'"
proof (induction js)
  case Nil
  then show ?case by simp
next
  case (Cons j js)
  then show ?case
    by (auto split: if_splits sum.splits dest: accounted_stop_by_index
        intro: accounted_pm_action)
qed

lemma accounted_stop_by_srvc_id:
  "\<forall>t \<in> set ts. slot_accounted e t \<Longrightarrow> bta_dm_pm_stop_timer_by_srvc_id e p sv ts = Inr ts'
    \<Longrightarrow> \<forall>t \<in> set ts'. slot_accounted e t"
proof (induction ts arbitrary: ts')
  case Nil
  then show ?case by simp
next
  case (Cons t ts)
  then show ?case
    by (auto split: if_splits sum.splits dest: accounted_stop_first_index)
qed

lemma accounted_expired:
  assumes "slot_accounted e t" "timer t j \<noteq> None"
  shows "slot_accounted e
           (t\<lparr>active := (active t + 255) mod 256,
              srvc_id := (srvc_id t)(j := BTA_ID_MAX e),
              timer_in_use := (if (active t + 255) mod 256 = 0 then False else timer_in_use t),
              timer := (timer t)(j := None)\<rparr>)"
proof -
  from assms have j: "j = 0 \<or> j = 1 \<or> j = 2" and s: "srvc_id t j \<noteq> BTA_ID_MAX e"
    using idx_cases by (auto simp add: slot_accounted_def)
  from assms j s show ?thesis
    by (auto simp add: slot_accounted_def assigned_indices_eq split: if_splits)
qed

lemma fst_timer_cback_slots_Cons:
  "fst (timer_cback_slots e a j i (t # ts)) =
     (if timer_in_use t
      then
        if i = a \<and> j < BTA_DM_PM_MODE_TIMER_MAX
        then t\<lparr>active := (active t + 255) mod 256,
               srvc_id := (srvc_id t)(j := BTA_ID_MAX e),
               timer_in_use := (if (active t + 255) mod 256 = 0 then False
                                else timer_in_use t)\<rparr> # ts
        else (if active t = 0 then t\<lparr>timer_in_use := False\<rparr> else t)
               # fst (timer_cback_slots e a j (Suc i) ts)
      else t # fst (timer_cback_slots e a j (Suc i) ts))"
  by (simp add: Let_def split_beta)

lemma accounted_in_use:
  "slot_accounted e t \<Longrightarrow> timer t j \<noteq> None \<Longrightarrow> timer_in_use t \<and> j < BTA_DM_PM_MODE_TIMER_MAX"
proof -
  assume a: "slot_accounted e t" "timer t j \<noteq> None"
  then have j: "j < BTA_DM_PM_MODE_TIMER_MAX" and s: "srvc_id t j \<noteq> BTA_ID_MAX e"
    by (auto simp add: slot_accounted_def)
  from idx_cases [OF j] s a(1) have "timer_in_use t"
    by (auto simp add: slot_accounted_def assigned_indices_eq split: if_splits)
  with j show ?thesis by simp
qed

lemma accounted_timer_cback_slots:
  assumes "\<forall>n < length ts. i + n \<noteq> a \<longrightarrow> slot_accounted e (ts ! n)"
    and "\<forall>n < length ts. i + n = a \<longrightarrow>
           (\<exists>t0. slot_accounted e t0 \<and> timer t0 j \<noteq> None \<and>
                 ts ! n = t0\<lparr>timer := (timer t0)(j := None)\<rparr>)"
  shows "\<forall>t \<in> set (fst (timer_cback_slots e a j i ts)). slot_accounted e t"
  using assms
proof (induction ts arbitrary: i)
  case Nil
  then show ?case by simp
next
  case (Cons t ts)
  have tail1: "\<forall>n < length ts. Suc i + n \<noteq> a \<longrightarrow> slot_accounted e (ts ! n)"
  proof (intro allI impI)
    fix n assume "n < length ts" "Suc i + n \<noteq> a"
    then have "Suc n < length (t # ts)" "i + Suc n \<noteq> a" by simp_all
    with Cons.prems(1) have "slot_accounted e ((t # ts) ! Suc n)" by blast
    then show "slot_accounted e (ts ! n)" by simp
  qed
  have tail2: "\<forall>n < length ts. Suc i + n = a \<longrightarrow>
           (\<exists>t0. slot_accounted e t0 \<and> timer t0 j \<noteq> None \<and>
                 ts ! n = t0\<lparr>timer := (timer t0)(j := None)\<rparr>)"
  proof (intro allI impI)
    fix n assume "n < length ts" "Suc i + n = a"
    then have "Suc n < length (t # ts)" "i + Suc n = a" by simp_all
    with Cons.prems(2) have "\<exists>t0. slot_accounted e t0 \<and> timer t0 j \<noteq> None \<and>
                 (t # ts) ! Suc n = t0\<lparr>timer := (timer t0)(j := None)\<rparr>" by blast
    then show "\<exists>t0. slot_accounted e t0 \<and> timer t0 j \<noteq> None \<and>
                 ts ! n = t0\<lparr>timer := (timer t0)(j := None)\<rparr>" by simp
  qed
  note IH = Cons.IH [OF tail1 tail2]
  show ?case
  proof (cases "i = a")
    case True
    then have "0 < length (t # ts)" "i + 0 = a" by simp_all
    with Cons.prems(2) have "\<exists>t0. slot_accounted e t0 \<and> timer t0 j \<noteq> None \<and>
                 (t # ts) ! 0 = t0\<lparr>timer := (timer t0)(j := None)\<rparr>" by blast
    then have "\<exists>t0. slot_accounted e t0 \<and> timer t0 j \<noteq> None \<and>
                 t = t0\<lparr>timer := (timer t0)(j := None)\<rparr>" by (simp only: nth_Cons_0)
    then obtain t0 where t0: "slot_accounted e t0 \<and> timer t0 j \<noteq> None \<and>
                 t = t0\<lparr>timer := (timer t0)(j := None)\<rparr>" ..
    then have u: "timer_in_use t0 \<and> j < BTA_DM_PM_MODE_TIMER_MAX"
      using accounted_in_use by blast
    have rest: "\<forall>x \<in> set ts. slot_accounted e x"
    proof
      fix x assume "x \<in> set ts"
      then obtain n where "n < length ts" "ts ! n = x" by (auto simp add: in_set_conv_nth)
      with tail1 True show "slot_accounted e x" by auto
    qed
    let ?T = "t\<lparr>active := (active t + 255) mod 256,
               srvc_id := (srvc_id t)(j := BTA_ID_MAX e),
               timer_in_use := (if (active t + 255) mod 256 = 0 then False
                                else timer_in_use t)\<rparr>"
    from t0 have "slot_accounted e
           (t0\<lparr>active := (active t0 + 255) mod 256,
              srvc_id := (srvc_id t0)(j := BTA_ID_MAX e),
              timer_in_use := (if (active t0 + 255) mod 256 = 0 then False else timer_in_use t0),
              timer := (timer t0)(j := None)\<rparr>)"
      using accounted_expired by blast
    moreover from t0 have "?T = t0\<lparr>active := (active t0 + 255) mod 256,
              srvc_id := (srvc_id t0)(j := BTA_ID_MAX e),
              timer_in_use := (if (active t0 + 255) mod 256 = 0 then False else timer_in_use t0),
              timer := (timer t0)(j := None)\<rparr>"
      by simp
    ultimately have hd: "slot_accounted e ?T" by (simp only:)
    from t0 u True have eq: "fst (timer_cback_slots e a j i (t # ts)) = ?T # ts"
      by (simp add: fst_timer_cback_slots_Cons del: timer_cback_slots.simps)
    show ?thesis unfolding eq
    proof
      fix x assume "x \<in> set (?T # ts)"
      then have "x = ?T \<or> x \<in> set ts" by (simp only: set_simps insert_iff)
      with hd rest show "slot_accounted e x" by blast
    qed
  next
    case False
    then have "0 < length (t # ts)" "i + 0 \<noteq> a" by simp_all
    with Cons.prems(1) have "slot_accounted e ((t # ts) ! 0)" by blast
    then have t: "slot_accounted e t" by simp
    then have "timer_in_use t \<Longrightarrow> active t \<noteq> 0" by (simp add: slot_accounted_def)
    with t False IH show ?thesis
      by (auto simp add: fst_timer_cback_slots_Cons simp del: timer_cback_slots.simps)
  qed
qed

lemma accounted_expiry:
  assumes "\<forall>t \<in> set ts. slot_accounted e t" "i < length ts" "timer (ts ! i) j \<noteq> None"
  shows "\<forall>t \<in> set (fst (timer_cback_slots e i j 0 (alarm_expired i j ts))). slot_accounted e t"
proof (rule accounted_timer_cback_slots)
  show "\<forall>n<length (alarm_expired i j ts). 0 + n \<noteq> i \<longrightarrow> slot_accounted e (alarm_expired i j ts ! n)"
    using assms(1) by (simp add: alarm_expired_def)
  show "\<forall>n<length (alarm_expired i j ts). 0 + n = i \<longrightarrow>
           (\<exists>t0. slot_accounted e t0 \<and> timer t0 j \<noteq> None \<and>
                 alarm_expired i j ts ! n = t0\<lparr>timer := (timer t0)(j := None)\<rparr>)"
    using assms by (auto simp add: alarm_expired_def intro!: exI [of _ "ts ! i"])
qed

lemma accounted_replicate:
  "\<forall>t \<in> set (replicate n (initial_timer e)). slot_accounted e t"
  by (simp add: accounted_initial)

lemma accounted_update:
  "\<forall>t \<in> set ts. slot_accounted e t \<Longrightarrow> slot_accounted e t' \<Longrightarrow> \<forall>t \<in> set (ts[i := t']). slot_accounted e t"
  by (auto dest: subsetD [OF set_update_subset_insert])

lemma stop_by_mode_succeeds:
  "\<forall>t \<in> set ts. slot_accounted e t \<Longrightarrow> \<exists>ts'. bta_dm_pm_stop_timer_by_mode e p m ts = Inr ts'"
proof -
  assume a: "\<forall>t \<in> set ts. slot_accounted e t"
  have "\<exists>ts'. stop_timer_by_mode_slots e p m j ts = Inr ts'" for j
    using a
  proof (induction ts)
    case Nil
    then show ?case by simp
  next
    case (Cons t ts)
    then obtain ts1 where ts1: "stop_timer_by_mode_slots e p m j ts = Inr ts1" by auto
    from Cons.prems have "slot_accounted e t" by simp
    from stop_by_index_succeeds [OF this, of j]
    obtain t1 where "bta_dm_pm_stop_timer_by_index e j t = Inr t1" ..
    with ts1 show ?case by simp
  qed
  then show ?thesis by (simp add: bta_dm_pm_stop_timer_by_mode_def Let_def)
qed

lemma stop_first_index_succeeds:
  "slot_accounted e t \<Longrightarrow> \<exists>t'. stop_first_index_of_service e sv js t = Inr t'"
proof (induction js)
  case Nil
  then show ?case by simp
next
  case (Cons j js)
  from stop_by_index_succeeds [OF Cons.prems, of j]
  obtain t1 where "bta_dm_pm_stop_timer_by_index e j t = Inr t1" ..
  with Cons show ?case by simp
qed

lemma stop_by_srvc_id_succeeds:
  "\<forall>t \<in> set ts. slot_accounted e t
    \<Longrightarrow> \<exists>ts'. bta_dm_pm_stop_timer_by_srvc_id e p sv ts = Inr ts'"
proof (induction ts)
  case Nil
  then show ?case by simp
next
  case (Cons t ts)
  then obtain ts1 where ts1: "bta_dm_pm_stop_timer_by_srvc_id e p sv ts = Inr ts1" by auto
  from Cons.prems have "slot_accounted e t" by simp
  from stop_first_index_succeeds [OF this, of sv "[0 ..< BTA_DM_PM_MODE_TIMER_MAX]"]
  obtain t1 where
    "stop_first_index_of_service e sv [0 ..< BTA_DM_PM_MODE_TIMER_MAX] t = Inr t1" ..
  with ts1 show ?case by simp
qed

lemma accounted_timer_step:
  assumes "\<forall>t \<in> set ts. slot_accounted e t" "op_in_order e operation ts"
    "timer_step e operation ts = Inr ts'"
  shows "\<forall>t \<in> set ts'. slot_accounted e t"
proof (cases operation)
  case (Start_timer i timer_idx timeout_ms service action)
  with assms have i: "i < length ts" "timer_idx < BTA_DM_PM_MODE_TIMER_MAX"
    "service \<noteq> BTA_ID_MAX e"
    and ts': "ts' = ts[i := bta_dm_pm_start_timer e timer_idx timeout_ms service action (ts ! i)]"
    by (auto split: if_splits)
  from assms(1) i show ?thesis unfolding ts'
    by (intro accounted_update accounted_start) simp_all
next
  case (Assign_peer i peer_addr)
  with assms have i: "i < length ts"
    and ts': "ts' = ts[i := (ts ! i)\<lparr>timer_peer_bdaddr := peer_addr\<rparr>]"
    by (auto split: if_splits)
  from assms(1) i show ?thesis unfolding ts'
    by (intro accounted_update accounted_peer) simp_all
next
  case (Stop_timer_by_index i timer_idx)
  with assms obtain t' where i: "i < length ts"
    and t': "bta_dm_pm_stop_timer_by_index e timer_idx (ts ! i) = Inr t'"
    and ts': "ts' = ts[i := t']"
    by (auto split: if_splits sum.splits)
  from assms(1) i have "slot_accounted e (ts ! i)" by simp
  then have "slot_accounted e t'" using t' by (rule accounted_stop_by_index)
  with assms(1) show ?thesis unfolding ts' by (intro accounted_update)
next
  case (Stop_timer peer_addr)
  with assms(3) have "bta_dm_pm_stop_timer e peer_addr ts = Inr ts'" by simp
  with assms(1) show ?thesis by (rule accounted_stop_timer)
next
  case (Stop_timer_by_mode peer_addr mode)
  with assms(3) have "bta_dm_pm_stop_timer_by_mode e peer_addr mode ts = Inr ts'" by simp
  with assms(1) show ?thesis by (rule accounted_stop_by_mode)
next
  case (Stop_timer_by_srvc_id peer_addr service)
  with assms(3) have "bta_dm_pm_stop_timer_by_srvc_id e peer_addr service ts = Inr ts'" by simp
  with assms(1) show ?thesis by (rule accounted_stop_by_srvc_id)
next
  case (Alarm_callback i j)
  with assms have i: "i < length ts" "timer (ts ! i) j \<noteq> None"
    and ts': "ts' = fst (timer_cback_slots e i j 0 (alarm_expired i j ts))"
    by (auto split: if_splits)
  from assms(1) i show ?thesis unfolding ts' by (rule accounted_expiry)
qed

text \<open>No assertion of \<^verbatim>\<open>bta_dm_pm_stop_timer_by_index\<close> fails on a bank whose slots
  are accounted.\<close>

lemma timer_step_asserts_hold:
  assumes "\<forall>t \<in> set ts. slot_accounted e t"
  shows "timer_step e operation ts \<noteq> Inl Assertion_failed"
proof (cases operation)
  case (Stop_timer_by_index i timer_idx)
  show ?thesis
  proof (cases "i < length ts")
    case True
    with assms have "slot_accounted e (ts ! i)" by simp
    from stop_by_index_succeeds [OF this, of timer_idx] True Stop_timer_by_index
    show ?thesis by auto
  next
    case False
    with Stop_timer_by_index show ?thesis by simp
  qed
next
  case (Stop_timer peer_addr)
  with stop_timer_succeeds [OF assms, of peer_addr] show ?thesis by auto
next
  case (Stop_timer_by_mode peer_addr mode)
  with stop_by_mode_succeeds [OF assms, of peer_addr mode] show ?thesis by auto
next
  case (Stop_timer_by_srvc_id peer_addr service)
  with stop_by_srvc_id_succeeds [OF assms, of peer_addr service] show ?thesis by auto
qed simp_all

text \<open>
  As long as every alarm calls back while it is scheduled, the slots stay accounted: the
  count of active indices of every slot is the number of its indices whose service id is
  assigned, the slot is in use exactly when the count is positive, and no assertion
  fails.
\<close>

lemma timer_ops_in_order_accounted:
  assumes "\<forall>t \<in> set ts. slot_accounted e t" "ops_in_order e ops ts"
  shows "run_timer_ops e ops ts \<noteq> Inl Assertion_failed"
    and "run_timer_ops e ops ts = Inr ts' \<Longrightarrow> \<forall>t \<in> set ts'. slot_accounted e t"
  using assms
proof (induction ops arbitrary: ts)
  case Nil
  {
    case 1
    show ?case by simp
  next
    case 2
    then show ?case by simp
  }
next
  case (Cons operation rest)
  {
    case 1
    show ?case
    proof (cases "timer_step e operation ts")
      case (Inl err)
      with timer_step_asserts_hold [OF 1(1), of operation] show ?thesis by simp
    next
      case (Inr ts1)
      with 1 have o: "op_in_order e operation ts" "ops_in_order e rest ts1" by simp_all
      have "\<forall>t \<in> set ts1. slot_accounted e t"
        by (rule accounted_timer_step [OF 1(1) o(1) Inr])
      from Cons.IH(1) [OF this o(2)] Inr show ?thesis by simp
    qed
  next
    case 2
    from 2(1) obtain ts1 where s: "timer_step e operation ts = Inr ts1"
      and r: "run_timer_ops e rest ts1 = Inr ts'"
      by (auto split: sum.splits)
    with 2 have o: "op_in_order e operation ts" "ops_in_order e rest ts1" by simp_all
    have "\<forall>t \<in> set ts1. slot_accounted e t"
      by (rule accounted_timer_step [OF 2(2) o(1) s])
    from Cons.IH(2) [OF r this o(2)] show ?case .
  }
qed

lemma timer_slot_accounting_in_order:
  assumes "run_timer_ops e ops (replicate n (initial_timer e)) = Inr ts"
    and "ops_in_order e ops (replicate n (initial_timer e))"
    and "t \<in> set ts"
  shows "active t = assigned_indices e t \<and> (timer_in_use t \<longleftrightarrow> active t > 0)"
  using timer_ops_in_order_accounted(2) [OF accounted_replicate assms(2) assms(1)] assms(3)
  by (simp add: slot_accounted_def)

text \<open>
  C8.  The claim lets the count of active indices of a slot equal the number of its
  indices whose service id is assigned, and the slot be in use exactly when the count is
  positive, after every interleaving of starts, stops and callbacks.  It fails where a
  callback is delivered after its alarm was cancelled while another timer of the slot
  runs: \<^verbatim>\<open>bta_dm_pm_timer_cback\<close> looks at \<^verbatim>\<open>in_use\<close> only (line 960), counts the
  stopped index down a second time and releases the slot.  In the example the slot is
  left with a count of 0 and not in use while the park timer of index 1 is assigned and
  its alarm scheduled, and stopping that timer then fails the assertion of line 319.
\<close>

theorem timer_late_callback_breaks_accounting:
  "run_timer_ops example_pm_environment example_timer_ops example_timer_bank
     = Inr [example_slot_stopped, initial_timer example_pm_environment]
   \<and> timer example_slot_stopped 0 = None
   \<and> active example_slot_stopped = assigned_indices example_pm_environment example_slot_stopped
   \<and> timer_step example_pm_environment (Alarm_callback 0 0)
        [example_slot_stopped, initial_timer example_pm_environment]
     = Inr [example_slot_late_callback, initial_timer example_pm_environment]
   \<and> active example_slot_late_callback = 0
   \<and> assigned_indices example_pm_environment example_slot_late_callback = 1
   \<and> timer_in_use example_slot_late_callback = False
   \<and> srvc_id example_slot_late_callback 1 = 18
   \<and> timer example_slot_late_callback 1 = Some 5000
   \<and> bta_dm_pm_stop_timer_by_index example_pm_environment 1 example_slot_late_callback
     = Inl Assertion_failed"
proof -
  have 1: "run_timer_ops example_pm_environment example_timer_ops example_timer_bank
     = Inr [example_slot_stopped, initial_timer example_pm_environment]"
    by (simp add: example_timer_ops_def example_timer_bank_def example_slot_stopped_def
        BTA_DM_PM_MODE_TIMER_MAX_def bta_dm_pm_start_timer_def
        bta_dm_pm_stop_timer_by_index_def initial_timer_def example_pm_environment_def
        fun_eq_iff)
  have 2: "timer_step example_pm_environment (Alarm_callback 0 0)
        [example_slot_stopped, initial_timer example_pm_environment]
     = Inr [example_slot_late_callback, initial_timer example_pm_environment]"
    by (simp add: alarm_expired_def example_slot_stopped_def example_slot_late_callback_def
        BTA_DM_PM_MODE_TIMER_MAX_def initial_timer_def example_pm_environment_def Let_def
        fun_eq_iff)
  have 3: "timer example_slot_stopped 0 = None"
    "active example_slot_stopped = assigned_indices example_pm_environment example_slot_stopped"
    by (simp_all add: example_slot_stopped_def assigned_indices_eq
        example_pm_environment_def)
  have 4: "active example_slot_late_callback = 0"
    "assigned_indices example_pm_environment example_slot_late_callback = 1"
    "timer_in_use example_slot_late_callback = False"
    "srvc_id example_slot_late_callback 1 = 18"
    "timer example_slot_late_callback 1 = Some 5000"
    by (simp_all add: example_slot_late_callback_def assigned_indices_eq
        example_pm_environment_def)
  have 5: "bta_dm_pm_stop_timer_by_index example_pm_environment 1 example_slot_late_callback
     = Inl Assertion_failed"
    by (simp add: bta_dm_pm_stop_timer_by_index_def example_slot_late_callback_def
        BTA_DM_PM_MODE_TIMER_MAX_def example_pm_environment_def)
  from 1 2 3 4 5 show ?thesis by (intro conjI)
qed

text \<open>The same operations with the callback of the park timer, which is scheduled: the
  accounting holds.\<close>

lemma timer_ops_in_order_example:
  "ops_in_order example_pm_environment (example_timer_ops @ [Alarm_callback 0 1])
     example_timer_bank
   \<and> run_timer_ops example_pm_environment (example_timer_ops @ [Alarm_callback 0 1])
        example_timer_bank
     = Inr [\<lparr>timer_in_use = False, timer_peer_bdaddr = 0, active = 0,
             srvc_id = (\<lambda>j. 44), pm_action = (\<lambda>j. 0)(0 := 0x20, 1 := 0x10),
             timer = (\<lambda>j. None)\<rparr>, initial_timer example_pm_environment]"
  by (simp add: example_timer_ops_def example_timer_bank_def alarm_expired_def
      BTA_DM_PM_MODE_TIMER_MAX_def bta_dm_pm_start_timer_def
      bta_dm_pm_stop_timer_by_index_def initial_timer_def example_pm_environment_def
      Let_def fun_eq_iff)

section \<open>Properties of the mode selection of the power manager\<close>

lemma Max_set_fold: "Max (set (a # xs)) = fold max xs (a::u8)"
  by (rule Max.set_eq_fold)



lemma example_find_cfg:
  "find_cfg example_pm_environment 5 0 = Some 1"
  "find_cfg example_pm_environment 18 0 = Some 2"
  "find_cfg example_pm_environment 10 0 = Some 3"
  by (simp_all add: find_cfg_def cfg_matches_def example_pm_environment_def example_pm_cfg_def
      upt_conv_Cons)



text \<open>The loop returns when the configuration table knows every service of the
  peer.\<close>

lemma set_mode_services_returns:
  assumes "\<forall>s \<in> set (peer_services p srvcs). find_cfg e (srvcs_id s) (srvcs_app_id s) \<noteq> None"
  shows "\<exists>result. set_mode_services e p failed_pm r srvcs sel = Inr result"
  using assms
proof (induction srvcs arbitrary: sel)
  case Nil
  then show ?case by simp
next
  case (Cons s srvcs)
  from Cons.prems have rest:
    "\<forall>s \<in> set (peer_services p srvcs). find_cfg e (srvcs_id s) (srvcs_app_id s) \<noteq> None"
    by (simp add: peer_services_def)
  show ?case
  proof (cases "srvcs_peer_bdaddr s = p")
    case False
    from Cons.IH [OF rest, of sel] obtain result where
      "set_mode_services e p failed_pm r srvcs sel = Inr result" ..
    with False show ?thesis by (cases result) simp
  next
    case True
    with Cons.prems obtain j where j: "find_cfg e (srvcs_id s) (srvcs_app_id s) = Some j"
      by (auto simp add: peer_services_def)
    define sel4 where "sel4 =
      (let p_pm_spec = get_bta_dm_pm_spec e (spec_idx (p_bta_dm_pm_cfg e j));
                 p_act0 = actn_tbl p_pm_spec (srvcs_state s);
                 sel1 = sel\<lparr>sel_allowed_modes := sel_allowed_modes sel OR allow_mask p_pm_spec\<rparr>;
                 first_ok = (failed_pm AND power_mode p_act0 = 0);
                 stricter = (first_ok \<and> power_mode p_act0 \<ge> sel_pm_action sel1);
                 takes_timeout =
                   (stricter \<and> (r \<noteq> BTA_DM_PM_NEW_REQ \<or> new_request s));
                 sel2 = (if first_ok
                         then sel1\<lparr>sel_pref_modes := sel_pref_modes sel1 OR power_mode p_act0\<rparr>
                         else sel1);
                 sel3 = (if stricter then sel2\<lparr>sel_pm_action := power_mode p_act0\<rparr> else sel2)
       in (if takes_timeout then sel3\<lparr>sel_timeout_ms := timeout p_act0\<rparr> else sel3))"
    from Cons.IH [OF rest, of sel4] obtain result where
      "set_mode_services e p failed_pm r srvcs sel4 = Inr result" ..
    with True j show ?thesis by (cases result) (simp add: Let_def sel4_def)
  qed
qed

text \<open>The replacement at a service that asks for sniff where only park is allowed:
  nothing is left, and the timeout is zero.\<close>

lemma example_replacement_loop:
  "set_mode_services example_pm_environment 1 0 BTA_DM_PM_RESTART example_parked_service
       (initial_selection example_pm_environment)
     = Inr ([\<lparr>srvcs_id = 10, srvcs_app_id = 0, new_request = False,
              srvcs_state = BTA_SYS_CONN_OPEN, srvcs_peer_bdaddr = 1\<rparr>],
            \<lparr>sel_pm_action = 0x20, sel_timeout_ms = 7000, sel_allowed_modes = 0x10,
             sel_pref_modes = 0x20\<rparr>)"
  by (simp add: example_parked_service_def example_find_cfg initial_selection_def Let_def)
    (simp add: example_pm_environment_def example_pm_spec_def example_pm_cfg_def)

lemma example_replacement:
  "set_mode_allowed example_pm_environment
      \<lparr>sel_pm_action = 0x20, sel_timeout_ms = 7000, sel_allowed_modes = 0x10,
       sel_pref_modes = 0x20\<rparr>
     = \<lparr>sel_pm_action = 0x00, sel_timeout_ms = 0, sel_allowed_modes = 0x10,
        sel_pref_modes = 0x20\<rparr>"
  by (simp add: set_mode_allowed_def example_pm_environment_def)

section \<open>Properties of sniff subrating during a voice connection\<close>

lemma first_index_cong:
  "map P xs = map Q ys \<Longrightarrow> first_index P xs = first_index Q ys"
proof (induction xs arbitrary: ys)
  case Nil
  then show ?case by simp
next
  case (Cons x xs)
  then obtain y ys' where ys: "ys = y # ys'" by (cases ys) auto
  with Cons.prems have "P x = Q y" "map P xs = map Q ys'" by simp_all
  with Cons.IH [of ys'] ys show ?case by simp
qed

lemma first_index_less:
  "first_index P xs = Some i \<Longrightarrow> i < length xs"
  by (induction xs arbitrary: i) (auto split: if_splits)

lemma srvcs_key_new_request [simp]: "srvcs_key (s\<lparr>new_request := b\<rparr>) = srvcs_key s"
  by (simp add: srvcs_key_def)

lemma set_mode_services_keys:
  "set_mode_services e p f r srvcs sel = Inr (srvcs', sel')
    \<Longrightarrow> map srvcs_key srvcs' = map srvcs_key srvcs"
proof (induction srvcs arbitrary: sel srvcs' sel')
  case Nil
  then show ?case by simp
next
  case (Cons s srvcs)
  then show ?case
    by (auto simp add: Let_def split: if_splits option.splits sum.splits)
qed

lemma sco_index_keys:
  assumes "map srvcs_key (conn_srvc cb') = map srvcs_key (conn_srvc cb)"
  shows "bta_dm_get_sco_index e cb' = bta_dm_get_sco_index e cb"
proof -
  have "map (\<lambda>s. srvcs_id s = BTA_ID_AG e \<and> srvcs_state s = BTA_SYS_SCO_OPEN) (conn_srvc cb')
      = map (\<lambda>k. fst k = BTA_ID_AG e \<and> fst (snd (snd k)) = BTA_SYS_SCO_OPEN)
          (map srvcs_key (conn_srvc cb'))"
    by (simp add: srvcs_key_def)
  also have "\<dots> = map (\<lambda>k. fst k = BTA_ID_AG e \<and> fst (snd (snd k)) = BTA_SYS_SCO_OPEN)
          (map srvcs_key (conn_srvc cb))"
    by (simp only: assms)
  also have "\<dots> = map (\<lambda>s. srvcs_id s = BTA_ID_AG e \<and> srvcs_state s = BTA_SYS_SCO_OPEN)
                    (conn_srvc cb)"
    by (simp add: srvcs_key_def)
  finally show ?thesis unfolding bta_dm_get_sco_index_def by (rule first_index_cong)
qed

lemma peer_keys:
  assumes "map srvcs_key xs' = map srvcs_key xs" "i < length xs"
  shows "srvcs_peer_bdaddr (xs' ! i) = srvcs_peer_bdaddr (xs ! i)"
proof -
  from assms have l: "i < length xs'" by (metis length_map)
  have "srvcs_key (xs' ! i) = map srvcs_key xs' ! i" using l by simp
  also have "\<dots> = map srvcs_key xs ! i" by (simp only: assms(1))
  also have "\<dots> = srvcs_key (xs ! i)" using assms(2) by simp
  finally show ?thesis by (simp add: srvcs_key_def)
qed

lemma ssr_frame:
  "conn_srvc (bta_dm_pm_ssr e p x cb) = conn_srvc cb"
  "pm_timer (bta_dm_pm_ssr e p x cb) = pm_timer cb"
  "peer_device (bta_dm_pm_ssr e p x cb) = peer_device cb"
  by (simp_all add: bta_dm_pm_ssr_def Let_def split: prod.splits option.splits)

lemma ssr_suppressed:
  assumes "bta_dm_get_sco_index e cb = Some idx" "srvcs_peer_bdaddr (conn_srvc cb ! idx) = p"
  shows "btm_calls (bta_dm_pm_ssr e p x cb) = btm_calls cb"
proof -
  have "bta_dm_get_sco_index e (cb\<lparr>p_bta_dm_ssr_spec := sp\<rparr>) = Some idx" for sp
    using assms(1) by (simp add: bta_dm_get_sco_index_def)
  with assms(2) show ?thesis
    by (simp add: bta_dm_pm_ssr_def Let_def split: prod.splits)
qed

lemma cback_ssr_frame:
  "conn_srvc (cback_ssr e st sv p x cb) = conn_srvc cb"
  by (simp add: cback_ssr_def ssr_frame)

lemma cback_ssr_calls:
  assumes "bta_dm_get_sco_index e cb = Some idx" "srvcs_peer_bdaddr (conn_srvc cb ! idx) = p"
  shows "btm_calls (cback_ssr e st sv p x cb) = btm_calls cb
       \<or> st = BTA_SYS_SCO_OPEN \<and>
         btm_calls (cback_ssr e st sv p x cb) = btm_calls cb @ [BTM_SetSsrParams p 0 0 0]"
  by (simp add: cback_ssr_def ssr_suppressed [OF assms])

lemma park_frame:
  "conn_srvc (bta_dm_pm_park e p cb0) = conn_srvc cb0"
  "btm_calls cb0 = btm_calls cb \<Longrightarrow>
     \<exists>calls. btm_calls (bta_dm_pm_park e p cb0) = btm_calls cb @ calls
           \<and> filter is_set_ssr_params calls = []"
  by (simp_all add: bta_dm_pm_park_def Let_def)

lemma sniff_frame:
  "conn_srvc (bta_dm_pm_sniff e d x cb0) = conn_srvc cb0"
  "btm_calls cb0 = btm_calls cb \<Longrightarrow>
     \<exists>calls. btm_calls (bta_dm_pm_sniff e d x cb0) = btm_calls cb @ calls
           \<and> filter is_set_ssr_params calls = []"
  by (simp_all add: bta_dm_pm_sniff_def Let_def)

lemma active_frame:
  "conn_srvc (bta_dm_pm_active e p cb) = conn_srvc cb"
  "\<exists>calls. btm_calls (bta_dm_pm_active e p cb) = btm_calls cb @ calls
           \<and> filter is_set_ssr_params calls = []"
  by (simp_all add: bta_dm_pm_active_def)

lemma execute_frame:
  "conn_srvc (set_mode_execute e p d a cb) = conn_srvc cb"
  "\<exists>calls. btm_calls (set_mode_execute e p d a cb) = btm_calls cb @ calls
           \<and> filter is_set_ssr_params calls = []"
  by (simp_all add: set_mode_execute_def park_frame sniff_frame active_frame)

lemma start_timer_frame:
  assumes "set_mode_start_timer e p sel cb = Inr cb'"
  shows "conn_srvc cb' = conn_srvc cb \<and> btm_calls cb' = btm_calls cb"
  using assms
  by (auto simp add: set_mode_start_timer_def Let_def split: if_splits sum.splits prod.splits)

lemma set_mode_frame:
  assumes "bta_dm_pm_set_mode e p rq r cb = Inr cb'"
  shows "map srvcs_key (conn_srvc cb') = map srvcs_key (conn_srvc cb)
       \<and> (\<exists>calls. btm_calls cb' = btm_calls cb @ calls \<and> filter is_set_ssr_params calls = [])"
proof (cases "peer_device cb = [] \<or> bta_dm_find_peer_device p cb = None")
  case True
  with assms have "cb' = cb" by (auto simp add: bta_dm_pm_set_mode_def split: if_splits)
  then show ?thesis by simp
next
  case False
  then obtain d where d: "bta_dm_find_peer_device p cb = Some d" and ne: "peer_device cb \<noteq> []"
    by auto
  from assms d ne obtain srvcs sel0 where
    scan: "set_mode_services e p (pm_mode_failed (peer_device cb ! d)) r
             (conn_srvc cb) (initial_selection e) = Inr (srvcs, sel0)"
    by (auto simp add: bta_dm_pm_set_mode_def split: sum.splits)
  note keys = set_mode_services_keys [OF scan]
  define sel where "sel = set_mode_allowed e sel0"
  define cb1 where "cb1 = cb\<lparr>conn_srvc := srvcs\<rparr>"
  from assms d ne scan have r:
    "cb' = cb1 \<or> set_mode_start_timer e p sel cb1 = Inr cb'
     \<or> cb' = set_mode_execute e p d (sel_pm_action sel) cb1"
    by (auto simp add: bta_dm_pm_set_mode_def Let_def sel_def cb1_def split: if_splits)
  have c1: "conn_srvc cb1 = srvcs" "btm_calls cb1 = btm_calls cb" by (simp_all add: cb1_def)
  from r show ?thesis
  proof (elim disjE)
    assume "cb' = cb1"
    with keys c1 show ?thesis by simp
  next
    assume "set_mode_start_timer e p sel cb1 = Inr cb'"
    from start_timer_frame [OF this] keys c1 show ?thesis by simp
  next
    assume x: "cb' = set_mode_execute e p d (sel_pm_action sel) cb1"
    from execute_frame [of e p d "sel_pm_action sel" cb1] keys c1 show ?thesis
      unfolding x by simp
  qed
qed

lemma cback_shape:
  assumes "bta_dm_pm_cback e status service app p cb = Inr cb'"
  shows "btm_calls cb' = btm_calls cb
       \<or> (\<exists>cb2 index pm_req. btm_calls cb2 = btm_calls cb \<and>
             bta_dm_pm_set_mode e p (BTA_DM_PM_NO_ACTION e) pm_req
               (cback_ssr e status service p index cb2) = Inr cb')"
proof (cases "find_cfg e service app")
  case None
  with assms show ?thesis by (simp add: bta_dm_pm_cback_def)
next
  case (Some i)
  note cfg = this
  show ?thesis
  proof (cases "bta_dm_pm_stop_timer_by_srvc_id e p service (pm_timer cb)")
    case (Inl err)
    with assms Some show ?thesis by (simp add: bta_dm_pm_cback_def)
  next
    case (Inr ts1)
    define cb1 where "cb1 = cb\<lparr>pm_timer := ts1\<rparr>"
    define index where "index = cback_ssr_index e status service i
                             (map_option (\<lambda>d. peer_device cb1 ! d)
                                (bta_dm_find_peer_device p cb1))"
    define mode where "mode = power_mode
                            (actn_tbl (get_bta_dm_pm_spec e (spec_idx (p_bta_dm_pm_cfg e i)))
                               status)"
    define devices where "devices =
                                    (case bta_dm_find_peer_device p cb1 of
                                       None \<Rightarrow> peer_device cb1
                                     | Some d \<Rightarrow> (peer_device cb1)
                                         [d := (peer_device cb1 ! d)
                                            \<lparr>pm_mode_attempted := 0, pm_mode_failed := 0\<rparr>])"
    have eq: "bta_dm_pm_cback e status service app p cb =
       (if mode = BTA_DM_PM_NO_ACTION e \<and> index = BTA_DM_PM_SSR0 e then Inr cb1
        else case cback_update_services e status service app p mode (conn_srvc cb1) of
               None \<Rightarrow> Inr cb1
             | Some srvcs \<Rightarrow>
                 (case bta_dm_pm_stop_timer e p (pm_timer cb1) of
                    Inl err \<Rightarrow> Inl err
                  | Inr ts2 \<Rightarrow>
                      bta_dm_pm_set_mode e p (BTA_DM_PM_NO_ACTION e)
                        (if srvcs \<noteq> [] then BTA_DM_PM_RESTART else BTA_DM_PM_NEW_REQ)
                        (cback_ssr e status service p index
                           (cb1\<lparr>conn_srvc := srvcs, pm_timer := ts2,
                                peer_device := devices\<rparr>))))"
      by (simp add: bta_dm_pm_cback_def cfg Inr Let_def cb1_def index_def mode_def devices_def
          split: option.splits sum.splits)
    have b1: "btm_calls cb1 = btm_calls cb" by (simp add: cb1_def)
    show ?thesis
    proof (cases "mode = BTA_DM_PM_NO_ACTION e \<and> index = BTA_DM_PM_SSR0 e")
      case True
      with assms have "cb' = cb1" by (simp add: eq)
      with b1 show ?thesis by simp
    next
      case False
      note early = this
      show ?thesis
      proof (cases "cback_update_services e status service app p mode (conn_srvc cb1)")
        case None
        with assms early have "cb' = cb1" by (simp add: eq)
        with b1 show ?thesis by simp
      next
        case (Some srvcs)
        note upd = this
        show ?thesis
        proof (cases "bta_dm_pm_stop_timer e p (pm_timer cb1)")
          case (Inl err)
          with assms early upd show ?thesis by (simp add: eq)
        next
          case (Inr ts2)
          define cb2 where "cb2 = cb1\<lparr>conn_srvc := srvcs, pm_timer := ts2,
                                            peer_device := devices\<rparr>"
          have b2: "btm_calls cb2 = btm_calls cb" by (simp add: cb2_def b1)
          from assms early upd Inr
          have "bta_dm_pm_set_mode e p (BTA_DM_PM_NO_ACTION e)
                  (if srvcs \<noteq> [] then BTA_DM_PM_RESTART else BTA_DM_PM_NEW_REQ)
                  (cback_ssr e status service p index cb2) = Inr cb'"
            by (simp add: eq cb2_def)
          with b2 show ?thesis by blast
        qed
      qed
    qed
  qed
qed

text \<open>
  C7 (as amended).  When \<^verbatim>\<open>bta_dm_get_sco_index()\<close> returns an index whose entry is for
  the peer (an audio gateway service in state \<^verbatim>\<open>SCO_OPEN\<close>), \<^verbatim>\<open>bta_dm_pm_ssr\<close> issues no
  \<^verbatim>\<open>BTM_SetSsrParams\<close> for that peer.  A run of \<^verbatim>\<open>bta_dm_pm_cback\<close> for the peer that
  leaves the table in such a state issues at most one \<^verbatim>\<open>BTM_SetSsrParams\<close>, namely the
  reset \<^verbatim>\<open>BTM_SetSsrParams(peer, 0, 0, 0)\<close>, and only when the status is \<^verbatim>\<open>SCO_OPEN\<close>.
\<close>

theorem ssr_under_sco:
  assumes "bta_dm_pm_cback e status service app peer_addr cb = Inr cb'"
    and "bta_dm_get_sco_index e cb' = Some idx"
    and "srvcs_peer_bdaddr (conn_srvc cb' ! idx) = peer_addr"
  shows "btm_calls (bta_dm_pm_ssr e peer_addr ssr_arg cb') = btm_calls cb'
       \<and> btm_calls cb' = btm_calls cb @ new_calls cb cb'
       \<and> (filter is_set_ssr_params (new_calls cb cb') = []
          \<or> status = BTA_SYS_SCO_OPEN \<and>
            filter is_set_ssr_params (new_calls cb cb') = [BTM_SetSsrParams peer_addr 0 0 0])"
proof -
  have a: "btm_calls (bta_dm_pm_ssr e peer_addr ssr_arg cb') = btm_calls cb'"
    by (rule ssr_suppressed [OF assms(2,3)])
  from cback_shape [OF assms(1)]
  have b: "btm_calls cb' = btm_calls cb @ new_calls cb cb'
       \<and> (filter is_set_ssr_params (new_calls cb cb') = []
          \<or> status = BTA_SYS_SCO_OPEN \<and>
            filter is_set_ssr_params (new_calls cb cb') = [BTM_SetSsrParams peer_addr 0 0 0])"
  proof (elim disjE exE conjE)
    assume "btm_calls cb' = btm_calls cb"
    then show ?thesis by (simp add: new_calls_def)
  next
    fix cb2 index pm_req
    assume b2: "btm_calls cb2 = btm_calls cb"
      and sm: "bta_dm_pm_set_mode e peer_addr (BTA_DM_PM_NO_ACTION e) pm_req
               (cback_ssr e status service peer_addr index cb2) = Inr cb'"
    from set_mode_frame [OF sm] obtain calls where
      k: "map srvcs_key (conn_srvc cb') = map srvcs_key (conn_srvc cb2)"
      and c: "btm_calls cb' = btm_calls (cback_ssr e status service peer_addr index cb2) @ calls"
      and f: "filter is_set_ssr_params calls = []"
      by (auto simp add: cback_ssr_frame)
    from sco_index_keys [OF k, of e] assms(2)
    have s2: "bta_dm_get_sco_index e cb2 = Some idx" by simp
    then have "idx < length (conn_srvc cb2)"
      unfolding bta_dm_get_sco_index_def by (rule first_index_less)
    from peer_keys [OF k this] assms(3)
    have p2: "srvcs_peer_bdaddr (conn_srvc cb2 ! idx) = peer_addr" by simp
    from cback_ssr_calls [OF s2 p2, of status service index] show ?thesis
    proof (elim disjE conjE)
      assume "btm_calls (cback_ssr e status service peer_addr index cb2) = btm_calls cb2"
      with c b2 f show ?thesis by (simp add: new_calls_def)
    next
      assume "status = BTA_SYS_SCO_OPEN"
        and "btm_calls (cback_ssr e status service peer_addr index cb2)
             = btm_calls cb2 @ [BTM_SetSsrParams peer_addr 0 0 0]"
      with c b2 f show ?thesis by (simp add: new_calls_def)
    qed
  qed
  from a b show ?thesis by (intro conjI) simp_all
qed

lemmas cback_simps =
  bta_dm_pm_cback_def example_find_cfg example_pm_environment_def example_pm_cfg_def
  example_pm_spec_def example_ssr_spec_def example_bta_dm_def initial_timer_def
  BTA_DM_PM_MODE_TIMER_MAX_def Let_def bta_dm_find_peer_device_def cback_ssr_index_def
  cback_update_services_def cback_ssr_def bta_dm_pm_set_mode_def initial_selection_def
  set_mode_allowed_def set_mode_start_timer_def bta_pm_action_to_timer_idx_def
  bta_dm_pm_stop_timer_by_index_def bta_dm_pm_start_timer_def find_cfg_def cfg_matches_def
  upt_conv_Cons bta_dm_pm_ssr_def current_ssr_index_def bta_dm_get_sco_index_def
  example_bta_dm_sco_open_def example_bta_dm_in_call_def example_bta_dm_av_open_def

text \<open>
  The theorem where the advanced audio service connects to peer 1 while the peer is in
  a call on a link that uses sniff subrating: \<^verbatim>\<open>bta_dm_pm_cback\<close> calls
  \<^verbatim>\<open>bta_dm_pm_ssr\<close> with the sniff subrating entry of the service, whose latency is not
  zero, and no \<^verbatim>\<open>BTM_SetSsrParams\<close> is issued.
\<close>

theorem ssr_under_sco_witness:
  "bta_dm_pm_cback example_pm_environment BTA_SYS_CONN_OPEN 18 0 1 example_bta_dm_in_call
     = Inr example_bta_dm_av_open
   \<and> bta_dm_get_sco_index example_pm_environment example_bta_dm_av_open = Some 0
   \<and> srvcs_peer_bdaddr (conn_srvc example_bta_dm_av_open ! 0) = 1
   \<and> btm_calls (bta_dm_pm_ssr example_pm_environment 1 2 example_bta_dm_av_open)
       = btm_calls example_bta_dm_av_open
   \<and> filter is_set_ssr_params (new_calls example_bta_dm_in_call example_bta_dm_av_open) = []"
proof -
  have h1: "bta_dm_pm_cback example_pm_environment BTA_SYS_CONN_OPEN 18 0 1
              example_bta_dm_in_call = Inr example_bta_dm_av_open"
    by (simp add: cback_simps)
  have h2: "bta_dm_get_sco_index example_pm_environment example_bta_dm_av_open = Some 0"
    by (simp add: cback_simps)
  have h3: "srvcs_peer_bdaddr (conn_srvc example_bta_dm_av_open ! 0) = 1"
    by (simp add: cback_simps)
  have n: "new_calls example_bta_dm_in_call example_bta_dm_av_open = []"
    by (simp add: new_calls_def cback_simps)
  from ssr_under_sco [OF h1 h2 h3, of 2] h1 h2 h3 n show ?thesis by simp
qed

text \<open>
  C7 as first stated lets no \<^verbatim>\<open>BTM_SetSsrParams\<close> be issued for a peer while the table
  has an audio gateway entry in state \<^verbatim>\<open>SCO_OPEN\<close> for it.  When the audio gateway of
  peer 1 reports \<^verbatim>\<open>SCO_OPEN\<close>, \<^verbatim>\<open>bta_dm_pm_cback\<close> first writes that state into the entry
  of the table and then issues \<^verbatim>\<open>BTM_SetSsrParams(1, 0, 0, 0)\<close>.
\<close>

theorem ssr_reset_on_sco_open_counterexample:
  "bta_dm_pm_cback example_pm_environment BTA_SYS_SCO_OPEN 5 0 1 example_bta_dm
     = Inr example_bta_dm_sco_open
   \<and> bta_dm_get_sco_index example_pm_environment example_bta_dm_sco_open = Some 0
   \<and> srvcs_peer_bdaddr (conn_srvc example_bta_dm_sco_open ! 0) = 1
   \<and> btm_calls example_bta_dm = []
   \<and> btm_calls example_bta_dm_sco_open = [BTM_SetSsrParams 1 0 0 0]"
  by (simp add: cback_simps)

end
